theory Spec2Isabelle
  imports Main
begin

section \<open>The grid layout engine of gtkgrid.c\<close>

text \<open>
  A shallow embedding of the row/column engine of \<^verbatim>\<open>src/gtk/gtkgrid.c\<close>.
  A \<^verbatim>\<open>gint\<close> is modelled as a mathematical integer. Signed overflow is undefined in C,
  and the size computations are described for the runs in which no arithmetic overflows.
  The row operations add to attachments that range over all of \<^verbatim>\<open>gint\<close>, so there the
  wrap-around of the 32-bit machine is written out. C's division truncates towards zero,
  HOL's rounds down, so the quotient and remainder of C are written out.
\<close>

subsection \<open>C arithmetic\<close>

definition c_div :: "int \<Rightarrow> int \<Rightarrow> int" where
  "c_div a b = sgn a * sgn b * (\<bar>a\<bar> div \<bar>b\<bar>)"

definition c_mod :: "int \<Rightarrow> int \<Rightarrow> int" where
  "c_mod a b = a - b * c_div a b"

definition G_MAXINT :: int where
  "G_MAXINT = 2147483647"

definition G_MININT :: int where
  "G_MININT = - 2147483648"

text \<open>
  The \<^verbatim>\<open>gint\<close> that the machine stores for the result \<open>x\<close> of an addition or subtraction
  of \<^verbatim>\<open>gint\<close>s: \<open>x\<close> itself between \<^verbatim>\<open>G_MININT\<close> and \<^verbatim>\<open>G_MAXINT\<close>, wrapped around
  modulo \<open>2 ^ 32\<close> outside.
\<close>

definition gint_wrap :: "int \<Rightarrow> int" where
  "gint_wrap x = (x + 2147483648) mod 4294967296 - 2147483648"

subsection \<open>Data model\<close>

datatype GtkOrientation = GTK_ORIENTATION_HORIZONTAL | GTK_ORIENTATION_VERTICAL

datatype GtkBaselinePosition =
  GTK_BASELINE_POSITION_TOP | GTK_BASELINE_POSITION_CENTER | GTK_BASELINE_POSITION_BOTTOM

text \<open>\<^verbatim>\<open>1 - orientation\<close>, the index of the opposite orientation.\<close>

fun opposite :: "GtkOrientation \<Rightarrow> GtkOrientation" where
  "opposite GTK_ORIENTATION_HORIZONTAL = GTK_ORIENTATION_VERTICAL"
| "opposite GTK_ORIENTATION_VERTICAL = GTK_ORIENTATION_HORIZONTAL"

text \<open>
  The child widget is the framework's object. The engine uses its visibility, whether it
  already has a parent, its expand flag per orientation and its size requests:
  \<^verbatim>\<open>gtk_widget_get_preferred_width\<close> and \<^verbatim>\<open>gtk_widget_get_preferred_width_for_height\<close>
  give (minimum, natural), \<^verbatim>\<open>gtk_widget_get_preferred_height_and_baseline_for_width\<close>
  gives (minimum, natural, minimum baseline, natural baseline), a baseline of -1 meaning
  none.
\<close>

record GtkWidget =
  widget_visible :: bool
  widget_has_parent :: bool
  widget_compute_expand :: "GtkOrientation \<Rightarrow> bool"
  widget_preferred_width :: "int \<times> int"
  widget_preferred_width_for_height :: "int \<Rightarrow> int \<times> int"
  widget_preferred_height_and_baseline_for_width :: "int \<Rightarrow> int \<times> int \<times> int \<times> int"

record GtkGridChildAttach =
  pos :: int
  span :: int

record GtkGridRowProperties =
  row :: int
  baseline_position :: GtkBaselinePosition

definition gtk_grid_row_properties_default :: GtkGridRowProperties where
  "gtk_grid_row_properties_default =
     \<lparr> row = 0, baseline_position = GTK_BASELINE_POSITION_CENTER \<rparr>"

text \<open>The array \<^verbatim>\<open>attach[2]\<close> is indexed by the orientation.\<close>

record GtkGridChild =
  widget :: GtkWidget
  attach :: "GtkOrientation \<Rightarrow> GtkGridChildAttach"

abbreviation CHILD_LEFT :: "GtkGridChild \<Rightarrow> int" where
  "CHILD_LEFT child \<equiv> pos (attach child GTK_ORIENTATION_HORIZONTAL)"

abbreviation CHILD_WIDTH :: "GtkGridChild \<Rightarrow> int" where
  "CHILD_WIDTH child \<equiv> span (attach child GTK_ORIENTATION_HORIZONTAL)"

abbreviation CHILD_TOP :: "GtkGridChild \<Rightarrow> int" where
  "CHILD_TOP child \<equiv> pos (attach child GTK_ORIENTATION_VERTICAL)"

abbreviation CHILD_HEIGHT :: "GtkGridChild \<Rightarrow> int" where
  "CHILD_HEIGHT child \<equiv> span (attach child GTK_ORIENTATION_VERTICAL)"

record GtkGridLineData =
  spacing :: int
  homogeneous :: bool

text \<open>
  \<^verbatim>\<open>struct _GtkGridPrivate\<close>. The two lists are kept in the order of the \<^verbatim>\<open>GList\<close>,
  head first.
\<close>

record GtkGrid =
  children :: "GtkGridChild list"
  row_properties :: "GtkGridRowProperties list"
  priv_orientation :: GtkOrientation
  baseline_row :: int
  linedata :: "GtkOrientation \<Rightarrow> GtkGridLineData"

subsection \<open>Attaching children\<close>

text \<open>
  \<^verbatim>\<open>grid_attach\<close> prepends the new child to the list and parents the widget.
\<close>

definition grid_attach ::
  "GtkGrid \<Rightarrow> GtkWidget \<Rightarrow> int \<Rightarrow> int \<Rightarrow> int \<Rightarrow> int \<Rightarrow> GtkGrid" where
  "grid_attach g w left top_attach width height =
     (let child = \<lparr> widget = w\<lparr>widget_has_parent := True\<rparr>,
                    attach = (\<lambda>orientation. case orientation of
                        GTK_ORIENTATION_HORIZONTAL \<Rightarrow> \<lparr> pos = left, span = width \<rparr>
                      | GTK_ORIENTATION_VERTICAL \<Rightarrow> \<lparr> pos = top_attach, span = height \<rparr>) \<rparr>
      in g\<lparr>children := child # children g\<rparr>)"

text \<open>
  \<^verbatim>\<open>g_return_if_fail (expr)\<close> logs a critical message naming the failed expression and
  returns from the function. The checks \<^verbatim>\<open>GTK_IS_GRID\<close> and \<^verbatim>\<open>GTK_IS_WIDGET\<close> hold by
  typing. The result is the grid after the call and the diagnostic, if one was logged.
\<close>

datatype diagnostic = Critical string

definition gtk_grid_attach ::
  "GtkGrid \<Rightarrow> GtkWidget \<Rightarrow> int \<Rightarrow> int \<Rightarrow> int \<Rightarrow> int \<Rightarrow> GtkGrid \<times> diagnostic option" where
  "gtk_grid_attach g child left top_attach width height =
     (if widget_has_parent child
        then (g, Some (Critical ''_gtk_widget_get_parent (child) == NULL''))
      else if \<not> width > 0 then (g, Some (Critical ''width > 0''))
      else if \<not> height > 0 then (g, Some (Critical ''height > 0''))
      else (grid_attach g child left top_attach width height, None))"

subsection \<open>Inserting and removing rows\<close>

definition insert_row_child :: "int \<Rightarrow> GtkGridChild \<Rightarrow> GtkGridChild" where
  "insert_row_child position child =
     (let top_attach = CHILD_TOP child; height = CHILD_HEIGHT child in
      if top_attach \<ge> position
        then child\<lparr>attach := (attach child)
               (GTK_ORIENTATION_VERTICAL :=
                  attach child GTK_ORIENTATION_VERTICAL \<lparr>pos := gint_wrap (top_attach + 1)\<rparr>)\<rparr>
      else if gint_wrap (top_attach + height) > position
        then child\<lparr>attach := (attach child)
               (GTK_ORIENTATION_VERTICAL :=
                  attach child GTK_ORIENTATION_VERTICAL \<lparr>span := gint_wrap (height + 1)\<rparr>)\<rparr>
      else child)"

definition insert_row_prop :: "int \<Rightarrow> GtkGridRowProperties \<Rightarrow> GtkGridRowProperties" where
  "insert_row_prop position prop =
     (if row prop \<ge> position then prop\<lparr>row := gint_wrap (row prop + 1)\<rparr> else prop)"

definition gtk_grid_insert_row :: "GtkGrid \<Rightarrow> int \<Rightarrow> GtkGrid" where
  "gtk_grid_insert_row g position =
     g\<lparr>children := map (insert_row_child position) (children g),
       row_properties := map (insert_row_prop position) (row_properties g)\<rparr>"

text \<open>
  The loop of \<^verbatim>\<open>gtk_grid_remove_row\<close> visits every node of the child list once. A child
  whose height falls to 0 or below is taken out of the list (\<^verbatim>\<open>gtk_container_remove\<close>
  ends in \<^verbatim>\<open>gtk_grid_remove\<close>, which unlinks the node of that widget); any other child
  gets its height and top written back (\<^verbatim>\<open>gtk_container_child_set\<close> ends in
  \<^verbatim>\<open>gtk_grid_set_child_property\<close>, first for "height", then for "top-attach").
  The list of row properties is not touched.
\<close>

fun remove_row_children :: "int \<Rightarrow> GtkGridChild list \<Rightarrow> GtkGridChild list" where
  "remove_row_children position [] = []"
| "remove_row_children position (child # list) =
     (let top_attach = CHILD_TOP child;
          height = CHILD_HEIGHT child;
          height = (if top_attach \<le> position \<and> gint_wrap (top_attach + height) > position
                    then gint_wrap (height - 1) else height);
          top_attach = (if top_attach > position then gint_wrap (top_attach - 1) else top_attach)
      in if height \<le> 0
           then remove_row_children position list
         else child\<lparr>attach := (attach child)
                (GTK_ORIENTATION_VERTICAL := \<lparr> pos = top_attach, span = height \<rparr>)\<rparr>
              # remove_row_children position list)"

definition gtk_grid_remove_row :: "GtkGrid \<Rightarrow> int \<Rightarrow> GtkGrid" where
  "gtk_grid_remove_row g position =
     g\<lparr>children := remove_row_children position (children g)\<rparr>"

subsection \<open>Row properties\<close>

fun find_row_properties :: "GtkGridRowProperties list \<Rightarrow> int \<Rightarrow> GtkGridRowProperties option" where
  "find_row_properties [] r = None"
| "find_row_properties (prop # l) r =
     (if row prop = r then Some prop else find_row_properties l r)"

definition get_row_properties_or_default :: "GtkGrid \<Rightarrow> int \<Rightarrow> GtkGridRowProperties" where
  "get_row_properties_or_default g r =
     (case find_row_properties (row_properties g) r of
        Some props \<Rightarrow> props
      | None \<Rightarrow> gtk_grid_row_properties_default)"

definition gtk_grid_get_row_baseline_position :: "GtkGrid \<Rightarrow> int \<Rightarrow> GtkBaselinePosition" where
  "gtk_grid_get_row_baseline_position g r = baseline_position (get_row_properties_or_default g r)"

text \<open>
  \<^verbatim>\<open>gtk_grid_set_row_baseline_position\<close>: the entry of the row is the first one of the
  list with that row; if there is none, a default entry for the row is prepended first.
\<close>

fun set_first_row_properties ::
  "int \<Rightarrow> GtkBaselinePosition \<Rightarrow> GtkGridRowProperties list \<Rightarrow> GtkGridRowProperties list" where
  "set_first_row_properties r bp [] = []"
| "set_first_row_properties r bp (prop # l) =
     (if row prop = r then prop\<lparr>baseline_position := bp\<rparr> # l
      else prop # set_first_row_properties r bp l)"

definition get_row_properties_or_create :: "GtkGrid \<Rightarrow> int \<Rightarrow> GtkGrid" where
  "get_row_properties_or_create g r =
     (case find_row_properties (row_properties g) r of
        Some props \<Rightarrow> g
      | None \<Rightarrow> g\<lparr>row_properties :=
                    gtk_grid_row_properties_default\<lparr>row := r\<rparr> # row_properties g\<rparr>)"

definition gtk_grid_set_row_baseline_position ::
  "GtkGrid \<Rightarrow> int \<Rightarrow> GtkBaselinePosition \<Rightarrow> GtkGrid" where
  "gtk_grid_set_row_baseline_position g0 r bp =
     (let g = get_row_properties_or_create g0 r
      in g\<lparr>row_properties := set_first_row_properties r bp (row_properties g)\<rparr>)"

text \<open>
  The grid's data model: every child spans at least one line in each orientation
  (\<^verbatim>\<open>gtk_grid_attach\<close> and the child properties "width" and "height" refuse anything else).
\<close>

definition grid_spans_ok :: "GtkGrid \<Rightarrow> bool" where
  "grid_spans_ok g =
     list_all (\<lambda>child. span (attach child GTK_ORIENTATION_HORIZONTAL) \<ge> 1
                     \<and> span (attach child GTK_ORIENTATION_VERTICAL) \<ge> 1) (children g)"

text \<open>
  The rows of the children leave room for one more row: the top attachment and the
  height of every child are \<^verbatim>\<open>gint\<close>s, and the row after its last one, top + height, lies
  below \<^verbatim>\<open>G_MAXINT\<close>. Then no addition of \<^verbatim>\<open>gtk_grid_insert_row\<close> or
  \<^verbatim>\<open>gtk_grid_remove_row\<close> on the children overflows. Likewise for the rows of the stored row
  properties, which \<^verbatim>\<open>gtk_grid_insert_row\<close> increments.
\<close>

definition grid_rows_in_gint_range :: "GtkGrid \<Rightarrow> bool" where
  "grid_rows_in_gint_range g =
     list_all (\<lambda>child. G_MININT \<le> CHILD_TOP child \<and> CHILD_HEIGHT child < G_MAXINT
                 \<and> CHILD_TOP child + CHILD_HEIGHT child < G_MAXINT) (children g)"

definition row_properties_in_gint_range :: "GtkGrid \<Rightarrow> bool" where
  "row_properties_in_gint_range g =
     list_all (\<lambda>prop. G_MININT \<le> row prop \<and> row prop < G_MAXINT) (row_properties g)"


subsection \<open>Lines and requests\<close>

record GtkGridLine =
  minimum :: int
  natural :: int
  minimum_above :: int
  minimum_below :: int
  natural_above :: int
  natural_below :: int
  position :: int
  allocation :: int
  allocated_baseline :: int
  need_expand :: bool
  expand :: bool
  empty :: bool

text \<open>
  \<^verbatim>\<open>struct _GtkGridLines\<close>; its fields \<^verbatim>\<open>min\<close> and \<^verbatim>\<open>max\<close> are \<open>lines_min\<close> and
  \<open>lines_max\<close> here. Line \<open>i\<close> of the array stands for row or column \<open>lines_min + i\<close>.
\<close>

record GtkGridLines =
  lines :: "GtkGridLine list"
  lines_min :: int
  lines_max :: int

text \<open>\<^verbatim>\<open>struct _GtkGridRequest\<close>; its array \<^verbatim>\<open>lines[2]\<close> is \<open>request_lines\<close>.\<close>

record GtkGridRequest =
  grid :: GtkGrid
  request_lines :: "GtkOrientation \<Rightarrow> GtkGridLines"

text \<open>A line as \<^verbatim>\<open>memset (lines->lines, 0, ...)\<close> leaves it.\<close>

definition zero_line :: GtkGridLine where
  "zero_line = \<lparr> minimum = 0, natural = 0, minimum_above = 0, minimum_below = 0,
                 natural_above = 0, natural_below = 0, position = 0, allocation = 0,
                 allocated_baseline = 0, need_expand = False, expand = False,
                 empty = False \<rparr>"

text \<open>\<^verbatim>\<open>line = &lines[i]; ...\<close>: the line at index \<open>i\<close> rewritten by \<open>f\<close>.\<close>

definition line_update ::
  "nat \<Rightarrow> (GtkGridLine \<Rightarrow> GtkGridLine) \<Rightarrow> GtkGridLine list \<Rightarrow> GtkGridLine list" where
  "line_update i f ls = ls[i := f (ls ! i)]"

definition set_lines ::
  "GtkGridRequest \<Rightarrow> GtkOrientation \<Rightarrow> GtkGridLine list \<Rightarrow> GtkGridRequest" where
  "set_lines request orientation ls =
     request\<lparr>request_lines := (request_lines request)
       (orientation := (request_lines request orientation)\<lparr>lines := ls\<rparr>)\<rparr>"

text \<open>
  The index \<^verbatim>\<open>attach->pos - lines->min + i\<close>. Every child of the grid lies between
  \<^verbatim>\<open>lines->min\<close> and \<^verbatim>\<open>lines->max\<close> as \<^verbatim>\<open>gtk_grid_request_count_lines\<close> computes them,
  so the index is within the array.
\<close>

definition line_index :: "GtkGridLines \<Rightarrow> GtkGridChildAttach \<Rightarrow> nat \<Rightarrow> nat" where
  "line_index L a i = nat (pos a - lines_min L + int i)"

subsection \<open>Counting lines\<close>

definition count_lines_min :: "GtkGrid \<Rightarrow> GtkOrientation \<Rightarrow> int" where
  "count_lines_min g orientation =
     fold (\<lambda>child m. min m (pos (attach child orientation))) (children g) G_MAXINT"

definition count_lines_max :: "GtkGrid \<Rightarrow> GtkOrientation \<Rightarrow> int" where
  "count_lines_max g orientation =
     fold (\<lambda>child m. max m (pos (attach child orientation) + span (attach child orientation)))
       (children g) G_MININT"

definition gtk_grid_request_count_lines :: "GtkGridRequest \<Rightarrow> GtkGridRequest" where
  "gtk_grid_request_count_lines request =
     request\<lparr>request_lines := (\<lambda>orientation. (request_lines request orientation)
        \<lparr>lines_min := count_lines_min (grid request) orientation,
         lines_max := count_lines_max (grid request) orientation\<rparr>)\<rparr>"

text \<open>
  \<^verbatim>\<open>lines->lines = g_newa (GtkGridLine, lines->max - lines->min)\<close> followed by the
  \<^verbatim>\<open>memset\<close>.
\<close>

definition alloc_lines :: "GtkGridRequest \<Rightarrow> GtkOrientation \<Rightarrow> GtkGridRequest" where
  "alloc_lines request orientation =
     (let L = request_lines request orientation
      in set_lines request orientation (replicate (nat (lines_max L - lines_min L)) zero_line))"

text \<open>A request on the stack: no array allocated yet.\<close>

definition new_request :: "GtkGrid \<Rightarrow> GtkGridRequest" where
  "new_request g =
     \<lparr> grid = g, request_lines = (\<lambda>orientation. \<lparr> lines = [], lines_min = 0, lines_max = 0 \<rparr>) \<rparr>"

subsection \<open>The size request\<close>

definition init_line :: "GtkGridLine \<Rightarrow> GtkGridLine" where
  "init_line line = line\<lparr>minimum := 0, natural := 0, minimum_above := -1, minimum_below := -1,
                         natural_above := -1, natural_below := -1, expand := False,
                         empty := True\<rparr>"

definition init_expand_child ::
  "GtkGridLines \<Rightarrow> GtkOrientation \<Rightarrow> GtkGridChild \<Rightarrow> GtkGridLine list \<Rightarrow> GtkGridLine list" where
  "init_expand_child L orientation child ls =
     (let a = attach child orientation in
      if span a = 1 \<and> widget_compute_expand (widget child) orientation
        then line_update (line_index L a 0) (\<lambda>line. line\<lparr>expand := True\<rparr>) ls
      else ls)"

definition gtk_grid_request_init :: "GtkGridRequest \<Rightarrow> GtkOrientation \<Rightarrow> GtkGridRequest" where
  "gtk_grid_request_init request orientation =
     (let L = request_lines request orientation;
          ls = fold (\<lambda>i. line_update i init_line) [0..<nat (lines_max L - lines_min L)] (lines L);
          ls = fold (init_expand_child L orientation) (children (grid request)) ls
      in set_lines request orientation ls)"

definition compute_allocation_for_child ::
  "GtkGridRequest \<Rightarrow> GtkGridChild \<Rightarrow> GtkOrientation \<Rightarrow> int" where
  "compute_allocation_for_child request child orientation =
     (let L = request_lines request orientation;
          a = attach child orientation
      in fold (\<lambda>i size. size + allocation (lines L ! line_index L a i)) [0..<nat (span a)]
           ((span a - 1) * spacing (linedata (grid request) orientation)))"

text \<open>
  \<^verbatim>\<open>compute_request_for_child\<close> gives (minimum, natural, minimum baseline, natural
  baseline). The horizontal requests of a widget carry no baseline.
\<close>

definition compute_request_for_child ::
  "GtkGridRequest \<Rightarrow> GtkGridChild \<Rightarrow> GtkOrientation \<Rightarrow> bool \<Rightarrow> int \<times> int \<times> int \<times> int" where
  "compute_request_for_child request child orientation contextual =
     (if contextual then
        (let size = compute_allocation_for_child request child (opposite orientation) in
         if orientation = GTK_ORIENTATION_HORIZONTAL
           then (case widget_preferred_width_for_height (widget child) size of
                   (m, n) \<Rightarrow> (m, n, -1, -1))
         else widget_preferred_height_and_baseline_for_width (widget child) size)
      else
        (if orientation = GTK_ORIENTATION_HORIZONTAL
           then (case widget_preferred_width (widget child) of (m, n) \<Rightarrow> (m, n, -1, -1))
         else widget_preferred_height_and_baseline_for_width (widget child) (-1)))"

definition non_spanning_child ::
  "GtkGridRequest \<Rightarrow> GtkOrientation \<Rightarrow> bool \<Rightarrow> GtkGridChild \<Rightarrow> GtkGridLine list
   \<Rightarrow> GtkGridLine list" where
  "non_spanning_child request orientation contextual child ls =
     (let L = request_lines request orientation; a = attach child orientation in
      if \<not> widget_visible (widget child) then ls
      else if span a \<noteq> 1 then ls
      else (case compute_request_for_child request child orientation contextual of
              (m, n, m_baseline, n_baseline) \<Rightarrow>
                if m_baseline \<noteq> -1
                  then line_update (line_index L a 0)
                         (\<lambda>line. line\<lparr>minimum_above := max (minimum_above line) m_baseline,
                                       minimum_below := max (minimum_below line) (m - m_baseline),
                                       natural_above := max (natural_above line) n_baseline,
                                       natural_below := max (natural_below line) (n - n_baseline)\<rparr>)
                         ls
                else line_update (line_index L a 0)
                       (\<lambda>line. line\<lparr>minimum := max (minimum line) m,
                                     natural := max (natural line) n\<rparr>)
                       ls))"

text \<open>
  The second loop of \<^verbatim>\<open>gtk_grid_request_non_spanning\<close>, for one line with a baseline.
  The statements run in the order of the source, each reading the fields as the
  statements before it left them.
\<close>

definition baseline_line :: "GtkBaselinePosition \<Rightarrow> GtkGridLine \<Rightarrow> GtkGridLine" where
  "baseline_line baseline_pos line0 =
     (let line = line0\<lparr>minimum := max (minimum line0) (minimum_above line0 + minimum_below line0)\<rparr>;
          line = line\<lparr>natural := max (natural line) (natural_above line + natural_below line)\<rparr>
      in case baseline_pos of
           GTK_BASELINE_POSITION_TOP \<Rightarrow>
             (let line = line\<lparr>minimum_above := minimum_above line + 0\<rparr>;
                  line = line\<lparr>minimum_below := minimum_below line
                            + (minimum line - (minimum_above line + minimum_below line))\<rparr>;
                  line = line\<lparr>natural_above := natural_above line + 0\<rparr>;
                  line = line\<lparr>natural_below := natural_below line
                            + (natural line - (natural_above line + natural_below line))\<rparr>
              in line)
         | GTK_BASELINE_POSITION_CENTER \<Rightarrow>
             (let line = line\<lparr>minimum_above := minimum_above line
                            + c_div (minimum line - (minimum_above line + minimum_below line)) 2\<rparr>;
                  line = line\<lparr>minimum_below := minimum_below line
                            + c_div (minimum line - (minimum_above line + minimum_below line)) 2\<rparr>;
                  line = line\<lparr>natural_above := natural_above line
                            + c_div (natural line - (natural_above line + natural_below line)) 2\<rparr>;
                  line = line\<lparr>natural_below := natural_below line
                            + c_div (natural line - (natural_above line + natural_below line)) 2\<rparr>
              in line)
         | GTK_BASELINE_POSITION_BOTTOM \<Rightarrow>
             (let line = line\<lparr>minimum_above := minimum_above line
                            + (minimum line - (minimum_above line + minimum_below line))\<rparr>;
                  line = line\<lparr>minimum_below := minimum_below line + 0\<rparr>;
                  line = line\<lparr>natural_above := natural_above line
                            + (natural line - (natural_above line + natural_below line))\<rparr>;
                  line = line\<lparr>natural_below := natural_below line + 0\<rparr>
              in line))"

definition non_spanning_line ::
  "GtkGrid \<Rightarrow> GtkGridLines \<Rightarrow> nat \<Rightarrow> GtkGridLine list \<Rightarrow> GtkGridLine list" where
  "non_spanning_line g L i ls =
     (if minimum_above (ls ! i) \<noteq> -1
        then line_update i
               (baseline_line (gtk_grid_get_row_baseline_position g (int i + lines_min L))) ls
      else ls)"

definition gtk_grid_request_non_spanning ::
  "GtkGridRequest \<Rightarrow> GtkOrientation \<Rightarrow> bool \<Rightarrow> GtkGridRequest" where
  "gtk_grid_request_non_spanning request orientation contextual =
     (let L = request_lines request orientation;
          ls = fold (non_spanning_child request orientation contextual)
                 (children (grid request)) (lines L);
          ls = fold (non_spanning_line (grid request) L)
                 [0..<nat (lines_max L - lines_min L)] ls
      in set_lines request orientation ls)"

definition gtk_grid_request_homogeneous ::
  "GtkGridRequest \<Rightarrow> GtkOrientation \<Rightarrow> GtkGridRequest" where
  "gtk_grid_request_homogeneous request orientation =
     (let L = request_lines request orientation;
          idx = [0..<nat (lines_max L - lines_min L)]
      in if \<not> homogeneous (linedata (grid request) orientation) then request
         else
           (let m = fold (\<lambda>i m. max m (minimum (lines L ! i))) idx 0;
                n = fold (\<lambda>i n. max n (natural (lines L ! i))) idx 0;
                ls = fold (\<lambda>i. line_update i (\<lambda>line. line\<lparr>minimum := m, natural := n\<rparr>))
                       idx (lines L)
            in set_lines request orientation ls))"

text \<open>
  The loop that hands the missing space of a spanning child to the lines it spans, when
  the orientation is not homogeneous. It appears twice in the source, once adding to
  \<^verbatim>\<open>line->minimum\<close> and once to \<^verbatim>\<open>line->natural\<close>; \<open>add\<close> is that assignment. The
  arguments \<open>extra\<close> and \<open>expand_count\<close> are the variables \<^verbatim>\<open>extra\<close> and \<^verbatim>\<open>expand\<close>.
\<close>

fun spanning_distribute ::
  "(int \<Rightarrow> GtkGridLine \<Rightarrow> GtkGridLine) \<Rightarrow> bool \<Rightarrow> int \<Rightarrow> int \<Rightarrow> nat list
   \<Rightarrow> GtkGridLine list \<Rightarrow> GtkGridLine list" where
  "spanning_distribute add force_expand extra expand_count [] ls = ls"
| "spanning_distribute add force_expand extra expand_count (i # idx) ls =
     (if force_expand \<or> expand (ls ! i)
        then (let line_extra = c_div extra expand_count
              in spanning_distribute add force_expand (extra - line_extra) (expand_count - 1) idx
                   (line_update i (add line_extra) ls))
      else spanning_distribute add force_expand extra expand_count idx ls)"

definition add_minimum :: "int \<Rightarrow> GtkGridLine \<Rightarrow> GtkGridLine" where
  "add_minimum d line = line\<lparr>minimum := minimum line + d\<rparr>"

definition add_natural :: "int \<Rightarrow> GtkGridLine \<Rightarrow> GtkGridLine" where
  "add_natural d line = line\<lparr>natural := natural line + d\<rparr>"

text \<open>
  The body of the loop of \<^verbatim>\<open>gtk_grid_request_spanning\<close> for a visible child of span other
  than 1, whose request is (\<open>child_minimum\<close>, \<open>child_natural\<close>).
\<close>

definition spanning_lines ::
  "GtkGridLineData \<Rightarrow> GtkGridLines \<Rightarrow> GtkGridChildAttach \<Rightarrow> int \<Rightarrow> int
   \<Rightarrow> GtkGridLine list \<Rightarrow> GtkGridLine list" where
  "spanning_lines ld L a child_minimum child_natural ls =
     (let idx = map (line_index L a) [0..<nat (span a)];
          span_minimum = fold (\<lambda>i s. s + minimum (ls ! i)) idx ((span a - 1) * spacing ld);
          span_natural = fold (\<lambda>i s. s + natural (ls ! i)) idx ((span a - 1) * spacing ld);
          span_expand = fold (\<lambda>i s. if expand (ls ! i) then s + 1 else s) idx 0;
          force_expand = (span_expand = 0);
          span_expand = (if span_expand = 0 then span a else span_expand);
          ls = (if span_minimum < child_minimum then
                  (if homogeneous ld then
                     (let total = child_minimum - (span a - 1) * spacing ld;
                          m = c_div total (span a) + (if c_mod total (span a) \<noteq> 0 then 1 else 0)
                      in fold (\<lambda>i. line_update i (\<lambda>line. line\<lparr>minimum := max (minimum line) m\<rparr>))
                           idx ls)
                   else spanning_distribute add_minimum force_expand
                          (child_minimum - span_minimum) span_expand idx ls)
                else ls);
          ls = (if span_natural < child_natural then
                  (if homogeneous ld then
                     (let total = child_natural - (span a - 1) * spacing ld;
                          n = c_div total (span a) + (if c_mod total (span a) \<noteq> 0 then 1 else 0)
                      in fold (\<lambda>i. line_update i (\<lambda>line. line\<lparr>natural := max (natural line) n\<rparr>))
                           idx ls)
                   else spanning_distribute add_natural force_expand
                          (child_natural - span_natural) span_expand idx ls)
                else ls)
      in ls)"

definition spanning_child ::
  "GtkGridRequest \<Rightarrow> GtkOrientation \<Rightarrow> bool \<Rightarrow> GtkGridChild \<Rightarrow> GtkGridLine list
   \<Rightarrow> GtkGridLine list" where
  "spanning_child request orientation contextual child ls =
     (let a = attach child orientation in
      if \<not> widget_visible (widget child) then ls
      else if span a = 1 then ls
      else (case compute_request_for_child request child orientation contextual of
              (child_minimum, child_natural, _, _) \<Rightarrow>
                spanning_lines (linedata (grid request) orientation)
                  (request_lines request orientation) a child_minimum child_natural ls))"

definition gtk_grid_request_spanning ::
  "GtkGridRequest \<Rightarrow> GtkOrientation \<Rightarrow> bool \<Rightarrow> GtkGridRequest" where
  "gtk_grid_request_spanning request orientation contextual =
     set_lines request orientation
       (fold (spanning_child request orientation contextual) (children (grid request))
          (lines (request_lines request orientation)))"

definition gtk_grid_request_run ::
  "GtkGridRequest \<Rightarrow> GtkOrientation \<Rightarrow> bool \<Rightarrow> GtkGridRequest" where
  "gtk_grid_request_run request orientation contextual =
     (let request = gtk_grid_request_init request orientation;
          request = gtk_grid_request_non_spanning request orientation contextual;
          request = gtk_grid_request_homogeneous request orientation;
          request = gtk_grid_request_spanning request orientation contextual;
          request = gtk_grid_request_homogeneous request orientation
      in request)"

subsection \<open>Empty and expanding lines\<close>

definition expand_reset_line :: "GtkGridLine \<Rightarrow> GtkGridLine" where
  "expand_reset_line line = line\<lparr>need_expand := False, expand := False, empty := True\<rparr>"

text \<open>
  The three loops over the children and the lines in \<^verbatim>\<open>gtk_grid_request_compute_expand\<close>;
  \<open>mn\<close> and \<open>mx\<close> are \<^verbatim>\<open>min\<close> and \<^verbatim>\<open>max\<close> after clamping to the lines of the request.
  The test of the spanning loops reads \<^verbatim>\<open>attach->pos + 1 < min\<close>, as in the source.
\<close>

definition expand_non_spanning_child ::
  "GtkGridLines \<Rightarrow> GtkOrientation \<Rightarrow> int \<Rightarrow> int \<Rightarrow> GtkGridChild \<Rightarrow> GtkGridLine list
   \<Rightarrow> GtkGridLine list" where
  "expand_non_spanning_child L orientation mn mx child ls =
     (let a = attach child orientation in
      if \<not> widget_visible (widget child) then ls
      else if span a \<noteq> 1 then ls
      else if pos a \<ge> mx \<or> pos a < mn then ls
      else (let ls = line_update (line_index L a 0) (\<lambda>line. line\<lparr>empty := False\<rparr>) ls
            in if widget_compute_expand (widget child) orientation
                 then line_update (line_index L a 0) (\<lambda>line. line\<lparr>expand := True\<rparr>) ls
               else ls))"

definition expand_spanning_child ::
  "GtkGridLines \<Rightarrow> GtkOrientation \<Rightarrow> int \<Rightarrow> int \<Rightarrow> GtkGridChild \<Rightarrow> GtkGridLine list
   \<Rightarrow> GtkGridLine list" where
  "expand_spanning_child L orientation mn mx child ls =
     (let a = attach child orientation in
      if \<not> widget_visible (widget child) then ls
      else if span a = 1 then ls
      else
        (case fold (\<lambda>i (ls, has_expand).
                     (let has_expand = (if expand (ls ! line_index L a i) then True else has_expand)
                      in if pos a + int i \<ge> mx \<or> pos a + 1 < mn then (ls, has_expand)
                         else (line_update (line_index L a i) (\<lambda>line. line\<lparr>empty := False\<rparr>) ls,
                               has_expand)))
                [0..<nat (span a)] (ls, False) of
           (ls, has_expand) \<Rightarrow>
             if \<not> has_expand \<and> widget_compute_expand (widget child) orientation
               then fold (\<lambda>i ls.
                            if pos a + int i \<ge> mx \<or> pos a + 1 < mn then ls
                            else line_update (line_index L a i)
                                   (\<lambda>line. line\<lparr>need_expand := True\<rparr>) ls)
                      [0..<nat (span a)] ls
             else ls))"

definition expand_count_line ::
  "nat \<Rightarrow> GtkGridLine list \<times> int \<times> int \<Rightarrow> GtkGridLine list \<times> int \<times> int" where
  "expand_count_line i acc =
     (case acc of (ls, empty_count, expand_count) \<Rightarrow>
        (let ls = (if need_expand (ls ! i)
                     then line_update i (\<lambda>line. line\<lparr>expand := True\<rparr>) ls else ls)
         in (ls,
             (if empty (ls ! i) then empty_count + 1 else empty_count),
             (if expand (ls ! i) then expand_count + 1 else expand_count))))"

text \<open>The result is the request, \<^verbatim>\<open>*nonempty_lines\<close> and \<^verbatim>\<open>*expand_lines\<close>.\<close>

definition gtk_grid_request_compute_expand ::
  "GtkGridRequest \<Rightarrow> GtkOrientation \<Rightarrow> int \<Rightarrow> int \<Rightarrow> GtkGridRequest \<times> int \<times> int" where
  "gtk_grid_request_compute_expand request orientation min_arg max_arg =
     (let L = request_lines request orientation;
          mn = max min_arg (lines_min L);
          mx = min max_arg (lines_max L);
          window = [nat (mn - lines_min L)..<nat (mx - lines_min L)];
          ls = fold (\<lambda>i. line_update i expand_reset_line) window (lines L);
          ls = fold (expand_non_spanning_child L orientation mn mx) (children (grid request)) ls;
          ls = fold (expand_spanning_child L orientation mn mx) (children (grid request)) ls
      in case fold expand_count_line window (ls, 0, 0) of
           (ls, empty_count, expand_count) \<Rightarrow>
             (set_lines request orientation ls, mx - mn - empty_count, expand_count))"

subsection \<open>Summing the request\<close>

definition sum_line ::
  "GtkGrid \<Rightarrow> GtkOrientation \<Rightarrow> GtkGridLines \<Rightarrow> nat \<Rightarrow> int \<times> int \<times> int \<times> int
   \<Rightarrow> int \<times> int \<times> int \<times> int" where
  "sum_line g orientation L i acc =
     (case acc of (mn, nt, m_baseline, n_baseline) \<Rightarrow>
        (let line = lines L ! i;
             hit = (orientation = GTK_ORIENTATION_VERTICAL
                    \<and> lines_min L + int i = baseline_row g
                    \<and> minimum_above line \<noteq> -1);
             m_baseline = (if hit then mn + minimum_above line else m_baseline);
             n_baseline = (if hit then nt + natural_above line else n_baseline);
             mn = mn + minimum line;
             nt = nt + natural line;
             sp = spacing (linedata g orientation)
         in if \<not> empty line then (mn + sp, nt + sp, m_baseline, n_baseline)
            else (mn, nt, m_baseline, n_baseline)))"

text \<open>
  The result is the request and (minimum, natural, minimum baseline, natural baseline);
  the callers set both baselines to -1 before the call.
\<close>

definition gtk_grid_request_sum ::
  "GtkGridRequest \<Rightarrow> GtkOrientation \<Rightarrow> GtkGridRequest \<times> int \<times> int \<times> int \<times> int" where
  "gtk_grid_request_sum request0 orientation =
     (case gtk_grid_request_compute_expand request0 orientation G_MININT G_MAXINT of
        (request, nonempty, _) \<Rightarrow>
          (let L = request_lines request orientation;
               sp = spacing (linedata (grid request) orientation)
           in case fold (sum_line (grid request) orientation L)
                     [0..<nat (lines_max L - lines_min L)] (0, 0, -1, -1) of
                (mn, nt, m_baseline, n_baseline) \<Rightarrow>
                  if nonempty > 0 then (request, mn - sp, nt - sp, m_baseline, n_baseline)
                  else (request, mn, nt, m_baseline, n_baseline)))"

subsection \<open>Allocating the lines\<close>

record GtkRequestedSize =
  minimum_size :: int
  natural_size :: int

text \<open>
  \<^verbatim>\<open>gtk_distribute_natural_allocation (extra_space, n, sizes)\<close> raises the
  \<^verbatim>\<open>minimum_size\<close> fields of \<^verbatim>\<open>sizes\<close> and returns the space it did not hand out. It is
  defined in another file of the toolkit, so the allocator takes it as the argument
  \<open>dna\<close>: the sizes in, the space left and the sizes out.
\<close>

type_synonym natural_allocation = "int \<Rightarrow> GtkRequestedSize list \<Rightarrow> int \<times> GtkRequestedSize list"

definition collect_size ::
  "GtkGridLine list \<Rightarrow> nat \<Rightarrow> int \<times> GtkRequestedSize list \<Rightarrow> int \<times> GtkRequestedSize list" where
  "collect_size ls i acc =
     (case acc of (sz, sizes) \<Rightarrow>
        (let line = ls ! i in
         if empty line then (sz, sizes)
         else (sz - minimum line,
               sizes @ [\<lparr> minimum_size = minimum line, natural_size = natural line \<rparr>])))"

text \<open>
  The second loop of \<^verbatim>\<open>gtk_grid_distribute_non_homogeneous\<close>: \<open>j\<close> counts the lines that
  are not empty, \<open>rest\<close> the units of the remainder still to hand out.
\<close>

fun assign_allocations ::
  "GtkRequestedSize list \<Rightarrow> int \<Rightarrow> nat list \<Rightarrow> nat \<Rightarrow> int \<Rightarrow> GtkGridLine list
   \<Rightarrow> GtkGridLine list" where
  "assign_allocations sizes extra [] j rest ls = ls"
| "assign_allocations sizes extra (i # idx) j rest ls =
     (if empty (ls ! i) then assign_allocations sizes extra idx j rest ls
      else
        (let ls = line_update i (\<lambda>line. line\<lparr>allocation := minimum_size (sizes ! j)\<rparr>) ls in
         if expand (ls ! i) then
           (let ls = line_update i (\<lambda>line. line\<lparr>allocation := allocation line + extra\<rparr>) ls in
            if rest > 0
              then assign_allocations sizes extra idx (j + 1) (rest - 1)
                     (line_update i (\<lambda>line. line\<lparr>allocation := allocation line + 1\<rparr>) ls)
            else assign_allocations sizes extra idx (j + 1) rest ls)
         else assign_allocations sizes extra idx (j + 1) rest ls))"

definition gtk_grid_distribute_non_homogeneous ::
  "natural_allocation \<Rightarrow> GtkGridLines \<Rightarrow> int \<Rightarrow> int \<Rightarrow> int \<Rightarrow> int \<Rightarrow> int \<Rightarrow> GtkGridLines" where
  "gtk_grid_distribute_non_homogeneous dna L nonempty expand_count size0 min_arg max_arg =
     (if nonempty = 0 then L
      else
        (let window = [nat (min_arg - lines_min L)..<nat (max_arg - lines_min L)] in
         case fold (collect_size (lines L)) window (size0, []) of
           (size1, sizes) \<Rightarrow>
             (case dna (max 0 size1) sizes of
                (size2, sizes) \<Rightarrow>
                  (let extra = (if expand_count > 0 then c_div size2 expand_count else 0);
                       rest = (if expand_count > 0 then c_mod size2 expand_count else 0)
                   in L\<lparr>lines := assign_allocations sizes extra window 0 rest (lines L)\<rparr>))))"

fun homogeneous_allocations ::
  "int \<Rightarrow> nat list \<Rightarrow> int \<Rightarrow> GtkGridLine list \<Rightarrow> GtkGridLine list" where
  "homogeneous_allocations extra [] rest ls = ls"
| "homogeneous_allocations extra (i # idx) rest ls =
     (if empty (ls ! i) then homogeneous_allocations extra idx rest ls
      else
        (let ls = line_update i (\<lambda>line. line\<lparr>allocation := extra\<rparr>) ls in
         if rest > 0
           then homogeneous_allocations extra idx (rest - 1)
                  (line_update i (\<lambda>line. line\<lparr>allocation := allocation line + 1\<rparr>) ls)
         else homogeneous_allocations extra idx rest ls))"

definition allocate_baseline_line ::
  "GtkGrid \<Rightarrow> GtkGridLines \<Rightarrow> nat \<Rightarrow> GtkGridLine list \<Rightarrow> GtkGridLine list" where
  "allocate_baseline_line g L i ls =
     (let line = ls ! i in
      if empty line then ls
      else if minimum_above line \<noteq> -1 then
        (case gtk_grid_get_row_baseline_position g (int i + lines_min L) of
           GTK_BASELINE_POSITION_TOP \<Rightarrow>
             line_update i (\<lambda>line. line\<lparr>allocated_baseline := minimum_above line\<rparr>) ls
         | GTK_BASELINE_POSITION_CENTER \<Rightarrow>
             line_update i (\<lambda>line. line\<lparr>allocated_baseline := minimum_above line
                 + c_div (allocation line - (minimum_above line + minimum_below line)) 2\<rparr>) ls
         | GTK_BASELINE_POSITION_BOTTOM \<Rightarrow>
             line_update i (\<lambda>line. line\<lparr>allocated_baseline :=
                 allocation line - minimum_below line\<rparr>) ls)
      else line_update i (\<lambda>line. line\<lparr>allocated_baseline := -1\<rparr>) ls)"

text \<open>
  Whether \<^verbatim>\<open>gtk_grid_request_allocate\<close> splits the lines at the baseline row; \<open>baseline\<close>
  is \<^verbatim>\<open>gtk_widget_get_allocated_baseline\<close> of the grid, -1 when the parent gave none.
\<close>

definition baseline_split :: "GtkGridRequest \<Rightarrow> GtkOrientation \<Rightarrow> int \<Rightarrow> bool" where
  "baseline_split request orientation baseline =
     (let L = request_lines request orientation; priv = grid request in
      orientation = GTK_ORIENTATION_VERTICAL \<and> baseline \<noteq> -1
      \<and> baseline_row priv \<ge> lines_min L \<and> baseline_row priv < lines_max L
      \<and> minimum_above (lines L ! nat (baseline_row priv - lines_min L)) \<noteq> -1)"

text \<open>
  The first part of \<^verbatim>\<open>gtk_grid_request_allocate\<close>: the request after the calls of
  \<^verbatim>\<open>gtk_grid_request_compute_expand\<close>, then \<^verbatim>\<open>nonempty1\<close>, \<^verbatim>\<open>expand1\<close>, \<^verbatim>\<open>nonempty2\<close>,
  \<^verbatim>\<open>expand2\<close>, \<^verbatim>\<open>split\<close>, \<^verbatim>\<open>size1\<close> and \<^verbatim>\<open>size2\<close>.
\<close>

definition allocate_sizes ::
  "GtkGridRequest \<Rightarrow> GtkOrientation \<Rightarrow> int \<Rightarrow> int
   \<Rightarrow> GtkGridRequest \<times> int \<times> int \<times> int \<times> int \<times> int \<times> int \<times> int" where
  "allocate_sizes request0 orientation total_size baseline =
     (let L = request_lines request0 orientation;
          priv = grid request0;
          sp = spacing (linedata priv orientation)
      in if baseline_split request0 orientation baseline then
           (let split = baseline_row priv;
                split_pos = baseline - minimum_above (lines L ! nat (baseline_row priv - lines_min L))
            in case gtk_grid_request_compute_expand request0 orientation (lines_min L) split of
                 (request1, nonempty1, expand1) \<Rightarrow>
                   (case gtk_grid_request_compute_expand request1 orientation split (lines_max L) of
                      (request2, nonempty2, expand2) \<Rightarrow>
                        if nonempty2 > 0
                          then (request2, nonempty1, expand1, nonempty2, expand2, split,
                                split_pos - nonempty1 * sp,
                                (total_size - split_pos) - (nonempty2 - 1) * sp)
                        else (request2, nonempty1, expand1, nonempty2, expand2, split,
                              total_size - (nonempty1 - 1) * sp, 0)))
         else
           (case gtk_grid_request_compute_expand request0 orientation (lines_min L) (lines_max L) of
              (request1, nonempty1, expand1) \<Rightarrow>
                (request1, nonempty1, expand1, 0, 0, lines_max L,
                 total_size - (nonempty1 - 1) * sp, 0)))"

definition gtk_grid_request_allocate ::
  "natural_allocation \<Rightarrow> GtkGridRequest \<Rightarrow> GtkOrientation \<Rightarrow> int \<Rightarrow> int \<Rightarrow> GtkGridRequest" where
  "gtk_grid_request_allocate dna request0 orientation total_size baseline =
     (case allocate_sizes request0 orientation total_size baseline of
        (request, nonempty1, expand1, nonempty2, expand2, split, size1, size2) \<Rightarrow>
          if nonempty1 = 0 \<and> nonempty2 = 0 then request
          else
            (let L = request_lines request orientation;
                 all_lines = [0..<nat (lines_max L - lines_min L)];
                 ls =
                   (if homogeneous (linedata (grid request) orientation) then
                      (let extra = (if nonempty1 > 0 then c_div size1 nonempty1 else 0);
                           rest = (if nonempty1 > 0 then c_mod size1 nonempty1 else 0);
                           extra2 = c_div size2 nonempty2;
                           take2 = (nonempty2 > 0 \<and> (extra2 < extra \<or> nonempty1 = 0));
                           rest = (if take2 then c_mod size2 nonempty2 else rest);
                           extra = (if take2 then extra2 else extra)
                       in homogeneous_allocations extra all_lines rest (lines L))
                    else
                      (let L1 = gtk_grid_distribute_non_homogeneous dna L nonempty1 expand1 size1
                                  (lines_min L) split;
                           L2 = gtk_grid_distribute_non_homogeneous dna L1 nonempty2 expand2 size2
                                  split (lines_max L)
                       in lines L2));
                 ls = fold (allocate_baseline_line (grid request) L) all_lines ls
             in set_lines request orientation ls))"

subsection \<open>The preferred size of the grid\<close>

text \<open>
  The result of a query is the grid as the call leaves it and (minimum, natural, minimum
  baseline, natural baseline). The request and its lines live on the stack of the call.
\<close>

definition gtk_grid_get_size ::
  "GtkGrid \<Rightarrow> GtkOrientation \<Rightarrow> GtkGrid \<times> int \<times> int \<times> int \<times> int" where
  "gtk_grid_get_size g orientation =
     (if children g = [] then (g, 0, 0, -1, -1)
      else
        (let request = new_request g;
             request = gtk_grid_request_count_lines request;
             request = alloc_lines request orientation;
             request = gtk_grid_request_run request orientation False
         in case gtk_grid_request_sum request orientation of
              (request, result) \<Rightarrow> (grid request, result)))"

definition gtk_grid_get_size_for_size ::
  "natural_allocation \<Rightarrow> int \<Rightarrow> GtkGrid \<Rightarrow> GtkOrientation \<Rightarrow> int
   \<Rightarrow> GtkGrid \<times> int \<times> int \<times> int \<times> int" where
  "gtk_grid_get_size_for_size dna baseline g orientation size0 =
     (if children g = [] then (g, 0, 0, -1, -1)
      else
        (let request = new_request g;
             request = gtk_grid_request_count_lines request;
             request = alloc_lines request GTK_ORIENTATION_HORIZONTAL;
             request = alloc_lines request GTK_ORIENTATION_VERTICAL;
             request = gtk_grid_request_run request (opposite orientation) False
         in case gtk_grid_request_sum request (opposite orientation) of
              (request, min_size, nat_size, _, _) \<Rightarrow>
                (let request = gtk_grid_request_allocate dna request (opposite orientation)
                                 (max size0 min_size) baseline;
                     request = gtk_grid_request_run request orientation True
                 in case gtk_grid_request_sum request orientation of
                      (request, result) \<Rightarrow> (grid request, result))))"

datatype GtkSizeRequestMode =
  GTK_SIZE_REQUEST_HEIGHT_FOR_WIDTH | GTK_SIZE_REQUEST_WIDTH_FOR_HEIGHT
  | GTK_SIZE_REQUEST_CONSTANT_SIZE

text \<open>
  The five size vfuncs of the widget class; \<open>mode\<close> is what
  \<^verbatim>\<open>gtk_widget_get_request_mode\<close> answers for the grid. The first four are called with no
  place for a baseline.
\<close>

definition drop_baselines ::
  "GtkGrid \<times> int \<times> int \<times> int \<times> int \<Rightarrow> GtkGrid \<times> int \<times> int" where
  "drop_baselines r = (case r of (g, mn, nt, _, _) \<Rightarrow> (g, mn, nt))"

definition gtk_grid_get_preferred_width ::
  "natural_allocation \<Rightarrow> int \<Rightarrow> GtkSizeRequestMode \<Rightarrow> GtkGrid \<Rightarrow> GtkGrid \<times> int \<times> int" where
  "gtk_grid_get_preferred_width dna baseline mode g =
     drop_baselines
       (if mode = GTK_SIZE_REQUEST_WIDTH_FOR_HEIGHT
          then gtk_grid_get_size_for_size dna baseline g GTK_ORIENTATION_HORIZONTAL 0
        else gtk_grid_get_size g GTK_ORIENTATION_HORIZONTAL)"

definition gtk_grid_get_preferred_height ::
  "natural_allocation \<Rightarrow> int \<Rightarrow> GtkSizeRequestMode \<Rightarrow> GtkGrid \<Rightarrow> GtkGrid \<times> int \<times> int" where
  "gtk_grid_get_preferred_height dna baseline mode g =
     drop_baselines
       (if mode = GTK_SIZE_REQUEST_HEIGHT_FOR_WIDTH
          then gtk_grid_get_size_for_size dna baseline g GTK_ORIENTATION_VERTICAL 0
        else gtk_grid_get_size g GTK_ORIENTATION_VERTICAL)"

definition gtk_grid_get_preferred_width_for_height ::
  "natural_allocation \<Rightarrow> int \<Rightarrow> GtkSizeRequestMode \<Rightarrow> GtkGrid \<Rightarrow> int
   \<Rightarrow> GtkGrid \<times> int \<times> int" where
  "gtk_grid_get_preferred_width_for_height dna baseline mode g height =
     drop_baselines
       (if mode = GTK_SIZE_REQUEST_WIDTH_FOR_HEIGHT
          then gtk_grid_get_size_for_size dna baseline g GTK_ORIENTATION_HORIZONTAL height
        else gtk_grid_get_size g GTK_ORIENTATION_HORIZONTAL)"

definition gtk_grid_get_preferred_height_for_width ::
  "natural_allocation \<Rightarrow> int \<Rightarrow> GtkSizeRequestMode \<Rightarrow> GtkGrid \<Rightarrow> int
   \<Rightarrow> GtkGrid \<times> int \<times> int" where
  "gtk_grid_get_preferred_height_for_width dna baseline mode g width =
     drop_baselines
       (if mode = GTK_SIZE_REQUEST_HEIGHT_FOR_WIDTH
          then gtk_grid_get_size_for_size dna baseline g GTK_ORIENTATION_VERTICAL width
        else gtk_grid_get_size g GTK_ORIENTATION_VERTICAL)"

definition gtk_grid_get_preferred_height_and_baseline_for_width ::
  "natural_allocation \<Rightarrow> int \<Rightarrow> GtkSizeRequestMode \<Rightarrow> GtkGrid \<Rightarrow> int
   \<Rightarrow> GtkGrid \<times> int \<times> int \<times> int \<times> int" where
  "gtk_grid_get_preferred_height_and_baseline_for_width dna baseline mode g width =
     (if mode = GTK_SIZE_REQUEST_HEIGHT_FOR_WIDTH \<and> width \<noteq> -1
        then gtk_grid_get_size_for_size dna baseline g GTK_ORIENTATION_VERTICAL width
      else gtk_grid_get_size g GTK_ORIENTATION_VERTICAL)"

subsection \<open>The natural-size allocation\<close>

text \<open>
  What the allocator relies on from \<^verbatim>\<open>gtk_distribute_natural_allocation\<close>, in the words
  of the specification: every line keeps at least its minimum, the natural sizes are left
  alone, lines grow towards their natural size before any space is left over, and the
  space left over is what exceeds the total natural size.
\<close>

definition natural_allocation_contract :: "natural_allocation \<Rightarrow> bool" where
  "natural_allocation_contract dna =
     (\<forall>extra sizes. 0 \<le> extra \<longrightarrow>
        (case dna extra sizes of (rest, out) \<Rightarrow>
           length out = length sizes \<and> 0 \<le> rest
           \<and> (\<forall>j<length sizes. minimum_size (sizes ! j) \<le> minimum_size (out ! j))
           \<and> ((\<forall>j<length sizes. minimum_size (sizes ! j) \<le> natural_size (sizes ! j))
                \<and> (\<Sum>s\<leftarrow>sizes. natural_size s - minimum_size s) \<le> extra
                \<longrightarrow> map minimum_size out = map natural_size sizes
                    \<and> rest = extra - (\<Sum>s\<leftarrow>sizes. natural_size s - minimum_size s))))"

text \<open>
  Modelled from the spec: the slack of a line, what it lacks to its natural size, for the
  model of \<^verbatim>\<open>gtk_distribute_natural_allocation\<close> below.
\<close>

definition slack :: "GtkRequestedSize \<Rightarrow> int" where
  "slack s = max 0 (natural_size s - minimum_size s)"

text \<open>
  Modelled from the spec: \<^verbatim>\<open>gtk_distribute_natural_allocation\<close> (its source file is not
  among the sources of the grid). The specification says that each line is first
  guaranteed its minimum, that the lines then grow toward their natural size in
  proportion to slack, the lines below their natural size getting a share of the extra
  space up to their natural size before any line exceeds it, and that the space beyond
  the total natural size is what remains for the expanding lines. When the extra space
  covers the total slack, every line receives its slack and the rest is left over.
  Otherwise a line receives the part of the extra space that its slack is of the total
  slack; the specification does not say how a fraction is rounded, the model rounds it
  down and leaves over the units that the rounding does not hand out. It is one function
  that meets \<open>natural_allocation_contract\<close>; the theorems on the allocator are stated for
  every function that does.
\<close>

definition distribute_natural_allocation_model :: natural_allocation where
  "distribute_natural_allocation_model extra sizes =
     (let total = (\<Sum>s\<leftarrow>sizes. slack s);
          share = (\<lambda>s. if total \<le> extra then slack s else (extra * slack s) div total);
          out = map (\<lambda>s. s\<lparr>minimum_size := minimum_size s + share s\<rparr>) sizes
      in (extra - (\<Sum>s\<leftarrow>sizes. share s), out))"

subsection \<open>The distribution of a shortfall as the specification words it\<close>

text \<open>
  The specification of the spanning pass: the shortfall is split by integer division
  among the \<open>n\<close> expanding lines, and the remainder goes, one unit per line, to the first
  lines. \<open>spec_share shortfall n k\<close> is what the \<open>k\<close>-th expanding line (counted from 0)
  receives under that rule.
\<close>

definition spec_share :: "int \<Rightarrow> int \<Rightarrow> nat \<Rightarrow> int" where
  "spec_share shortfall n k = shortfall div n + (if int k < shortfall mod n then 1 else 0)"

subsection \<open>Grids and widgets for the examples\<close>

text \<open>The private data as \<^verbatim>\<open>gtk_grid_init\<close> leaves it.\<close>

definition gtk_grid_init :: GtkGrid where
  "gtk_grid_init =
     \<lparr> children = [], row_properties = [], priv_orientation = GTK_ORIENTATION_HORIZONTAL,
       baseline_row = 0, linedata = (\<lambda>orientation. \<lparr> spacing = 0, homogeneous = False \<rparr>) \<rparr>"

text \<open>
  A visible widget that asks for the same (minimum, natural) size in both orientations,
  whatever the size across, and has no baseline.
\<close>

definition plain_widget :: "int \<Rightarrow> int \<Rightarrow> bool \<Rightarrow> GtkWidget" where
  "plain_widget mn nt ex =
     \<lparr> widget_visible = True, widget_has_parent = False,
       widget_compute_expand = (\<lambda>orientation. ex),
       widget_preferred_width = (mn, nt),
       widget_preferred_width_for_height = (\<lambda>height. (mn, nt)),
       widget_preferred_height_and_baseline_for_width = (\<lambda>width. (mn, nt, -1, -1)) \<rparr>"

text \<open>A visible widget of the given size whose baseline lies \<open>b\<close> below its top.\<close>

definition baseline_widget :: "int \<Rightarrow> int \<Rightarrow> GtkWidget" where
  "baseline_widget mn b =
     \<lparr> widget_visible = True, widget_has_parent = False,
       widget_compute_expand = (\<lambda>orientation. False),
       widget_preferred_width = (mn, mn),
       widget_preferred_width_for_height = (\<lambda>height. (mn, mn)),
       widget_preferred_height_and_baseline_for_width = (\<lambda>width. (mn, mn, b, b)) \<rparr>"

definition set_spacing :: "GtkOrientation \<Rightarrow> int \<Rightarrow> GtkGrid \<Rightarrow> GtkGrid" where
  "set_spacing orientation sp g =
     g\<lparr>linedata := (linedata g)(orientation := linedata g orientation\<lparr>spacing := sp\<rparr>)\<rparr>"

definition set_homogeneous :: "GtkOrientation \<Rightarrow> bool \<Rightarrow> GtkGrid \<Rightarrow> GtkGrid" where
  "set_homogeneous orientation h g =
     g\<lparr>linedata := (linedata g)(orientation := linedata g orientation\<lparr>homogeneous := h\<rparr>)\<rparr>"

definition scenario_A_grid :: GtkGrid where
  "scenario_A_grid =
     grid_attach
       (grid_attach (set_spacing GTK_ORIENTATION_HORIZONTAL 5 gtk_grid_init)
          (plain_widget 10 10 False) 0 0 1 1)
       (plain_widget 20 20 False) 1 0 1 1"

text \<open>
  A grid with one child in row 0, whose row 0 has been given the baseline position TOP,
  and the same with the child and the setting in row 1.
\<close>

definition baseline_top_grid :: "int \<Rightarrow> GtkGrid" where
  "baseline_top_grid r =
     gtk_grid_set_row_baseline_position
       (grid_attach gtk_grid_init (baseline_widget 10 5) 0 r 1 1) r GTK_BASELINE_POSITION_TOP"

subsection \<open>Notions for the spanning pass\<close>

text \<open>
  The indices of the lines a child spans, the sum the spanning pass compares the request
  of the child with (\<open>field\<close> is \<open>minimum\<close> or \<open>natural\<close>), and the spanned lines that
  receive a share of a shortfall: those with \<open>expand\<close> set, or all of them if none has.
\<close>

definition spanned_lines :: "GtkGridLines \<Rightarrow> GtkGridChildAttach \<Rightarrow> nat list" where
  "spanned_lines L a = map (line_index L a) [0..<nat (span a)]"

definition span_size ::
  "(GtkGridLine \<Rightarrow> int) \<Rightarrow> GtkGridLineData \<Rightarrow> GtkGridChildAttach \<Rightarrow> GtkGridLine list
   \<Rightarrow> nat list \<Rightarrow> int" where
  "span_size field ld a ls idx = (span a - 1) * spacing ld + (\<Sum>i\<leftarrow>idx. field (ls ! i))"

definition receiving_lines :: "GtkGridLine list \<Rightarrow> nat list \<Rightarrow> nat list" where
  "receiving_lines ls idx =
     (if filter (\<lambda>i. expand (ls ! i)) idx = [] then idx else filter (\<lambda>i. expand (ls ! i)) idx)"

text \<open>
  What the loop of the source gives the \<open>k\<close>-th of \<open>n\<close> receiving lines (counted from 0):
  the quotient, and one unit more for the last \<open>shortfall mod n\<close> lines.
\<close>

definition code_share :: "int \<Rightarrow> int \<Rightarrow> nat \<Rightarrow> int" where
  "code_share shortfall n k = shortfall div n + (if n - shortfall mod n \<le> int k then 1 else 0)"

text \<open>
  A grid with one visible child three columns wide that asks for a minimum width of 7 and
  a natural width of 8, and its request at the start of the spanning pass.
\<close>

definition span3_grid :: GtkGrid where
  "span3_grid = grid_attach gtk_grid_init (plain_widget 7 8 False) 0 0 3 1"

definition span3_child :: GtkGridChild where
  "span3_child = hd (children span3_grid)"

definition span3_request :: GtkGridRequest where
  "span3_request =
     gtk_grid_request_non_spanning
       (gtk_grid_request_init
          (alloc_lines (gtk_grid_request_count_lines (new_request span3_grid))
             GTK_ORIENTATION_HORIZONTAL)
          GTK_ORIENTATION_HORIZONTAL)
       GTK_ORIENTATION_HORIZONTAL False"

text \<open>
  A grid with homogeneous columns: a child of width 50 over columns 0 and 1, a child of
  width 10 in column 2, and its request with the lines of the columns allocated.
\<close>

definition homogeneous_grid :: GtkGrid where
  "homogeneous_grid =
     grid_attach
       (grid_attach (set_homogeneous GTK_ORIENTATION_HORIZONTAL True gtk_grid_init)
          (plain_widget 10 10 False) 2 0 1 1)
       (plain_widget 50 50 False) 0 0 2 1"

definition homogeneous_request :: GtkGridRequest where
  "homogeneous_request =
     alloc_lines (gtk_grid_request_count_lines (new_request homogeneous_grid))
       GTK_ORIENTATION_HORIZONTAL"

subsection \<open>Notions for the allocation\<close>

text \<open>
  The indices of the lines from row or column \<open>mn\<close> up to \<open>mx\<close>, the ones among a list of
  indices whose line is not empty, and the ones whose line is not empty and expands.
\<close>

definition window_lines :: "GtkGridLines \<Rightarrow> int \<Rightarrow> int \<Rightarrow> nat list" where
  "window_lines L mn mx = [nat (mn - lines_min L)..<nat (mx - lines_min L)]"

definition filled_lines :: "GtkGridLine list \<Rightarrow> nat list \<Rightarrow> nat list" where
  "filled_lines ls idx = filter (\<lambda>i. \<not> empty (ls ! i)) idx"

definition expanding_lines :: "GtkGridLine list \<Rightarrow> nat list \<Rightarrow> nat list" where
  "expanding_lines ls idx = filter (\<lambda>i. expand (ls ! i)) (filled_lines ls idx)"

text \<open>One turn of the second loop of the distribution, with the three assignments merged.\<close>

definition assigned :: "GtkRequestedSize list \<Rightarrow> int \<Rightarrow> nat \<Rightarrow> int \<Rightarrow> GtkGridLine \<Rightarrow> GtkGridLine" where
  "assigned sizes extra j rest line =
     line\<lparr>allocation := minimum_size (sizes ! j)
        + (if expand line then extra + (if rest > 0 then 1 else 0) else 0)\<rparr>"

text \<open>
  Scenario D: two lines that are not empty, each with minimum 10 and natural 40, with the
  given expand flags.
\<close>

definition scenario_D_lines :: "bool \<Rightarrow> bool \<Rightarrow> GtkGridLines" where
  "scenario_D_lines e1 e2 =
     \<lparr> lines = [zero_line\<lparr>minimum := 10, natural := 40, expand := e1\<rparr>,
                zero_line\<lparr>minimum := 10, natural := 40, expand := e2\<rparr>],
       lines_min = 0, lines_max = 2 \<rparr>"

subsection \<open>Requests as the callers set them up\<close>

text \<open>
  The positions and spans of the children are \<^verbatim>\<open>gint\<close> values, and so are the ends of their
  spans.
\<close>

definition grid_in_gint_range :: "GtkGrid \<Rightarrow> bool" where
  "grid_in_gint_range g =
     list_all (\<lambda>child.
        G_MININT \<le> pos (attach child GTK_ORIENTATION_HORIZONTAL)
        \<and> pos (attach child GTK_ORIENTATION_HORIZONTAL)
            + span (attach child GTK_ORIENTATION_HORIZONTAL) \<le> G_MAXINT
        \<and> G_MININT \<le> pos (attach child GTK_ORIENTATION_VERTICAL)
        \<and> pos (attach child GTK_ORIENTATION_VERTICAL)
            + span (attach child GTK_ORIENTATION_VERTICAL) \<le> G_MAXINT) (children g)"

text \<open>
  A request as \<^verbatim>\<open>gtk_grid_get_size\<close>, \<^verbatim>\<open>gtk_grid_get_size_for_size\<close> and
  \<^verbatim>\<open>gtk_grid_size_allocate\<close> prepare it for an orientation: the line range counted from
  the children of the grid, and an array of that many lines.
\<close>

definition request_ok :: "GtkGridRequest \<Rightarrow> GtkOrientation \<Rightarrow> bool" where
  "request_ok request orientation =
     (let L = request_lines request orientation; g = grid request in
      lines_min L = count_lines_min g orientation
      \<and> lines_max L = count_lines_max g orientation
      \<and> length (lines L) = nat (lines_max L - lines_min L)
      \<and> grid_spans_ok g \<and> grid_in_gint_range g)"

text \<open>
  A grid with homogeneous rows whose baseline row is row 0: a child of height 10 with
  its baseline at 5 in row 0, and beside it a child of height 20 over rows 0 and 1. Its
  request has the lines of both orientations allocated.
\<close>

definition baseline_span_grid :: GtkGrid where
  "baseline_span_grid =
     grid_attach
       (grid_attach (set_homogeneous GTK_ORIENTATION_VERTICAL True gtk_grid_init)
          (baseline_widget 10 5) 0 0 1 1)
       (plain_widget 20 20 False) 1 0 1 2"

definition baseline_span_child :: GtkGridChild where
  "baseline_span_child = hd (children baseline_span_grid)"

definition full_request :: "GtkGrid \<Rightarrow> GtkGridRequest" where
  "full_request g =
     alloc_lines
       (alloc_lines (gtk_grid_request_count_lines (new_request g)) GTK_ORIENTATION_HORIZONTAL)
       GTK_ORIENTATION_VERTICAL"

text \<open>
  A grid whose baseline row is row 2: a child of height 10 with its baseline at 5 in
  row 2, and beside it a child of height 100 over rows 0 to 3.
\<close>

definition baseline_row2_grid :: GtkGrid where
  "baseline_row2_grid =
     grid_attach
       (grid_attach (gtk_grid_init\<lparr>baseline_row := 2\<rparr>) (baseline_widget 10 5) 0 2 1 1)
       (plain_widget 100 100 False) 1 0 1 4"

text \<open>
  A grid whose second column ends up with a minimum above its natural size: a child of
  minimum width 5 and natural width 10 in column 0, an expanding child of width 0 in
  column 1, and under them a child of width 10 over both columns, whose shortfall of 5
  the spanning pass adds to the minimum of the expanding column.
\<close>

definition raised_minimum_grid :: GtkGrid where
  "raised_minimum_grid =
     grid_attach
       (grid_attach
          (grid_attach gtk_grid_init (plain_widget 5 10 False) 0 0 1 1)
          (plain_widget 0 0 True) 1 0 1 1)
       (plain_widget 10 10 False) 0 1 2 1"

subsection \<open>Notions for the empty lines\<close>

text \<open>
  One turn of a spanning loop of \<^verbatim>\<open>gtk_grid_request_compute_expand\<close>: the line \<open>i\<close> of
  the child is updated with \<open>f\<close> unless the test of the loop skips it.
\<close>

definition mark_lines ::
  "GtkGridLines \<Rightarrow> GtkGridChildAttach \<Rightarrow> int \<Rightarrow> int \<Rightarrow> (GtkGridLine \<Rightarrow> GtkGridLine) \<Rightarrow> nat
   \<Rightarrow> GtkGridLine list \<Rightarrow> GtkGridLine list" where
  "mark_lines L a mn mx f i ls =
     (if pos a + int i \<ge> mx \<or> pos a + 1 < mn then ls else line_update (line_index L a i) f ls)"

text \<open>One turn of the first spanning loop, with the flag \<^verbatim>\<open>has_expand\<close>.\<close>

definition mark_step ::
  "GtkGridLines \<Rightarrow> GtkGridChildAttach \<Rightarrow> int \<Rightarrow> int \<Rightarrow> nat \<Rightarrow> GtkGridLine list \<times> bool
   \<Rightarrow> GtkGridLine list \<times> bool" where
  "mark_step L a mn mx =
     (\<lambda>i (ls, has_expand).
        (let has_expand = (if expand (ls ! line_index L a i) then True else has_expand)
         in if pos a + int i \<ge> mx \<or> pos a + 1 < mn then (ls, has_expand)
            else (line_update (line_index L a i) (\<lambda>line. line\<lparr>empty := False\<rparr>) ls,
                  has_expand)))"

text \<open>One turn of the last loop, as far as the lines go: \<^verbatim>\<open>need_expand\<close> sets \<^verbatim>\<open>expand\<close>.\<close>

definition promote_line :: "nat \<Rightarrow> GtkGridLine list \<Rightarrow> GtkGridLine list" where
  "promote_line i ls =
     (if need_expand (ls ! i) then line_update i (\<lambda>line. line\<lparr>expand := True\<rparr>) ls else ls)"

text \<open>
  The lines that \<^verbatim>\<open>gtk_grid_request_compute_expand\<close> leaves when it is called over all
  the lines of the request.
\<close>

definition marked_lines :: "GtkGridRequest \<Rightarrow> GtkOrientation \<Rightarrow> GtkGridLine list" where
  "marked_lines request orientation =
     (let L = request_lines request orientation;
          window = [0..<nat (lines_max L - lines_min L)];
          ls = fold (\<lambda>i. line_update i expand_reset_line) window (lines L);
          ls = fold (expand_non_spanning_child L orientation (lines_min L) (lines_max L))
                 (children (grid request)) ls;
          ls = fold (expand_spanning_child L orientation (lines_min L) (lines_max L))
                 (children (grid request)) ls
      in fold promote_line window ls)"

text \<open>
  The same for a call over the lines from \<open>mn\<close> up to \<open>mx\<close>, both within the lines of
  the request.
\<close>

definition marked_window ::
  "GtkGridRequest \<Rightarrow> GtkOrientation \<Rightarrow> int \<Rightarrow> int \<Rightarrow> GtkGridLine list" where
  "marked_window request orientation mn mx =
     (let L = request_lines request orientation;
          window = [nat (mn - lines_min L)..<nat (mx - lines_min L)];
          ls = fold (\<lambda>i. line_update i expand_reset_line) window (lines L);
          ls = fold (expand_non_spanning_child L orientation mn mx) (children (grid request)) ls;
          ls = fold (expand_spanning_child L orientation mn mx) (children (grid request)) ls
      in fold promote_line window ls)"

text \<open>
  When a child makes a line not empty in such a call: a visible child on one line whose
  line lies in the window, by the test \<^verbatim>\<open>attach->pos >= max || attach->pos < min\<close> of
  the first loop; a visible child over several lines for each of its lines \<open>i\<close> that
  passes the test \<^verbatim>\<open>attach->pos + i >= max || attach->pos + 1 < min\<close> of the second loop.
  \<open>line_covered\<close> says that some child of the grid does so for the line with index \<open>j\<close>.
\<close>

definition non_spanning_hits ::
  "GtkGridLines \<Rightarrow> GtkOrientation \<Rightarrow> int \<Rightarrow> int \<Rightarrow> GtkGridChild \<Rightarrow> nat \<Rightarrow> bool" where
  "non_spanning_hits L orientation mn mx child j =
     (let a = attach child orientation in
      widget_visible (widget child) \<and> span a = 1 \<and> \<not> (pos a \<ge> mx \<or> pos a < mn)
      \<and> line_index L a 0 = j)"

definition spanning_hits ::
  "GtkGridLines \<Rightarrow> GtkOrientation \<Rightarrow> int \<Rightarrow> int \<Rightarrow> GtkGridChild \<Rightarrow> nat \<Rightarrow> bool" where
  "spanning_hits L orientation mn mx child j =
     (let a = attach child orientation in
      widget_visible (widget child) \<and> span a \<noteq> 1
      \<and> list_ex (\<lambda>i. \<not> (pos a + int i \<ge> mx \<or> pos a + 1 < mn) \<and> line_index L a i = j)
            [0..<nat (span a)])"

definition line_covered :: "GtkGridRequest \<Rightarrow> GtkOrientation \<Rightarrow> int \<Rightarrow> int \<Rightarrow> nat \<Rightarrow> bool" where
  "line_covered request orientation mn mx j =
     list_ex (\<lambda>child. non_spanning_hits (request_lines request orientation) orientation mn mx child j
                   \<or> spanning_hits (request_lines request orientation) orientation mn mx child j)
       (children (grid request))"

section \<open>Theorems\<close>

subsection \<open>Rows inserted and removed\<close>

lemma gint_wrap_id: "G_MININT \<le> x \<Longrightarrow> x \<le> G_MAXINT \<Longrightarrow> gint_wrap x = x"
  by (simp add: gint_wrap_def G_MININT_def G_MAXINT_def)

lemma remove_insert_row_child:
  assumes h: "CHILD_HEIGHT child \<ge> 1"
    and lo: "G_MININT \<le> CHILD_TOP child" and hh: "CHILD_HEIGHT child < G_MAXINT"
    and hi: "CHILD_TOP child + CHILD_HEIGHT child < G_MAXINT"
  shows "remove_row_children p (insert_row_child p child # list)
         = child # remove_row_children p list"
proof -
  have eq: "(attach child)(GTK_ORIENTATION_VERTICAL :=
              \<lparr> pos = CHILD_TOP child, span = CHILD_HEIGHT child \<rparr>) = attach child"
    by (rule ext) simp
  have w1: "gint_wrap (CHILD_TOP child + 1) = CHILD_TOP child + 1"
    using h lo hi by (intro gint_wrap_id) simp_all
  have w2: "gint_wrap (CHILD_TOP child + CHILD_HEIGHT child) = CHILD_TOP child + CHILD_HEIGHT child"
    using h lo hi by (intro gint_wrap_id) simp_all
  have w3: "gint_wrap (CHILD_HEIGHT child + 1) = CHILD_HEIGHT child + 1"
    using h hh by (intro gint_wrap_id) (simp_all add: G_MININT_def)
  have w4: "gint_wrap (CHILD_TOP child + (CHILD_HEIGHT child + 1)) = CHILD_TOP child + (CHILD_HEIGHT child + 1)"
    using h lo hi by (intro gint_wrap_id) simp_all
  have w5: "gint_wrap (CHILD_TOP child) = CHILD_TOP child"
    using h lo hi by (intro gint_wrap_id) simp_all
  have w6: "gint_wrap (CHILD_HEIGHT child) = CHILD_HEIGHT child"
    using h hh by (intro gint_wrap_id) (simp_all add: G_MININT_def)
  consider (below) "CHILD_TOP child \<ge> p"
    | (across) "CHILD_TOP child < p" "CHILD_TOP child + CHILD_HEIGHT child > p"
    | (above) "CHILD_TOP child < p" "CHILD_TOP child + CHILD_HEIGHT child \<le> p"
    by linarith
  then show ?thesis
  proof cases
    case below
    with h show ?thesis
      by (simp add: insert_row_child_def Let_def eq w1 w5)
  next
    case across
    with h show ?thesis
      by (simp add: insert_row_child_def Let_def eq w2 w3 w4 w6)
  next
    case above
    with h show ?thesis
      by (simp add: insert_row_child_def Let_def eq w2)
  qed
qed

lemma remove_insert_row_children:
  "list_all (\<lambda>child. CHILD_HEIGHT child \<ge> 1 \<and> G_MININT \<le> CHILD_TOP child
              \<and> CHILD_HEIGHT child < G_MAXINT
              \<and> CHILD_TOP child + CHILD_HEIGHT child < G_MAXINT) cs \<Longrightarrow>
   remove_row_children p (map (insert_row_child p) cs) = cs"
proof (induction cs)
  case Nil
  show ?case by simp
next
  case (Cons child cs)
  then have "CHILD_HEIGHT child \<ge> 1" "G_MININT \<le> CHILD_TOP child" "CHILD_HEIGHT child < G_MAXINT"
    "CHILD_TOP child + CHILD_HEIGHT child < G_MAXINT"
    and "remove_row_children p (map (insert_row_child p) cs) = cs"
    by simp_all
  then show ?case
    using remove_insert_row_child [of child p "map (insert_row_child p) cs"]
    by simp
qed

text \<open>
  At the upper end of \<^verbatim>\<open>gint\<close> the increment wraps around: a child attached at row
  \<^verbatim>\<open>G_MAXINT\<close> is moved to row \<^verbatim>\<open>G_MININT\<close> when a row is inserted at 0, and removing
  row 0 leaves it there.
\<close>

lemma insert_row_wraps_example:
  "map CHILD_TOP (children (gtk_grid_insert_row
       (grid_attach gtk_grid_init (plain_widget 1 1 False) 0 G_MAXINT 1 1) 0)) = [G_MININT]
   \<and> map CHILD_TOP (children (gtk_grid_remove_row (gtk_grid_insert_row
       (grid_attach gtk_grid_init (plain_widget 1 1 False) 0 G_MAXINT 1 1) 0) 0)) = [G_MININT]"
  by (simp add: gtk_grid_insert_row_def gtk_grid_remove_row_def grid_attach_def gtk_grid_init_def
      insert_row_child_def Let_def gint_wrap_def G_MAXINT_def G_MININT_def)

text \<open>
  Claim C3. In a grid whose children all have a height of at least 1 (the invariant of the
  data model) and leave room for one more row within the range of \<^verbatim>\<open>gint\<close>, inserting a
  row at \<open>r\<close> and then removing row \<open>r\<close> gives back the list of children as it was: the same
  children in the same order, each with its original top attachment and height (and its
  untouched left attachment and width).
\<close>

theorem insert_remove_row_roundtrip:
  assumes "grid_spans_ok g" and "grid_rows_in_gint_range g"
  shows "children (gtk_grid_remove_row (gtk_grid_insert_row g r) r) = children g
       \<and> map CHILD_TOP (children (gtk_grid_remove_row (gtk_grid_insert_row g r) r))
           = map CHILD_TOP (children g)
       \<and> map CHILD_HEIGHT (children (gtk_grid_remove_row (gtk_grid_insert_row g r) r))
           = map CHILD_HEIGHT (children g)"
proof -
  from assms have "list_all (\<lambda>child. CHILD_HEIGHT child \<ge> 1 \<and> G_MININT \<le> CHILD_TOP child
              \<and> CHILD_HEIGHT child < G_MAXINT
              \<and> CHILD_TOP child + CHILD_HEIGHT child < G_MAXINT) (children g)"
    by (simp add: grid_spans_ok_def grid_rows_in_gint_range_def list_all_iff)
  then have "children (gtk_grid_remove_row (gtk_grid_insert_row g r) r) = children g"
    by (simp add: gtk_grid_remove_row_def gtk_grid_insert_row_def remove_insert_row_children)
  then show ?thesis
    by simp
qed

text \<open>Witness of C3: the grid of scenario A, a row inserted at 0 and removed again.\<close>

theorem insert_remove_row_roundtrip_witness:
  "grid_spans_ok scenario_A_grid
   \<and> grid_rows_in_gint_range scenario_A_grid
   \<and> children (gtk_grid_remove_row (gtk_grid_insert_row scenario_A_grid 0) 0)
       = children scenario_A_grid"
proof -
  have ok: "grid_spans_ok scenario_A_grid"
    by (simp add: grid_spans_ok_def scenario_A_grid_def grid_attach_def set_spacing_def
        gtk_grid_init_def)
  have rng: "grid_rows_in_gint_range scenario_A_grid"
    by (simp add: grid_rows_in_gint_range_def scenario_A_grid_def grid_attach_def set_spacing_def
        gtk_grid_init_def G_MININT_def G_MAXINT_def)
  from insert_remove_row_roundtrip [OF ok rng, of 0] ok rng show ?thesis
    by simp
qed

subsection \<open>Row properties under insertion and removal\<close>

text \<open>
  Claim C10. Let the rows of the stored row properties lie below \<^verbatim>\<open>G_MAXINT\<close>, so that
  one can be added to them. Then \<^verbatim>\<open>gtk_grid_insert_row\<close> at \<open>p\<close> adds one to the row of
  every stored row property whose row is at least \<open>p\<close>; \<^verbatim>\<open>gtk_grid_remove_row\<close> leaves the
  list of row properties as it is. So the stored baseline positions can end up on other rows than
  the ones they were set for: in the grid with one child in row 0 and the position TOP set
  for row 0, inserting and removing row 0 gives the child back its row, but row 0 now
  answers the default CENTER and TOP sits on row 1; in the grid with the child and the
  setting in row 1, removing row 0 moves the child up to row 0 and leaves TOP on row 1.
\<close>

theorem row_properties_insert_remove:
  assumes "row_properties_in_gint_range g"
  shows "row_properties (gtk_grid_insert_row g p)
     = map (\<lambda>prop. if row prop \<ge> p then prop\<lparr>row := row prop + 1\<rparr> else prop) (row_properties g)
   \<and> row_properties (gtk_grid_remove_row g p) = row_properties g
   \<and> row_properties (gtk_grid_remove_row (gtk_grid_insert_row g p) p)
       = map (\<lambda>prop. if row prop \<ge> p then prop\<lparr>row := row prop + 1\<rparr> else prop) (row_properties g)
   \<and> children (gtk_grid_remove_row (gtk_grid_insert_row (baseline_top_grid 0) 0) 0)
       = children (baseline_top_grid 0)
   \<and> gtk_grid_get_row_baseline_position (baseline_top_grid 0) 0 = GTK_BASELINE_POSITION_TOP
   \<and> gtk_grid_get_row_baseline_position
         (gtk_grid_remove_row (gtk_grid_insert_row (baseline_top_grid 0) 0) 0) 0
       = GTK_BASELINE_POSITION_CENTER
   \<and> gtk_grid_get_row_baseline_position
         (gtk_grid_remove_row (gtk_grid_insert_row (baseline_top_grid 0) 0) 0) 1
       = GTK_BASELINE_POSITION_TOP
   \<and> map CHILD_TOP (children (baseline_top_grid 1)) = [1]
   \<and> map CHILD_TOP (children (gtk_grid_remove_row (baseline_top_grid 1) 0)) = [0]
   \<and> gtk_grid_get_row_baseline_position (gtk_grid_remove_row (baseline_top_grid 1) 0) 0
       = GTK_BASELINE_POSITION_CENTER
   \<and> gtk_grid_get_row_baseline_position (gtk_grid_remove_row (baseline_top_grid 1) 0) 1
       = GTK_BASELINE_POSITION_TOP"
proof -
  have ins: "row_properties (gtk_grid_insert_row g p)
     = map (\<lambda>prop. if row prop \<ge> p then prop\<lparr>row := row prop + 1\<rparr> else prop) (row_properties g)"
    if "row_properties_in_gint_range g" for g p
  proof -
    have "insert_row_prop p rp = (if row rp \<ge> p then rp\<lparr>row := row rp + 1\<rparr> else rp)"
      if "rp \<in> set (row_properties g)" for rp
    proof -
      from that \<open>row_properties_in_gint_range g\<close>
      have "G_MININT \<le> row rp" "row rp < G_MAXINT"
        by (simp_all add: row_properties_in_gint_range_def list_all_iff)
      then have "gint_wrap (row rp + 1) = row rp + 1"
        by (intro gint_wrap_id) simp_all
      then show ?thesis by (simp add: insert_row_prop_def)
    qed
    then show ?thesis
      by (simp add: gtk_grid_insert_row_def)
  qed
  have rng0: "row_properties_in_gint_range (baseline_top_grid 0)"
    by (simp add: row_properties_in_gint_range_def baseline_top_grid_def grid_attach_def
        gtk_grid_init_def gtk_grid_set_row_baseline_position_def get_row_properties_or_create_def
        Let_def gtk_grid_row_properties_default_def G_MININT_def G_MAXINT_def)
  have rem: "row_properties (gtk_grid_remove_row g p) = row_properties g" for g p
    by (simp add: gtk_grid_remove_row_def)
  have props0: "row_properties (baseline_top_grid r)
       = [\<lparr> row = r, baseline_position = GTK_BASELINE_POSITION_TOP \<rparr>]" for r
    by (simp add: baseline_top_grid_def grid_attach_def gtk_grid_init_def
        gtk_grid_set_row_baseline_position_def get_row_properties_or_create_def Let_def
        gtk_grid_row_properties_default_def)
  have kids: "children (baseline_top_grid r)
       = [\<lparr> widget = (baseline_widget 10 5)\<lparr>widget_has_parent := True\<rparr>,
            attach = (\<lambda>orientation. case orientation of
                GTK_ORIENTATION_HORIZONTAL \<Rightarrow> \<lparr> pos = 0, span = 1 \<rparr>
              | GTK_ORIENTATION_VERTICAL \<Rightarrow> \<lparr> pos = r, span = 1 \<rparr>) \<rparr>]" for r
    by (simp add: baseline_top_grid_def grid_attach_def gtk_grid_init_def
        gtk_grid_set_row_baseline_position_def get_row_properties_or_create_def Let_def)
  have ok: "list_all (\<lambda>child. CHILD_HEIGHT child \<ge> 1 \<and> G_MININT \<le> CHILD_TOP child
              \<and> CHILD_HEIGHT child < G_MAXINT
              \<and> CHILD_TOP child + CHILD_HEIGHT child < G_MAXINT) (children (baseline_top_grid 0))"
    by (simp add: kids G_MININT_def G_MAXINT_def)
  have trip: "children (gtk_grid_remove_row (gtk_grid_insert_row (baseline_top_grid 0) 0) 0)
       = children (baseline_top_grid 0)"
    using remove_insert_row_children [OF ok, of 0]
    by (simp add: gtk_grid_remove_row_def gtk_grid_insert_row_def)
  have look: "gtk_grid_get_row_baseline_position g r
       = baseline_position (case find_row_properties (row_properties g) r of
            Some props \<Rightarrow> props | None \<Rightarrow> gtk_grid_row_properties_default)" for g r
    by (simp add: gtk_grid_get_row_baseline_position_def get_row_properties_or_default_def)
  have b0: "gtk_grid_get_row_baseline_position (baseline_top_grid 0) 0 = GTK_BASELINE_POSITION_TOP"
    by (simp add: look props0)
  have b1: "gtk_grid_get_row_baseline_position
         (gtk_grid_remove_row (gtk_grid_insert_row (baseline_top_grid 0) 0) 0) 0
       = GTK_BASELINE_POSITION_CENTER"
    by (simp add: look rem ins [OF rng0] props0 gtk_grid_row_properties_default_def)
  have b2: "gtk_grid_get_row_baseline_position
         (gtk_grid_remove_row (gtk_grid_insert_row (baseline_top_grid 0) 0) 0) 1
       = GTK_BASELINE_POSITION_TOP"
    by (simp add: look rem ins [OF rng0] props0)
  have t1: "map CHILD_TOP (children (baseline_top_grid 1)) = [1]"
    by (simp add: kids)
  have t2: "map CHILD_TOP (children (gtk_grid_remove_row (baseline_top_grid 1) 0)) = [0]"
    by (simp add: gtk_grid_remove_row_def kids gint_wrap_def)
  have b3: "gtk_grid_get_row_baseline_position (gtk_grid_remove_row (baseline_top_grid 1) 0) 0
       = GTK_BASELINE_POSITION_CENTER"
    by (simp add: look rem props0 gtk_grid_row_properties_default_def)
  have b4: "gtk_grid_get_row_baseline_position (gtk_grid_remove_row (baseline_top_grid 1) 0) 1
       = GTK_BASELINE_POSITION_TOP"
    by (simp add: look rem props0)
  from ins [OF assms, of p] rem [of g p] rem [of "gtk_grid_insert_row g p" p] trip b0 b1 b2 t1 t2 b3 b4
  show ?thesis
    by simp
qed

text \<open>
  Witness of C10: the grid with one child in row 0 and the position TOP set for row 0, a
  row inserted at 0.
\<close>

theorem row_properties_insert_remove_witness:
  "row_properties_in_gint_range (baseline_top_grid 0)
   \<and> row_properties (baseline_top_grid 0)
       = [\<lparr> row = 0, baseline_position = GTK_BASELINE_POSITION_TOP \<rparr>]
   \<and> row_properties (gtk_grid_insert_row (baseline_top_grid 0) 0)
       = [\<lparr> row = 1, baseline_position = GTK_BASELINE_POSITION_TOP \<rparr>]
   \<and> row_properties (gtk_grid_remove_row (gtk_grid_insert_row (baseline_top_grid 0) 0) 0)
       = [\<lparr> row = 1, baseline_position = GTK_BASELINE_POSITION_TOP \<rparr>]"
proof -
  have rng: "row_properties_in_gint_range (baseline_top_grid 0)"
    by (simp add: row_properties_in_gint_range_def baseline_top_grid_def grid_attach_def
        gtk_grid_init_def gtk_grid_set_row_baseline_position_def get_row_properties_or_create_def
        Let_def gtk_grid_row_properties_default_def G_MININT_def G_MAXINT_def)
  have props: "row_properties (baseline_top_grid 0)
       = [\<lparr> row = 0, baseline_position = GTK_BASELINE_POSITION_TOP \<rparr>]"
    by (simp add: baseline_top_grid_def grid_attach_def gtk_grid_init_def
        gtk_grid_set_row_baseline_position_def get_row_properties_or_create_def Let_def
        gtk_grid_row_properties_default_def)
  from row_properties_insert_remove [OF rng, of 0] rng props show ?thesis
    by simp
qed


subsection \<open>Attaching with a span that is not positive\<close>

text \<open>
  Claim C9. A call of \<^verbatim>\<open>gtk_grid_attach\<close> with a width or a height of 0 or less returns
  with a diagnostic and leaves the grid, its list of children and their attachments
  included, as it was.
\<close>

theorem attach_nonpositive_span_noop:
  assumes "width \<le> 0 \<or> height \<le> 0"
  shows "fst (gtk_grid_attach g child left top_attach width height) = g
       \<and> snd (gtk_grid_attach g child left top_attach width height) \<noteq> None"
  using assms by (auto simp add: gtk_grid_attach_def)


text \<open>Witness of C9: a widget attached with width 0 to the grid of scenario A.\<close>

theorem attach_nonpositive_span_noop_witness:
  "((0::int) \<le> 0 \<or> (1::int) \<le> 0)
   \<and> fst (gtk_grid_attach scenario_A_grid (plain_widget 1 1 False) 2 0 0 1) = scenario_A_grid
   \<and> snd (gtk_grid_attach scenario_A_grid (plain_widget 1 1 False) 2 0 0 1) \<noteq> None"
  using attach_nonpositive_span_noop [of 0 1 scenario_A_grid "plain_widget 1 1 False" 2 0]
  by simp

subsection \<open>The size queries leave the grid alone\<close>

lemma grid_set_lines [simp]: "grid (set_lines request orientation ls) = grid request"
  by (simp add: set_lines_def)

lemma grid_count_lines [simp]: "grid (gtk_grid_request_count_lines request) = grid request"
  by (simp add: gtk_grid_request_count_lines_def)

lemma grid_alloc_lines [simp]: "grid (alloc_lines request orientation) = grid request"
  by (simp add: alloc_lines_def Let_def)

lemma grid_request_init [simp]: "grid (gtk_grid_request_init request orientation) = grid request"
  by (simp add: gtk_grid_request_init_def Let_def)

lemma grid_request_non_spanning [simp]:
  "grid (gtk_grid_request_non_spanning request orientation contextual) = grid request"
  by (simp add: gtk_grid_request_non_spanning_def Let_def)

lemma grid_request_homogeneous [simp]:
  "grid (gtk_grid_request_homogeneous request orientation) = grid request"
  by (simp add: gtk_grid_request_homogeneous_def Let_def)

lemma grid_request_spanning [simp]:
  "grid (gtk_grid_request_spanning request orientation contextual) = grid request"
  by (simp add: gtk_grid_request_spanning_def)

lemma grid_request_run [simp]:
  "grid (gtk_grid_request_run request orientation contextual) = grid request"
  by (simp add: gtk_grid_request_run_def Let_def)

lemma grid_compute_expand [simp]:
  "grid (fst (gtk_grid_request_compute_expand request orientation a b)) = grid request"
  by (simp add: gtk_grid_request_compute_expand_def Let_def split: prod.splits)

lemma grid_request_sum [simp]:
  "grid (fst (gtk_grid_request_sum request orientation)) = grid request"
proof -
  obtain r n e where ce: "gtk_grid_request_compute_expand request orientation G_MININT G_MAXINT = (r, n, e)"
    by (cases "gtk_grid_request_compute_expand request orientation G_MININT G_MAXINT") auto
  have "grid r = grid request"
    using grid_compute_expand [of request orientation G_MININT G_MAXINT] ce by simp
  then show ?thesis
    by (simp add: gtk_grid_request_sum_def ce Let_def split: prod.splits)
qed

lemma grid_allocate_sizes [simp]:
  "grid (fst (allocate_sizes request orientation total_size baseline)) = grid request"
proof -
  have ce: "\<And>rq a b r n e. gtk_grid_request_compute_expand rq orientation a b = (r, n, e) \<Longrightarrow> grid r = grid rq"
    using grid_compute_expand by (metis fst_conv)
  show ?thesis
    by (auto simp add: allocate_sizes_def Let_def split: prod.splits dest!: ce)
qed

lemma grid_request_allocate [simp]:
  "grid (gtk_grid_request_allocate dna request orientation total_size baseline) = grid request"
proof -
  obtain r n1 e1 n2 e2 sp s1 s2 where as: "allocate_sizes request orientation total_size baseline = (r, n1, e1, n2, e2, sp, s1, s2)"
    by (cases "allocate_sizes request orientation total_size baseline") auto
  have "grid r = grid request"
    using grid_allocate_sizes [of request orientation total_size baseline] as by simp
  then show ?thesis
    by (simp add: gtk_grid_request_allocate_def as Let_def)
qed

lemma grid_new_request [simp]: "grid (new_request g) = g"
  by (simp add: new_request_def)

lemma get_size_grid: "fst (gtk_grid_get_size g orientation) = g"
proof (cases "children g = []")
  case True
  then show ?thesis by (simp add: gtk_grid_get_size_def)
next
  case False
  let ?rq = "gtk_grid_request_run (alloc_lines (gtk_grid_request_count_lines (new_request g)) orientation) orientation False"
  obtain r1 res where s1: "gtk_grid_request_sum ?rq orientation = (r1, res)"
    by (cases "gtk_grid_request_sum ?rq orientation") auto
  have "grid r1 = g"
    using grid_request_sum [of ?rq orientation] s1 by simp
  with False s1 show ?thesis
    by (simp add: gtk_grid_get_size_def Let_def)
qed

lemma get_size_for_size_grid: "fst (gtk_grid_get_size_for_size dna baseline g orientation size0) = g"
proof (cases "children g = []")
  case True
  then show ?thesis by (simp add: gtk_grid_get_size_for_size_def)
next
  case False
  let ?rq = "gtk_grid_request_run (alloc_lines (alloc_lines (gtk_grid_request_count_lines (new_request g)) GTK_ORIENTATION_HORIZONTAL) GTK_ORIENTATION_VERTICAL) (opposite orientation) False"
  obtain r1 m1 n1 a1 b1 where s1: "gtk_grid_request_sum ?rq (opposite orientation) = (r1, m1, n1, a1, b1)"
    by (cases "gtk_grid_request_sum ?rq (opposite orientation)") auto
  have g1: "grid r1 = g"
    using grid_request_sum [of ?rq "opposite orientation"] s1 by simp
  let ?rq2 = "gtk_grid_request_run (gtk_grid_request_allocate dna r1 (opposite orientation) (max size0 m1) baseline) orientation True"
  obtain r2 res where s2: "gtk_grid_request_sum ?rq2 orientation = (r2, res)"
    by (cases "gtk_grid_request_sum ?rq2 orientation") auto
  have "grid r2 = g"
    using grid_request_sum [of ?rq2 orientation] s2 g1 by simp
  with False s1 s2 show ?thesis
    by (simp add: gtk_grid_get_size_for_size_def Let_def)
qed


text \<open>
  Claim C7. A size query gives back the grid as it found it, and a second query right
  after the first gives the same (minimum, natural) and baselines; this holds for
  \<^verbatim>\<open>gtk_grid_get_size\<close> and for \<^verbatim>\<open>gtk_grid_get_size_for_size\<close>. The lines of a query are
  allocated and zeroed in the call, so nothing of one query reaches the next.
\<close>

theorem get_size_idempotent:
  "(case gtk_grid_get_size g orientation of
      (g1, r1) \<Rightarrow> g1 = g \<and> (case gtk_grid_get_size g1 orientation of (g2, r2) \<Rightarrow> r2 = r1 \<and> g2 = g))
   \<and> (case gtk_grid_get_size_for_size dna baseline g orientation size0 of
      (g1, r1) \<Rightarrow> g1 = g \<and> (case gtk_grid_get_size_for_size dna baseline g1 orientation size0 of
         (g2, r2) \<Rightarrow> r2 = r1 \<and> g2 = g))"
  using get_size_grid [of g orientation] get_size_for_size_grid [of dna baseline g orientation size0]
  by (auto split: prod.splits)


subsection \<open>The empty grid\<close>

text \<open>
  Claim C8. A grid without children answers every size query with minimum 0, natural 0
  and the baselines -1 (none), in both orientations, by the early return of
  \<^verbatim>\<open>gtk_grid_get_size\<close> and \<^verbatim>\<open>gtk_grid_get_size_for_size\<close>.
\<close>

theorem empty_grid_zero_size:
  assumes "children g = []"
  shows "gtk_grid_get_size g orientation = (g, 0, 0, -1, -1)
       \<and> gtk_grid_get_size_for_size dna baseline g orientation size0 = (g, 0, 0, -1, -1)
       \<and> gtk_grid_get_preferred_width dna baseline mode g = (g, 0, 0)
       \<and> gtk_grid_get_preferred_height dna baseline mode g = (g, 0, 0)
       \<and> gtk_grid_get_preferred_width_for_height dna baseline mode g size0 = (g, 0, 0)
       \<and> gtk_grid_get_preferred_height_for_width dna baseline mode g size0 = (g, 0, 0)
       \<and> gtk_grid_get_preferred_height_and_baseline_for_width dna baseline mode g size0
           = (g, 0, 0, -1, -1)"
  using assms
  by (simp add: gtk_grid_get_size_def gtk_grid_get_size_for_size_def
      gtk_grid_get_preferred_width_def gtk_grid_get_preferred_height_def
      gtk_grid_get_preferred_width_for_height_def gtk_grid_get_preferred_height_for_width_def
      gtk_grid_get_preferred_height_and_baseline_for_width_def drop_baselines_def)


text \<open>Witness of C8: the grid as \<^verbatim>\<open>gtk_grid_init\<close> leaves it.\<close>

theorem empty_grid_zero_size_witness:
  "children gtk_grid_init = []
   \<and> gtk_grid_get_size gtk_grid_init GTK_ORIENTATION_VERTICAL = (gtk_grid_init, 0, 0, -1, -1)
   \<and> gtk_grid_get_size_for_size distribute_natural_allocation_model (-1) gtk_grid_init
         GTK_ORIENTATION_HORIZONTAL 100 = (gtk_grid_init, 0, 0, -1, -1)"
proof -
  have e: "children gtk_grid_init = []"
    by (simp add: gtk_grid_init_def)
  from empty_grid_zero_size [OF e, of GTK_ORIENTATION_VERTICAL]
    empty_grid_zero_size [OF e, of GTK_ORIENTATION_HORIZONTAL distribute_natural_allocation_model "-1" 100]
    e show ?thesis
    by simp
qed

subsection \<open>Scenario A\<close>

lemma upt_0_2: "[0..<2] = [0, Suc 0]" by (simp add: upt_rec)
lemma replicate_2: "replicate 2 x = [x, x]" by (simp add: numeral_2_eq_2)


text \<open>
  Claim C6. A grid with column spacing 5 that is not homogeneous in its columns, with two
  visible children in columns 0 and 1, each one column wide, asking for widths 10 and 20,
  reports the preferred width 35, as minimum and as natural size, whatever the order of the
  children in the list, their rows and their expand flags.
\<close>

theorem scenario_A_preferred_width:
  assumes kids: "children g = [c1, c2] \<or> children g = [c2, c1]"
    and sp: "spacing (linedata g GTK_ORIENTATION_HORIZONTAL) = 5"
    and nh: "\<not> homogeneous (linedata g GTK_ORIENTATION_HORIZONTAL)"
    and vis: "widget_visible (widget c1)" "widget_visible (widget c2)"
    and att: "attach c1 GTK_ORIENTATION_HORIZONTAL = \<lparr> pos = 0, span = 1 \<rparr>"
             "attach c2 GTK_ORIENTATION_HORIZONTAL = \<lparr> pos = 1, span = 1 \<rparr>"
    and req: "widget_preferred_width (widget c1) = (10, 10)"
             "widget_preferred_width (widget c2) = (20, 20)"
  shows "gtk_grid_get_size g GTK_ORIENTATION_HORIZONTAL = (g, 35, 35, -1, -1)"
proof -
  let ?H = GTK_ORIENTATION_HORIZONTAL
  define e1 where "e1 = widget_compute_expand (widget c1) ?H"
  define e2 where "e2 = widget_compute_expand (widget c2) ?H"
  define a0 where "a0 = (init_line zero_line)\<lparr>expand := e1\<rparr>"
  define a1 where "a1 = (init_line zero_line)\<lparr>expand := e2\<rparr>"
  define b0 where "b0 = a0\<lparr>minimum := 10, natural := 10\<rparr>"
  define b1 where "b1 = a1\<lparr>minimum := 20, natural := 20\<rparr>"
  have cmin: "count_lines_min g ?H = 0"
    using kids att by (auto simp add: count_lines_min_def G_MAXINT_def)
  have cmax: "count_lines_max g ?H = 2"
    using kids att by (auto simp add: count_lines_max_def G_MININT_def)
  define rq0 where "rq0 = alloc_lines (gtk_grid_request_count_lines (new_request g)) ?H"
  have g0: "grid rq0 = g"
    by (simp add: rq0_def)
  have l0: "request_lines rq0 ?H = \<lparr> lines = [zero_line, zero_line], lines_min = 0, lines_max = 2 \<rparr>"
    by (simp add: rq0_def alloc_lines_def new_request_def gtk_grid_request_count_lines_def
        set_lines_def cmin cmax replicate_2 Let_def)
  define rq1 where "rq1 = gtk_grid_request_init rq0 ?H"
  have g1: "grid rq1 = g"
    by (simp add: rq1_def g0)
  have l1: "request_lines rq1 ?H = \<lparr> lines = [a0, a1], lines_min = 0, lines_max = 2 \<rparr>"
    using kids att
    by (cases e1; cases e2)
       (auto simp add: rq1_def a0_def a1_def e1_def e2_def g0 l0 gtk_grid_request_init_def Let_def init_line_def zero_line_def
          set_lines_def upt_0_2 init_expand_child_def line_update_def line_index_def)
  define rq2 where "rq2 = gtk_grid_request_non_spanning rq1 ?H False"
  have g2: "grid rq2 = g"
    by (simp add: rq2_def g1)
  have ma: "minimum_above a0 = -1" "minimum_above a1 = -1" "minimum a0 = 0" "minimum a1 = 0"
    "natural a0 = 0" "natural a1 = 0"
    by (simp_all add: a0_def a1_def init_line_def)
  have l2: "request_lines rq2 ?H = \<lparr> lines = [b0, b1], lines_min = 0, lines_max = 2 \<rparr>"
    using kids att vis req
    by (auto simp add: rq2_def b0_def b1_def g1 l1 ma gtk_grid_request_non_spanning_def Let_def
          set_lines_def upt_0_2 non_spanning_child_def non_spanning_line_def
          compute_request_for_child_def line_update_def line_index_def)
  define rq3 where "rq3 = gtk_grid_request_homogeneous rq2 ?H"
  have rq3: "rq3 = rq2"
    using nh by (simp add: rq3_def gtk_grid_request_homogeneous_def g2 Let_def)
  define rq4 where "rq4 = gtk_grid_request_spanning rq3 ?H False"
  have g4: "grid rq4 = g"
    by (simp add: rq4_def rq3 g2)
  have l4: "request_lines rq4 ?H = \<lparr> lines = [b0, b1], lines_min = 0, lines_max = 2 \<rparr>"
    using kids att vis
    by (auto simp add: rq4_def rq3 g2 l2 gtk_grid_request_spanning_def set_lines_def spanning_child_def)
  define rq5 where "rq5 = gtk_grid_request_homogeneous rq4 ?H"
  have rq5: "rq5 = rq4"
    using nh by (simp add: rq5_def gtk_grid_request_homogeneous_def g4 Let_def)
  have run: "gtk_grid_request_run rq0 ?H False = rq4"
    by (simp add: gtk_grid_request_run_def Let_def rq1_def [symmetric] rq2_def [symmetric]
        rq3_def [symmetric] rq4_def [symmetric] rq5_def [symmetric] rq5)
  define c0 where "c0 = b0\<lparr>need_expand := False, expand := e1, empty := False\<rparr>"
  define c1' where "c1' = b1\<lparr>need_expand := False, expand := e2, empty := False\<rparr>"
  define L where "L = \<lparr> lines = [b0, b1], lines_min = 0, lines_max = 2 \<rparr>"
  have w0: "fold (\<lambda>i. line_update i expand_reset_line) [0, Suc 0] [b0, b1]
        = [expand_reset_line b0, expand_reset_line b1]"
    by (simp add: line_update_def)
  have w1: "fold (expand_non_spanning_child L ?H 0 2) (children g)
              [expand_reset_line b0, expand_reset_line b1] = [c0, c1']"
    using kids att vis
    by (cases e1; cases e2)
       (auto simp add: expand_non_spanning_child_def L_def line_update_def line_index_def
          expand_reset_line_def c0_def c1'_def e1_def e2_def)
  have w2: "fold (expand_spanning_child L ?H 0 2) (children g) [c0, c1'] = [c0, c1']"
    using kids att vis
    by (auto simp add: expand_spanning_child_def)
  have flags: "\<not> need_expand c0" "\<not> need_expand c1'" "\<not> empty c0" "\<not> empty c1'"
    "expand c0 = e1" "expand c1' = e2"
    by (simp_all add: c0_def c1'_def)
  have w3: "fold expand_count_line [0, Suc 0] ([c0, c1'], 0, 0)
        = ([c0, c1'], 0, (if e1 then 1 else 0) + (if e2 then 1 else 0))"
    by (simp add: expand_count_line_def flags)
  have ce: "gtk_grid_request_compute_expand rq4 ?H G_MININT G_MAXINT
        = (set_lines rq4 ?H [c0, c1'], 2, (if e1 then 1 else 0) + (if e2 then 1 else 0))"
    unfolding gtk_grid_request_compute_expand_def Let_def g4 l4
    by (simp add: G_MININT_def G_MAXINT_def upt_0_2 w0 w1 [unfolded L_def] w2 [unfolded L_def] w3
          del: fold.simps)
  have fields: "minimum c0 = 10" "natural c0 = 10" "minimum c1' = 20" "natural c1' = 20"
     "\<not> empty c0" "\<not> empty c1'"
    by (simp_all add: c0_def c1'_def b0_def b1_def)
  have sum: "gtk_grid_request_sum rq4 ?H = (set_lines rq4 ?H [c0, c1'], 35, 35, -1, -1)"
    using sp
    by (simp add: gtk_grid_request_sum_def ce g4 l4 set_lines_def Let_def upt_0_2 sum_line_def fields)
  from kids have "children g \<noteq> []"
    by auto
  then show ?thesis
    by (simp add: gtk_grid_get_size_def Let_def rq0_def [symmetric] run sum g4)
qed

text \<open>Witness of C6: the grid of scenario A, built by two calls of \<^verbatim>\<open>grid_attach\<close>.\<close>

theorem scenario_A_preferred_width_witness:
  "spacing (linedata scenario_A_grid GTK_ORIENTATION_HORIZONTAL) = 5
   \<and> \<not> homogeneous (linedata scenario_A_grid GTK_ORIENTATION_HORIZONTAL)
   \<and> map CHILD_LEFT (children scenario_A_grid) = [1, 0]
   \<and> map CHILD_WIDTH (children scenario_A_grid) = [1, 1]
   \<and> map (\<lambda>child. widget_preferred_width (widget child)) (children scenario_A_grid)
       = [(20, 20), (10, 10)]
   \<and> gtk_grid_get_size scenario_A_grid GTK_ORIENTATION_HORIZONTAL
       = (scenario_A_grid, 35, 35, -1, -1)"
proof -
  define c1 where "c1 = hd (tl (children scenario_A_grid))"
  define c2 where "c2 = hd (children scenario_A_grid)"
  have kids: "children scenario_A_grid = [c2, c1]"
    by (simp add: c1_def c2_def scenario_A_grid_def grid_attach_def set_spacing_def
        gtk_grid_init_def)
  have facts: "spacing (linedata scenario_A_grid GTK_ORIENTATION_HORIZONTAL) = 5"
    "\<not> homogeneous (linedata scenario_A_grid GTK_ORIENTATION_HORIZONTAL)"
    "widget_visible (widget c1)" "widget_visible (widget c2)"
    "attach c1 GTK_ORIENTATION_HORIZONTAL = \<lparr> pos = 0, span = 1 \<rparr>"
    "attach c2 GTK_ORIENTATION_HORIZONTAL = \<lparr> pos = 1, span = 1 \<rparr>"
    "widget_preferred_width (widget c1) = (10, 10)"
    "widget_preferred_width (widget c2) = (20, 20)"
    by (simp_all add: c1_def c2_def scenario_A_grid_def grid_attach_def set_spacing_def
        gtk_grid_init_def plain_widget_def)
  from scenario_A_preferred_width [of scenario_A_grid c1 c2, OF _ facts] kids facts
  show ?thesis
    by simp
qed


subsection \<open>The shortfall of a spanning child\<close>

lemma c_div_pos: "0 \<le> a \<Longrightarrow> 0 < b \<Longrightarrow> c_div a b = a div b"
  by (simp add: c_div_def sgn_if)

lemma c_mod_pos: "0 \<le> a \<Longrightarrow> 0 < b \<Longrightarrow> c_mod a b = a mod b"
  by (simp add: c_mod_def c_div_pos minus_mult_div_eq_mod)

lemma div_small_cases:
  fixes x m :: int
  assumes "0 \<le> x" "x < 2 * m"
  shows "x div m = (if m \<le> x then 1 else 0)"
proof (cases "m \<le> x")
  case True
  with assms have "0 \<le> x - m" "x - m < m" by simp_all
  then have "(x - m) div m = 0" by simp
  moreover from assms True have "0 < m" by simp
  then have "x div m = (x - m) div m + 1"
    by (metis add.commute add_diff_cancel_left' diff_add_cancel div_add_self1 less_int_code(1) not_less_iff_gr_or_eq)
  ultimately show ?thesis using True by simp
next
  case False
  with assms show ?thesis by simp
qed

lemma late_share:
  fixes e n :: int and k :: nat
  assumes "0 \<le> e" "0 < n" "int k < n"
  shows "(e + int k) div n = e div n + (if n - e mod n \<le> int k then 1 else 0)"
proof -
  have r: "0 \<le> e mod n" "e mod n < n" using assms by simp_all
  have n0: "n \<noteq> 0" using assms by simp
  have "e + int k = (e mod n + int k) + (e div n) * n"
    by (simp add: algebra_simps)
  then have "(e + int k) div n = ((e mod n + int k) + (e div n) * n) div n"
    by (rule arg_cong)
  also have "\<dots> = e div n + (e mod n + int k) div n"
    using n0 by (rule div_mult_self1)
  also have "(e mod n + int k) div n = (if n \<le> e mod n + int k then 1 else 0)"
  proof (rule div_small_cases)
    show "0 \<le> e mod n + int k" using r by linarith
    show "e mod n + int k < 2 * n" using r assms by linarith
  qed
  finally show ?thesis by (simp add: algebra_simps)
qed

lemma running_share_step:
  fixes e n :: int and k :: nat
  assumes "0 \<le> e" "1 < n" "int k < n - 1"
  shows "(e - e div n + int k) div (n - 1) = (e + int (Suc k)) div n"
proof -
  define q where "q = e div n"
  define r where "r = e mod n"
  have e: "e = q * n + r" by (simp add: q_def r_def)
  have r: "0 \<le> r" "r < n" using assms by (simp_all add: r_def)
  have m0: "n - 1 \<noteq> 0" using assms by simp
  from e have "e - q + int k = (r + int k) + q * (n - 1)"
    by (simp add: algebra_simps)
  then have "(e - q + int k) div (n - 1) = ((r + int k) + q * (n - 1)) div (n - 1)"
    by (rule arg_cong)
  also have "\<dots> = q + (r + int k) div (n - 1)"
    using m0 by (rule div_mult_self1)
  also have "(r + int k) div (n - 1) = (if n - 1 \<le> r + int k then 1 else 0)"
  proof (rule div_small_cases)
    show "0 \<le> r + int k" using r by linarith
    show "r + int k < 2 * (n - 1)" using r assms by arith
  qed
  finally have lhs: "(e - e div n + int k) div (n - 1) = q + (if n - 1 \<le> r + int k then 1 else 0)"
    by (simp add: q_def)
  have "(e + int (Suc k)) div n = e div n + (if n - e mod n \<le> int (Suc k) then 1 else 0)"
    using assms by (intro late_share) simp_all
  with lhs show ?thesis
    by (simp add: q_def r_def)
qed

lemma line_update_length [simp]: "length (line_update i f ls) = length ls"
  by (simp add: line_update_def)

lemma line_update_nth: "j < length ls \<Longrightarrow> line_update i f ls ! j = (if j = i then f (ls ! j) else ls ! j)"
  by (simp add: line_update_def)

lemma spanning_distribute_length [simp]:
  "length (spanning_distribute add force extra cnt idx ls) = length ls"
  by (induction idx arbitrary: extra cnt ls) (auto simp add: Let_def)

lemma spanning_distribute_nth:
  assumes "distinct idx" "\<forall>i\<in>set idx. i < length ls"
    and "\<And>d l. expand (add d l) = expand l"
    and "0 \<le> extra"
    and "cnt = int (length (filter (\<lambda>i. force \<or> expand (ls ! i)) idx))"
  shows "(\<forall>k<length (filter (\<lambda>i. force \<or> expand (ls ! i)) idx).
           spanning_distribute add force extra cnt idx ls ! (filter (\<lambda>i. force \<or> expand (ls ! i)) idx ! k)
           = add ((extra + int k) div cnt) (ls ! (filter (\<lambda>i. force \<or> expand (ls ! i)) idx ! k)))
       \<and> (\<forall>j<length ls. j \<notin> set (filter (\<lambda>i. force \<or> expand (ls ! i)) idx) \<longrightarrow>
           spanning_distribute add force extra cnt idx ls ! j = ls ! j)"
  using assms
proof (induction idx arbitrary: extra cnt ls)
  case Nil
  then show ?case by simp
next
  case (Cons i idx)
  let ?P = "\<lambda>ls i. force \<or> expand (ls ! i)"
  let ?rec = "filter (?P ls) idx"
  from Cons.prems have dist: "distinct idx" "i \<notin> set idx" and rng: "\<forall>i\<in>set idx. i < length ls"
    and i: "i < length ls"
    by simp_all
  show ?case
  proof (cases "?P ls i")
    case False
    then have f: "filter (?P ls) (i # idx) = ?rec" by simp
    from Cons.prems(5) f have cnt: "cnt = int (length ?rec)" by simp
    from False have sd: "spanning_distribute add force extra cnt (i # idx) ls
        = spanning_distribute add force extra cnt idx ls"
      by simp
    from Cons.IH [OF dist(1) rng Cons.prems(3) Cons.prems(4) cnt]
    show ?thesis unfolding f sd .
  next
    case True
    then have f: "filter (?P ls) (i # idx) = i # ?rec" by simp
    from Cons.prems(5) f have cnt: "cnt = int (length ?rec) + 1" by simp
    then have cpos: "0 < cnt" by simp
    define le where "le = c_div extra cnt"
    have le: "le = extra div cnt"
      using Cons.prems(4) cpos by (simp add: le_def c_div_pos)
    define ls1 where "ls1 = line_update i (add le) ls"
    have len1: "length ls1 = length ls" by (simp add: ls1_def)
    have exp1: "expand (ls1 ! j) = expand (ls ! j)" if "j < length ls" for j
      using that Cons.prems(3) by (simp add: ls1_def line_update_nth)
    have f1: "filter (?P ls1) idx = ?rec"
      using rng exp1 by (intro filter_cong) auto
    have sd: "spanning_distribute add force extra cnt (i # idx) ls
        = spanning_distribute add force (extra - le) (cnt - 1) idx ls1"
      using True by (simp add: le_def ls1_def Let_def)
    have e1: "0 \<le> extra - le"
    proof -
      have "extra div cnt \<le> extra"
        using Cons.prems(4) cpos zdiv_mono2 [of extra 1 cnt] by simp
      then show ?thesis by (simp add: le)
    qed
    have cnt1: "cnt - 1 = int (length (filter (?P ls1) idx))"
      using cnt f1 by simp
    have rng1: "\<forall>i\<in>set idx. i < length ls1" using rng len1 by simp
    note IH = Cons.IH [OF dist(1) rng1 Cons.prems(3) e1 cnt1, unfolded f1 len1]
    have part1: "spanning_distribute add force extra cnt (i # idx) ls ! ((i # ?rec) ! k)
        = add ((extra + int k) div cnt) (ls ! ((i # ?rec) ! k))" if k: "k < length (i # ?rec)" for k
    proof (cases k)
      case 0
      have "i \<notin> set ?rec" using dist(2) by simp
      with IH i have "spanning_distribute add force (extra - le) (cnt - 1) idx ls1 ! i = ls1 ! i"
        by simp
      also have "ls1 ! i = add le (ls ! i)"
        using i by (simp add: ls1_def line_update_nth)
      finally show ?thesis using 0 by (simp add: sd le del: spanning_distribute.simps)
    next
      case (Suc k')
      with k have k': "k' < length ?rec" by simp
      then have mem: "?rec ! k' \<in> set idx"
        by (metis filter_is_subset nth_mem subsetD)
      with dist(2) have ne: "?rec ! k' \<noteq> i" by auto
      from mem rng have lt: "?rec ! k' < length ls" by simp
      from k' cnt have c1: "1 < cnt" "int k' < cnt - 1" by linarith+
      from IH k' have "spanning_distribute add force (extra - le) (cnt - 1) idx ls1 ! (?rec ! k')
          = add ((extra - le + int k') div (cnt - 1)) (ls1 ! (?rec ! k'))"
        by simp
      also have "ls1 ! (?rec ! k') = ls ! (?rec ! k')"
        using lt ne by (simp add: ls1_def line_update_nth)
      also have "(extra - le + int k') div (cnt - 1) = (extra + int (Suc k')) div cnt"
        unfolding le using Cons.prems(4) c1 by (rule running_share_step)
      finally show ?thesis using Suc by (simp add: sd del: spanning_distribute.simps)
    qed
    have part2: "spanning_distribute add force extra cnt (i # idx) ls ! j = ls ! j"
      if j: "j < length ls" "j \<notin> set (i # ?rec)" for j
    proof -
      from j have "j \<noteq> i" "j \<notin> set ?rec" by simp_all
      with IH j(1) have "spanning_distribute add force (extra - le) (cnt - 1) idx ls1 ! j = ls1 ! j"
        by simp
      also have "ls1 ! j = ls ! j"
        using j(1) \<open>j \<noteq> i\<close> by (simp add: ls1_def line_update_nth)
      finally show ?thesis by (simp add: sd del: spanning_distribute.simps)
    qed
    show ?thesis
      unfolding f using part1 part2 by blast
  qed
qed

lemma fold_add_sum: "fold (\<lambda>i s. s + f i) idx (s0::int) = s0 + (\<Sum>i\<leftarrow>idx. f i)"
  by (induction idx arbitrary: s0) simp_all

lemma fold_count: "fold (\<lambda>i s. if P i then s + 1 else s) idx (s0::int) = s0 + int (length (filter P idx))"
  by (induction idx arbitrary: s0) simp_all

lemma spanning_distribute_field:
  assumes "\<And>d l. f (add d l) = f l" "j < length ls"
  shows "f (spanning_distribute add force extra cnt idx ls ! j) = f (ls ! j)"
  using assms(2)
proof (induction idx arbitrary: extra cnt ls)
  case Nil
  then show ?case by simp
next
  case (Cons i idx)
  then show ?case
    by (auto simp add: Let_def line_update_nth assms(1))
qed

lemma spanned_lines_index:
  assumes "lines_min L \<le> pos a"
  shows "spanned_lines L a = map (\<lambda>i. nat (pos a - lines_min L) + i) [0..<nat (span a)]"
  using assms by (simp add: spanned_lines_def line_index_def nat_add_distrib)

lemma spanned_lines_distinct:
  assumes "lines_min L \<le> pos a"
  shows "distinct (spanned_lines L a)"
  unfolding spanned_lines_index [OF assms]
  by (simp add: distinct_map inj_on_def)

lemma spanned_lines_range:
  assumes "lines_min L \<le> pos a" "nat (pos a - lines_min L) + nat (span a) \<le> length ls"
  shows "\<forall>i\<in>set (spanned_lines L a). i < length ls"
  unfolding spanned_lines_index [OF assms(1)] using assms(2) by auto

lemma spanned_lines_length [simp]: "length (spanned_lines L a) = nat (span a)"
  by (simp add: spanned_lines_def)

lemma receiving_lines_filter:
  "filter (\<lambda>i. filter (\<lambda>i. expand (ls ! i)) idx = [] \<or> expand (ls ! i)) idx = receiving_lines ls idx"
  by (simp add: receiving_lines_def)

text \<open>The non-homogeneous branch for one field.\<close>

lemma spanning_distribute_shares:
  assumes dist: "distinct idx" and rng: "\<forall>i\<in>set idx. i < length ls"
    and add: "\<And>d l. expand (add d l) = expand l"
    and short: "0 < shortfall"
    and force: "force = (filter (\<lambda>i. expand (ls ! i)) idx = [])"
    and cnt: "cnt = int (length (receiving_lines ls idx))"
  shows "(\<forall>k<length (receiving_lines ls idx).
            spanning_distribute add force shortfall cnt idx ls ! (receiving_lines ls idx ! k)
            = add (code_share shortfall cnt k) (ls ! (receiving_lines ls idx ! k)))
       \<and> (\<forall>j<length ls. j \<notin> set (receiving_lines ls idx) \<longrightarrow>
            spanning_distribute add force shortfall cnt idx ls ! j = ls ! j)"
proof -
  have f: "filter (\<lambda>i. force \<or> expand (ls ! i)) idx = receiving_lines ls idx"
    unfolding force by (rule receiving_lines_filter)
  have s0: "0 \<le> shortfall" using short by simp
  have c: "cnt = int (length (filter (\<lambda>i. force \<or> expand (ls ! i)) idx))"
    using cnt f by simp
  note main = spanning_distribute_nth [OF dist rng add s0 c, unfolded f]
  have share: "(shortfall + int k) div cnt = code_share shortfall cnt k"
    if "k < length (receiving_lines ls idx)" for k
  proof -
    from that cnt have "0 < cnt" "int k < cnt" by linarith+
    with s0 show ?thesis
      unfolding code_share_def by (intro late_share)
  qed
  from main share show ?thesis
    by simp
qed


lemma spanning_lines_non_homogeneous:
  assumes "\<not> homogeneous ld" "0 < span a"
  shows "spanning_lines ld L a cm cn ls =
    (let idx = spanned_lines L a;
         force = (filter (\<lambda>i. expand (ls ! i)) idx = []);
         cnt = int (length (receiving_lines ls idx));
         ls1 = (if span_size minimum ld a ls idx < cm
                then spanning_distribute add_minimum force
                       (cm - span_size minimum ld a ls idx) cnt idx ls
                else ls)
     in if span_size natural ld a ls idx < cn
        then spanning_distribute add_natural force
               (cn - span_size natural ld a ls idx) cnt idx ls1
        else ls1)"
proof -
  have c1: "int (length (receiving_lines ls (spanned_lines L a))) = span a"
    if "filter (\<lambda>i. expand (ls ! i)) (spanned_lines L a) = []"
    using that assms(2) by (simp add: receiving_lines_def)
  have c2: "receiving_lines ls (spanned_lines L a) = filter (\<lambda>i. expand (ls ! i)) (spanned_lines L a)"
    if "filter (\<lambda>i. expand (ls ! i)) (spanned_lines L a) \<noteq> []"
    using that by (simp add: receiving_lines_def)
  show ?thesis
  proof (cases "filter (\<lambda>i. expand (ls ! i)) (spanned_lines L a) = []")
    case True
    with assms(1) c1 [OF True] show ?thesis
      by (simp add: spanning_lines_def Let_def fold_add_sum fold_count span_size_def
          spanned_lines_def [symmetric] del: fold.simps)
  next
    case False
    with assms(1) c2 [OF False] show ?thesis
      by (simp add: spanning_lines_def Let_def fold_add_sum fold_count span_size_def
          spanned_lines_def [symmetric] del: fold.simps)
  qed
qed

lemma add_minimum_fields [simp]:
  "expand (add_minimum d l) = expand l" "natural (add_minimum d l) = natural l"
  "minimum (add_minimum d l) = minimum l + d"
  by (simp_all add: add_minimum_def)

lemma add_natural_fields [simp]:
  "expand (add_natural d l) = expand l" "minimum (add_natural d l) = minimum l"
  "natural (add_natural d l) = natural l + d"
  by (simp_all add: add_natural_def)

text \<open>
  Claim C1, as amended. In the spanning pass of an orientation that is not homogeneous,
  take a visible child that spans more than one line and whose minimum request exceeds
  the sum of the minimums of its lines plus (span - 1) times the spacing. The shortfall
  goes to the receiving lines only (the spanned lines with \<open>expand\<close> set, or all spanned
  lines if none has it): the \<open>k\<close>-th of the \<open>n\<close> receiving lines, in spanned order, gets
  \<open>shortfall div n\<close>, and one unit more if it is among the last \<open>shortfall mod n\<close> of them.
  Every other line keeps its minimum. The same holds for the natural sizes.
\<close>

theorem spanning_shortfall_distribution:
  fixes request :: GtkGridRequest and child :: GtkGridChild and ls :: "GtkGridLine list"
    and orientation :: GtkOrientation and contextual :: bool
  defines "ld \<equiv> linedata (grid request) orientation"
    and "L \<equiv> request_lines request orientation"
    and "a \<equiv> attach child orientation"
  defines "idx \<equiv> spanned_lines L a"
  defines "rcv \<equiv> receiving_lines ls idx"
    and "ls' \<equiv> spanning_child request orientation contextual child ls"
  assumes nh: "\<not> homogeneous ld"
    and vis: "widget_visible (widget child)"
    and sp: "1 < span a"
    and lo: "lines_min L \<le> pos a"
    and hi: "nat (pos a - lines_min L) + nat (span a) \<le> length ls"
    and req: "compute_request_for_child request child orientation contextual = (cm, cn, mb, nb)"
  shows "(span_size minimum ld a ls idx < cm \<longrightarrow>
            (\<forall>k<length rcv. minimum (ls' ! (rcv ! k))
                = minimum (ls ! (rcv ! k))
                  + code_share (cm - span_size minimum ld a ls idx) (int (length rcv)) k)
            \<and> (\<forall>j<length ls. j \<notin> set rcv \<longrightarrow> minimum (ls' ! j) = minimum (ls ! j)))
       \<and> (span_size natural ld a ls idx < cn \<longrightarrow>
            (\<forall>k<length rcv. natural (ls' ! (rcv ! k))
                = natural (ls ! (rcv ! k))
                  + code_share (cn - span_size natural ld a ls idx) (int (length rcv)) k)
            \<and> (\<forall>j<length ls. j \<notin> set rcv \<longrightarrow> natural (ls' ! j) = natural (ls ! j)))"
proof -
  define force where "force = (filter (\<lambda>i. expand (ls ! i)) idx = [])"
  define cnt where "cnt = int (length rcv)"
  define ls1 where "ls1 = (if span_size minimum ld a ls idx < cm
                then spanning_distribute add_minimum force
                       (cm - span_size minimum ld a ls idx) cnt idx ls
                else ls)"
  have step: "ls' = (if span_size natural ld a ls idx < cn
        then spanning_distribute add_natural force
               (cn - span_size natural ld a ls idx) cnt idx ls1
        else ls1)"
    using vis sp req nh
    by (simp add: ls'_def spanning_child_def a_def [symmetric] ld_def [symmetric] L_def [symmetric]
        spanning_lines_non_homogeneous Let_def idx_def [symmetric] rcv_def [symmetric]
        force_def ls1_def cnt_def)
  have dist: "distinct idx"
    unfolding idx_def using lo by (rule spanned_lines_distinct)
  have rng: "\<forall>i\<in>set idx. i < length ls"
    unfolding idx_def using lo hi by (rule spanned_lines_range)
  have len1: "length ls1 = length ls"
    by (simp add: ls1_def)
  have rcv_sub: "set rcv \<subseteq> set idx"
    by (auto simp add: rcv_def receiving_lines_def)
  have rcv_lt: "rcv ! k < length ls" if "k < length rcv" for k
    using that rcv_sub rng by (meson nth_mem subsetD)
  have exp1: "expand (ls1 ! j) = expand (ls ! j)" if "j < length ls" for j
    using that by (simp add: ls1_def spanning_distribute_field)
  have nat1: "natural (ls1 ! j) = natural (ls ! j)" if "j < length ls" for j
    using that by (simp add: ls1_def spanning_distribute_field)
  have min2: "minimum (ls' ! j) = minimum (ls1 ! j)" if "j < length ls" for j
    using that len1 by (simp add: step spanning_distribute_field)
  have filt1: "filter (\<lambda>i. expand (ls1 ! i)) idx = filter (\<lambda>i. expand (ls ! i)) idx"
    using rng exp1 by (intro filter_cong) auto
  have rcv1: "receiving_lines ls1 idx = rcv"
    by (simp add: receiving_lines_def filt1 rcv_def)
  have part_min: "(\<forall>k<length rcv. minimum (ls' ! (rcv ! k))
                = minimum (ls ! (rcv ! k))
                  + code_share (cm - span_size minimum ld a ls idx) (int (length rcv)) k)
            \<and> (\<forall>j<length ls. j \<notin> set rcv \<longrightarrow> minimum (ls' ! j) = minimum (ls ! j))"
    if short: "span_size minimum ld a ls idx < cm"
  proof -
    from short have s: "0 < cm - span_size minimum ld a ls idx" by simp
    have l1: "ls1 = spanning_distribute add_minimum force
                       (cm - span_size minimum ld a ls idx) cnt idx ls"
      using short by (simp add: ls1_def)
    have "(\<forall>k<length rcv. ls1 ! (rcv ! k)
              = add_minimum (code_share (cm - span_size minimum ld a ls idx) cnt k) (ls ! (rcv ! k)))
        \<and> (\<forall>j<length ls. j \<notin> set rcv \<longrightarrow> ls1 ! j = ls ! j)"
      unfolding l1 rcv_def
      by (rule spanning_distribute_shares [OF dist rng _ s])
         (simp_all add: force_def cnt_def rcv_def)
    then show ?thesis
      using min2 rcv_lt by (simp add: cnt_def)
  qed
  have part_nat: "(\<forall>k<length rcv. natural (ls' ! (rcv ! k))
                = natural (ls ! (rcv ! k))
                  + code_share (cn - span_size natural ld a ls idx) (int (length rcv)) k)
            \<and> (\<forall>j<length ls. j \<notin> set rcv \<longrightarrow> natural (ls' ! j) = natural (ls ! j))"
    if short: "span_size natural ld a ls idx < cn"
  proof -
    from short have s: "0 < cn - span_size natural ld a ls idx" by simp
    have l2: "ls' = spanning_distribute add_natural force
               (cn - span_size natural ld a ls idx) cnt idx ls1"
      using short by (simp add: step)
    have rng1: "\<forall>i\<in>set idx. i < length ls1"
      using rng len1 by simp
    have "(\<forall>k<length (receiving_lines ls1 idx). ls' ! (receiving_lines ls1 idx ! k)
              = add_natural (code_share (cn - span_size natural ld a ls idx) cnt k)
                  (ls1 ! (receiving_lines ls1 idx ! k)))
        \<and> (\<forall>j<length ls1. j \<notin> set (receiving_lines ls1 idx) \<longrightarrow> ls' ! j = ls1 ! j)"
      unfolding l2
      by (rule spanning_distribute_shares [OF dist rng1 _ s])
         (simp_all add: force_def cnt_def rcv1 filt1)
    then show ?thesis
      using nat1 rcv_lt by (simp add: cnt_def rcv1 len1)
  qed
  from part_min part_nat show ?thesis
    by blast
qed


text \<open>
  Witness of C1: the child three columns wide with request (7, 8) over three lines of
  size 0, none expanding. The lines get the minimums 2, 2, 3 and the naturals 2, 3, 3.
\<close>

theorem spanning_shortfall_distribution_witness:
  "\<not> homogeneous (linedata (grid span3_request) GTK_ORIENTATION_HORIZONTAL)
   \<and> widget_visible (widget span3_child)
   \<and> 1 < span (attach span3_child GTK_ORIENTATION_HORIZONTAL)
   \<and> receiving_lines (lines (request_lines span3_request GTK_ORIENTATION_HORIZONTAL))
        (spanned_lines (request_lines span3_request GTK_ORIENTATION_HORIZONTAL)
           (attach span3_child GTK_ORIENTATION_HORIZONTAL)) = [0, 1, 2]
   \<and> minimum (spanning_child span3_request GTK_ORIENTATION_HORIZONTAL False span3_child
          (lines (request_lines span3_request GTK_ORIENTATION_HORIZONTAL)) ! 0) = 0 + code_share 7 3 0
   \<and> minimum (spanning_child span3_request GTK_ORIENTATION_HORIZONTAL False span3_child
          (lines (request_lines span3_request GTK_ORIENTATION_HORIZONTAL)) ! 1) = 0 + code_share 7 3 1
   \<and> minimum (spanning_child span3_request GTK_ORIENTATION_HORIZONTAL False span3_child
          (lines (request_lines span3_request GTK_ORIENTATION_HORIZONTAL)) ! 2) = 0 + code_share 7 3 2
   \<and> natural (spanning_child span3_request GTK_ORIENTATION_HORIZONTAL False span3_child
          (lines (request_lines span3_request GTK_ORIENTATION_HORIZONTAL)) ! 2) = 0 + code_share 8 3 2
   \<and> map (code_share 7 3) [0, 1, 2] = [2, 2, 3]
   \<and> map (code_share 8 3) [0, 1, 2] = [2, 3, 3]"
proof -
  let ?H = GTK_ORIENTATION_HORIZONTAL
  let ?ls = "lines (request_lines span3_request ?H)"
  let ?a = "attach span3_child ?H"
  let ?L = "request_lines span3_request ?H"
  let ?ld = "linedata (grid span3_request) ?H"
  have nh: "\<not> homogeneous ?ld" by code_simp
  have vis: "widget_visible (widget span3_child)" by code_simp
  have sp: "1 < span ?a" by code_simp
  have lo: "lines_min ?L \<le> pos ?a" by code_simp
  have hi: "nat (pos ?a - lines_min ?L) + nat (span ?a) \<le> length ?ls" by code_simp
  have req: "compute_request_for_child span3_request span3_child ?H False = (7, 8, -1, -1)"
    by code_simp
  have rcv: "receiving_lines ?ls (spanned_lines ?L ?a) = [0, 1, 2]" by code_simp
  have sm: "span_size minimum ?ld ?a ?ls (spanned_lines ?L ?a) = 0" by code_simp
  have sn: "span_size natural ?ld ?a ?ls (spanned_lines ?L ?a) = 0" by code_simp
  have m0: "minimum (?ls ! 0) = 0" "minimum (?ls ! 1) = 0" "minimum (?ls ! 2) = 0"
    "natural (?ls ! 2) = 0"
    by code_simp+
  have cs: "map (code_share 7 3) [0, 1, 2] = [2, 2, 3]" "map (code_share 8 3) [0, 1, 2] = [2, 3, 3]"
    by code_simp+
  note inst = spanning_shortfall_distribution [OF nh vis sp lo hi req, unfolded rcv sm sn]
  from inst have am: "\<forall>k<3. minimum (spanning_child span3_request ?H False span3_child ?ls ! ([0, 1, 2] ! k))
        = minimum (?ls ! ([0, 1, 2] ! k)) + code_share 7 3 k"
    by simp
  have a: "minimum (spanning_child span3_request ?H False span3_child ?ls ! 0) = 0 + code_share 7 3 0"
    "minimum (spanning_child span3_request ?H False span3_child ?ls ! 1) = 0 + code_share 7 3 1"
    "minimum (spanning_child span3_request ?H False span3_child ?ls ! 2) = 0 + code_share 7 3 2"
    using am [rule_format, of 0] am [rule_format, of 1] am [rule_format, of 2] m0
    by simp_all
  from inst have an: "\<forall>k<3. natural (spanning_child span3_request ?H False span3_child ?ls ! ([0, 1, 2] ! k))
        = natural (?ls ! ([0, 1, 2] ! k)) + code_share 8 3 k"
    by simp
  have b: "natural (spanning_child span3_request ?H False span3_child ?ls ! 2) = 0 + code_share 8 3 2"
    using an [rule_format, of 2] m0 by simp
  from nh vis sp rcv a b cs show ?thesis
    by simp
qed


text \<open>
  Counterexample to C1 as stated. For the same child the specification gives the extra
  unit of the shortfall 7 to the first line (3, 2, 2); the spanning pass, and the whole
  request run, give it to the last (2, 2, 3).
\<close>

theorem spanning_remainder_first_counterexample:
  "widget_visible (widget span3_child)
   \<and> attach span3_child GTK_ORIENTATION_HORIZONTAL = \<lparr> pos = 0, span = 3 \<rparr>
   \<and> \<not> homogeneous (linedata (grid span3_request) GTK_ORIENTATION_HORIZONTAL)
   \<and> spacing (linedata (grid span3_request) GTK_ORIENTATION_HORIZONTAL) = 0
   \<and> compute_request_for_child span3_request span3_child GTK_ORIENTATION_HORIZONTAL False
       = (7, 8, -1, -1)
   \<and> map minimum (lines (request_lines span3_request GTK_ORIENTATION_HORIZONTAL)) = [0, 0, 0]
   \<and> map expand (lines (request_lines span3_request GTK_ORIENTATION_HORIZONTAL))
       = [False, False, False]
   \<and> map minimum (spanning_child span3_request GTK_ORIENTATION_HORIZONTAL False span3_child
          (lines (request_lines span3_request GTK_ORIENTATION_HORIZONTAL))) = [2, 2, 3]
   \<and> map (spec_share 7 3) [0, 1, 2] = [3, 2, 2]
   \<and> minimum (spanning_child span3_request GTK_ORIENTATION_HORIZONTAL False span3_child
          (lines (request_lines span3_request GTK_ORIENTATION_HORIZONTAL)) ! 0)
       \<noteq> minimum (lines (request_lines span3_request GTK_ORIENTATION_HORIZONTAL) ! 0)
         + spec_share 7 3 0
   \<and> map minimum (lines (request_lines
          (gtk_grid_request_run
             (alloc_lines (gtk_grid_request_count_lines (new_request span3_grid))
                GTK_ORIENTATION_HORIZONTAL)
             GTK_ORIENTATION_HORIZONTAL False)
          GTK_ORIENTATION_HORIZONTAL)) = [2, 2, 3]"
  by code_simp


subsection \<open>Homogeneous lines\<close>

lemma request_lines_set_lines:
  "request_lines (set_lines request orientation ls) o' =
     (if o' = orientation then (request_lines request orientation)\<lparr>lines := ls\<rparr>
      else request_lines request o')"
  by (simp add: set_lines_def)

lemma lines_set_lines [simp]:
  "lines (request_lines (set_lines request orientation ls) orientation) = ls"
  "lines_min (request_lines (set_lines request orientation ls) o') = lines_min (request_lines request o')"
  "lines_max (request_lines (set_lines request orientation ls) o') = lines_max (request_lines request o')"
  by (simp_all add: set_lines_def)

lemma fold_line_update_length [simp]:
  "length (fold (\<lambda>i. line_update i (g i)) idx ls) = length ls"
  by (induction idx arbitrary: ls) simp_all

lemma fold_length_preserve:
  assumes "\<And>x ls. length (step x ls) = length ls"
  shows "length (fold step xs ls) = length ls"
  by (induction xs arbitrary: ls) (simp_all add: assms)

lemma fold_line_update_upt_nth:
  assumes "n \<le> length ls" "j < length ls"
  shows "fold (\<lambda>i. line_update i (g i)) [0..<n] ls ! j = (if j < n then g j (ls ! j) else ls ! j)"
  using assms
proof (induction n)
  case 0
  then show ?case by simp
next
  case (Suc n)
  then show ?case
    by (auto simp add: line_update_nth less_Suc_eq)
qed

lemma fold_max_upt:
  assumes "n \<le> length ls"
  shows "fold (\<lambda>i m. max m (f (ls ! i))) [0..<n] (m0::int) = Max (insert m0 (f ` set (take n ls)))"
  using assms
proof (induction n)
  case 0
  then show ?case by simp
next
  case (Suc n)
  then have n: "n < length ls" by simp
  have "f ` set (take (Suc n) ls) = insert (f (ls ! n)) (f ` set (take n ls))"
    using n by (simp add: take_Suc_conv_app_nth)
  moreover have "Max (insert (f (ls ! n)) (insert m0 (f ` set (take n ls))))
      = max (f (ls ! n)) (Max (insert m0 (f ` set (take n ls))))"
    by (rule Max_insert) simp_all
  ultimately show ?case
    using Suc n by (simp add: insert_commute max.commute)
qed

text \<open>What the homogeneous clamp does to the lines of a homogeneous orientation.\<close>

lemma homogeneous_lines:
  assumes "homogeneous (linedata (grid request) orientation)"
    and "length (lines (request_lines request orientation))
         = nat (lines_max (request_lines request orientation) - lines_min (request_lines request orientation))"
  shows "lines (request_lines (gtk_grid_request_homogeneous request orientation) orientation)
     = map (\<lambda>line. line\<lparr>minimum := Max (insert 0 (minimum ` set (lines (request_lines request orientation)))),
                          natural := Max (insert 0 (natural ` set (lines (request_lines request orientation))))\<rparr>)
         (lines (request_lines request orientation))"
proof -
  let ?ls = "lines (request_lines request orientation)"
  let ?n = "length ?ls"
  have m: "fold (\<lambda>i m. max m (minimum (?ls ! i))) [0..<?n] 0 = Max (insert 0 (minimum ` set ?ls))"
    using fold_max_upt [of ?n ?ls minimum 0] by simp
  have n: "fold (\<lambda>i m. max m (natural (?ls ! i))) [0..<?n] 0 = Max (insert 0 (natural ` set ?ls))"
    using fold_max_upt [of ?n ?ls natural 0] by simp
  let ?set = "\<lambda>line. line\<lparr>minimum := Max (insert 0 (minimum ` set ?ls)),
                              natural := Max (insert 0 (natural ` set ?ls))\<rparr>"
  have eq: "lines (request_lines (gtk_grid_request_homogeneous request orientation) orientation)
      = fold (\<lambda>i. line_update i ?set) [0..<?n] ?ls"
    using assms(1)
    by (simp add: gtk_grid_request_homogeneous_def Let_def assms(2) [symmetric] m n
        del: fold.simps)
  show ?thesis
    unfolding eq
    by (rule nth_equalityI) (simp_all add: fold_line_update_upt_nth del: fold.simps)
qed


lemma init_expand_child_length [simp]:
  "length (init_expand_child L orientation child ls) = length ls"
  by (simp add: init_expand_child_def Let_def)

lemma non_spanning_child_length [simp]:
  "length (non_spanning_child request orientation contextual child ls) = length ls"
  by (simp add: non_spanning_child_def Let_def split: prod.splits)

lemma non_spanning_line_length [simp]:
  "length (non_spanning_line g L i ls) = length ls"
  by (simp add: non_spanning_line_def)

lemma spanning_lines_length [simp]:
  "length (spanning_lines ld L a cm cn ls) = length ls"
  by (simp add: spanning_lines_def Let_def del: fold.simps)

lemma spanning_child_length [simp]:
  "length (spanning_child request orientation contextual child ls) = length ls"
  by (simp add: spanning_child_def Let_def split: prod.splits)

lemma request_init_frame [simp]:
  "lines_min (request_lines (gtk_grid_request_init request orientation) o') = lines_min (request_lines request o')"
  "lines_max (request_lines (gtk_grid_request_init request orientation) o') = lines_max (request_lines request o')"
  "length (lines (request_lines (gtk_grid_request_init request orientation) orientation))
     = length (lines (request_lines request orientation))"
  by (simp_all add: gtk_grid_request_init_def Let_def fold_length_preserve del: fold.simps)

lemma request_non_spanning_frame [simp]:
  "lines_min (request_lines (gtk_grid_request_non_spanning request orientation contextual) o')
     = lines_min (request_lines request o')"
  "lines_max (request_lines (gtk_grid_request_non_spanning request orientation contextual) o')
     = lines_max (request_lines request o')"
  "length (lines (request_lines (gtk_grid_request_non_spanning request orientation contextual) orientation))
     = length (lines (request_lines request orientation))"
  by (simp_all add: gtk_grid_request_non_spanning_def Let_def fold_length_preserve del: fold.simps)

lemma request_homogeneous_frame [simp]:
  "lines_min (request_lines (gtk_grid_request_homogeneous request orientation) o')
     = lines_min (request_lines request o')"
  "lines_max (request_lines (gtk_grid_request_homogeneous request orientation) o')
     = lines_max (request_lines request o')"
  "length (lines (request_lines (gtk_grid_request_homogeneous request orientation) orientation))
     = length (lines (request_lines request orientation))"
  by (simp_all add: gtk_grid_request_homogeneous_def Let_def del: fold.simps)

lemma request_spanning_frame [simp]:
  "lines_min (request_lines (gtk_grid_request_spanning request orientation contextual) o')
     = lines_min (request_lines request o')"
  "lines_max (request_lines (gtk_grid_request_spanning request orientation contextual) o')
     = lines_max (request_lines request o')"
  "length (lines (request_lines (gtk_grid_request_spanning request orientation contextual) orientation))
     = length (lines (request_lines request orientation))"
  by (simp_all add: gtk_grid_request_spanning_def fold_length_preserve del: fold.simps)

lemma request_run_frame [simp]:
  "lines_min (request_lines (gtk_grid_request_run request orientation contextual) o')
     = lines_min (request_lines request o')"
  "lines_max (request_lines (gtk_grid_request_run request orientation contextual) o')
     = lines_max (request_lines request o')"
  "length (lines (request_lines (gtk_grid_request_run request orientation contextual) orientation))
     = length (lines (request_lines request orientation))"
  by (simp_all add: gtk_grid_request_run_def Let_def)

lemma fold_line_update_mono:
  fixes f :: "GtkGridLine \<Rightarrow> int"
  assumes "\<And>i l. f l \<le> f (g i l)" "j < length ls"
  shows "f (ls ! j) \<le> f (fold (\<lambda>i. line_update i (g i)) idx ls ! j)"
  using assms(2)
proof (induction idx arbitrary: ls)
  case Nil
  then show ?case by simp
next
  case (Cons i idx)
  have "f (ls ! j) \<le> f (line_update i (g i) ls ! j)"
    using Cons.prems assms(1) by (simp add: line_update_nth)
  also have "\<dots> \<le> f (fold (\<lambda>i. line_update i (g i)) idx (line_update i (g i) ls) ! j)"
    using Cons.prems by (intro Cons.IH) simp
  finally show ?case by simp
qed

lemma fold_step_mono:
  fixes f :: "GtkGridLine \<Rightarrow> int"
  assumes step: "\<And>c ls j. j < length ls \<Longrightarrow> f (ls ! j) \<le> f (step c ls ! j)"
    and len: "\<And>c ls. length (step c ls) = length ls"
    and j: "j < length ls"
  shows "f (ls ! j) \<le> f (fold step cs ls ! j)"
  using j
proof (induction cs arbitrary: ls)
  case Nil
  then show ?case by simp
next
  case (Cons c cs)
  have "f (ls ! j) \<le> f (step c ls ! j)"
    using Cons.prems by (rule step)
  also have "\<dots> \<le> f (fold step cs (step c ls) ! j)"
    using Cons.prems by (intro Cons.IH) (simp add: len)
  finally show ?case by simp
qed

lemma spanning_lines_homogeneous_mono:
  assumes "homogeneous ld" "j < length ls"
  shows "minimum (ls ! j) \<le> minimum (spanning_lines ld L a cm cn ls ! j)"
    and "natural (ls ! j) \<le> natural (spanning_lines ld L a cm cn ls ! j)"
proof -
  define idx where "idx = map (line_index L a) [0..<nat (span a)]"
  define m where "m = c_div (cm - (span a - 1) * spacing ld) (span a)
      + (if c_mod (cm - (span a - 1) * spacing ld) (span a) \<noteq> 0 then 1 else 0)"
  define n where "n = c_div (cn - (span a - 1) * spacing ld) (span a)
      + (if c_mod (cn - (span a - 1) * spacing ld) (span a) \<noteq> 0 then 1 else 0)"
  define c1 where "c1 = (fold (\<lambda>i s. s + minimum (ls ! i)) idx ((span a - 1) * spacing ld) < cm)"
  define c2 where "c2 = (fold (\<lambda>i s. s + natural (ls ! i)) idx ((span a - 1) * spacing ld) < cn)"
  define ls1 where "ls1 = (if c1 then fold (\<lambda>i. line_update i (\<lambda>line. line\<lparr>minimum := max (minimum line) m\<rparr>)) idx ls else ls)"
  define ls2 where "ls2 = (if c2 then fold (\<lambda>i. line_update i (\<lambda>line. line\<lparr>natural := max (natural line) n\<rparr>)) idx ls1 else ls1)"
  have eq: "spanning_lines ld L a cm cn ls = ls2"
    using assms(1)
    by (simp add: spanning_lines_def Let_def idx_def m_def n_def c1_def c2_def ls1_def ls2_def
        del: fold.simps)
  have len1: "length ls1 = length ls" by (simp add: ls1_def del: fold.simps)
  have a1: "minimum (ls ! j) \<le> minimum (ls1 ! j)"
    unfolding ls1_def using assms(2) by (auto intro: fold_line_update_mono simp del: fold.simps)
  have a2: "minimum (ls1 ! j) \<le> minimum (ls2 ! j)"
    unfolding ls2_def using assms(2) len1 by (auto intro: fold_line_update_mono simp del: fold.simps)
  have b1: "natural (ls ! j) \<le> natural (ls1 ! j)"
    unfolding ls1_def using assms(2) by (auto intro: fold_line_update_mono simp del: fold.simps)
  have b2: "natural (ls1 ! j) \<le> natural (ls2 ! j)"
    unfolding ls2_def using assms(2) len1 by (auto intro: fold_line_update_mono simp del: fold.simps)
  from a1 a2 show "minimum (ls ! j) \<le> minimum (spanning_lines ld L a cm cn ls ! j)"
    unfolding eq by simp
  from b1 b2 show "natural (ls ! j) \<le> natural (spanning_lines ld L a cm cn ls ! j)"
    unfolding eq by simp
qed

lemma spanning_child_homogeneous_mono:
  assumes "homogeneous (linedata (grid request) orientation)" "j < length ls"
  shows "minimum (ls ! j) \<le> minimum (spanning_child request orientation contextual child ls ! j)"
    and "natural (ls ! j) \<le> natural (spanning_child request orientation contextual child ls ! j)"
  using assms
  by (auto simp add: spanning_child_def Let_def spanning_lines_homogeneous_mono split: prod.splits)

lemma Max_insert_0:
  fixes A :: "int set"
  assumes "finite A" "x \<in> A" "0 \<le> x"
  shows "Max (insert 0 A) = Max A"
proof -
  from assms have "A \<noteq> {}" by auto
  with assms(1) have "Max (insert 0 A) = max 0 (Max A)" by (rule Max_insert)
  moreover from assms have "0 \<le> Max A" by (meson Max_ge order_trans)
  ultimately show ?thesis by simp
qed

text \<open>
  Claim C2. In an orientation with \<open>homogeneous\<close> set, on a request whose array of lines
  has the length \<open>lines_max - lines_min\<close> the callers give it, every line has after
  \<^verbatim>\<open>gtk_grid_request_run\<close> the same minimum and the same natural size: the maximum of
  the line minimums, and of the line naturals, as they stand before the last homogeneous
  clamp (that is, after the spanning pass).
\<close>

theorem homogeneous_run_equal_lines:
  fixes request :: GtkGridRequest and orientation :: GtkOrientation and contextual :: bool
  defines "pre \<equiv> lines (request_lines
      (gtk_grid_request_spanning
         (gtk_grid_request_homogeneous
            (gtk_grid_request_non_spanning (gtk_grid_request_init request orientation)
               orientation contextual)
            orientation)
         orientation contextual)
      orientation)"
    and "post \<equiv> lines (request_lines (gtk_grid_request_run request orientation contextual) orientation)"
  assumes hom: "homogeneous (linedata (grid request) orientation)"
    and len: "length (lines (request_lines request orientation))
         = nat (lines_max (request_lines request orientation) - lines_min (request_lines request orientation))"
  shows "length post = length pre
       \<and> (\<forall>i<length post. minimum (post ! i) = Max (set (map minimum pre))
                          \<and> natural (post ! i) = Max (set (map natural pre)))"
proof -
  define X where "X = gtk_grid_request_non_spanning (gtk_grid_request_init request orientation)
               orientation contextual"
  define H1 where "H1 = gtk_grid_request_homogeneous X orientation"
  define P where "P = gtk_grid_request_spanning H1 orientation contextual"
  have pre: "pre = lines (request_lines P orientation)"
    by (simp add: pre_def P_def H1_def X_def)
  have post: "post = lines (request_lines (gtk_grid_request_homogeneous P orientation) orientation)"
    by (simp add: post_def gtk_grid_request_run_def Let_def P_def H1_def X_def)
  have homX: "homogeneous (linedata (grid X) orientation)"
    using hom by (simp add: X_def)
  have lenX: "length (lines (request_lines X orientation))
         = nat (lines_max (request_lines X orientation) - lines_min (request_lines X orientation))"
    using len by (simp add: X_def)
  define m1 where "m1 = Max (insert 0 (minimum ` set (lines (request_lines X orientation))))"
  define n1 where "n1 = Max (insert 0 (natural ` set (lines (request_lines X orientation))))"
  have h1: "lines (request_lines H1 orientation)
      = map (\<lambda>line. line\<lparr>minimum := m1, natural := n1\<rparr>) (lines (request_lines X orientation))"
    unfolding H1_def m1_def n1_def using homX lenX by (rule homogeneous_lines)
  have m1: "0 \<le> m1" by (simp add: m1_def)
  have n1: "0 \<le> n1" by (simp add: n1_def)
  have homH: "homogeneous (linedata (grid H1) orientation)"
    using homX by (simp add: H1_def)
  have lenP: "length pre = length (lines (request_lines H1 orientation))"
    by (simp add: pre P_def)
  have mono: "minimum (lines (request_lines H1 orientation) ! j) \<le> minimum (pre ! j)
      \<and> natural (lines (request_lines H1 orientation) ! j) \<le> natural (pre ! j)"
    if "j < length pre" for j
  proof -
    from that lenP have j: "j < length (lines (request_lines H1 orientation))" by simp
    have "minimum (lines (request_lines H1 orientation) ! j)
        \<le> minimum (fold (spanning_child H1 orientation contextual) (children (grid H1))
              (lines (request_lines H1 orientation)) ! j)"
      by (rule fold_step_mono [where f = minimum, OF _ _ j])
         (simp_all add: spanning_child_homogeneous_mono homH)
    moreover have "natural (lines (request_lines H1 orientation) ! j)
        \<le> natural (fold (spanning_child H1 orientation contextual) (children (grid H1))
              (lines (request_lines H1 orientation)) ! j)"
      by (rule fold_step_mono [where f = natural, OF _ _ j])
         (simp_all add: spanning_child_homogeneous_mono homH)
    ultimately show ?thesis
      by (simp add: pre P_def gtk_grid_request_spanning_def del: fold.simps)
  qed
  have nonneg: "0 \<le> minimum (pre ! j) \<and> 0 \<le> natural (pre ! j)" if "j < length pre" for j
  proof -
    from that lenP have "j < length (lines (request_lines X orientation))"
      by (simp add: h1)
    then have "minimum (lines (request_lines H1 orientation) ! j) = m1"
      "natural (lines (request_lines H1 orientation) ! j) = n1"
      by (simp_all add: h1)
    with mono [OF that] m1 n1 show ?thesis by simp
  qed
  have homP: "homogeneous (linedata (grid P) orientation)"
    using homH by (simp add: P_def)
  have lenPP: "length (lines (request_lines P orientation))
         = nat (lines_max (request_lines P orientation) - lines_min (request_lines P orientation))"
    using lenX by (simp add: P_def H1_def)
  have p: "post = map (\<lambda>line. line\<lparr>minimum := Max (insert 0 (minimum ` set pre)),
                                   natural := Max (insert 0 (natural ` set pre))\<rparr>) pre"
    unfolding post pre using homP lenPP by (rule homogeneous_lines)
  have "minimum (post ! i) = Max (set (map minimum pre))
        \<and> natural (post ! i) = Max (set (map natural pre))" if i: "i < length post" for i
  proof -
    from i p have ip: "i < length pre" by simp
    then have mem: "pre ! i \<in> set pre" by simp
    have "Max (insert 0 (minimum ` set pre)) = Max (minimum ` set pre)"
      using nonneg [OF ip] mem by (intro Max_insert_0 [where x = "minimum (pre ! i)"]) simp_all
    moreover have "Max (insert 0 (natural ` set pre)) = Max (natural ` set pre)"
      using nonneg [OF ip] mem by (intro Max_insert_0 [where x = "natural (pre ! i)"]) simp_all
    ultimately show ?thesis
      using ip by (simp add: p)
  qed
  moreover have "length post = length pre"
    by (simp add: p)
  ultimately show ?thesis
    by blast
qed


text \<open>
  Witness of C2: before the last clamp the three columns have the minimums 25, 25, 10;
  after the run each has 25.
\<close>

theorem homogeneous_run_equal_lines_witness:
  "homogeneous (linedata (grid homogeneous_request) GTK_ORIENTATION_HORIZONTAL)
   \<and> map minimum (lines (request_lines
        (gtk_grid_request_spanning
           (gtk_grid_request_homogeneous
              (gtk_grid_request_non_spanning
                 (gtk_grid_request_init homogeneous_request GTK_ORIENTATION_HORIZONTAL)
                 GTK_ORIENTATION_HORIZONTAL False)
              GTK_ORIENTATION_HORIZONTAL)
           GTK_ORIENTATION_HORIZONTAL False)
        GTK_ORIENTATION_HORIZONTAL)) = [25, 25, 10]
   \<and> minimum (lines (request_lines
        (gtk_grid_request_run homogeneous_request GTK_ORIENTATION_HORIZONTAL False)
        GTK_ORIENTATION_HORIZONTAL) ! 0) = 25
   \<and> minimum (lines (request_lines
        (gtk_grid_request_run homogeneous_request GTK_ORIENTATION_HORIZONTAL False)
        GTK_ORIENTATION_HORIZONTAL) ! 2) = 25
   \<and> natural (lines (request_lines
        (gtk_grid_request_run homogeneous_request GTK_ORIENTATION_HORIZONTAL False)
        GTK_ORIENTATION_HORIZONTAL) ! 2) = 25"
proof -
  let ?H = GTK_ORIENTATION_HORIZONTAL
  let ?pre = "lines (request_lines
        (gtk_grid_request_spanning
           (gtk_grid_request_homogeneous
              (gtk_grid_request_non_spanning
                 (gtk_grid_request_init homogeneous_request ?H) ?H False) ?H) ?H False) ?H)"
  let ?post = "lines (request_lines (gtk_grid_request_run homogeneous_request ?H False) ?H)"
  have hom: "homogeneous (linedata (grid homogeneous_request) ?H)" by code_simp
  have len: "length (lines (request_lines homogeneous_request ?H))
      = nat (lines_max (request_lines homogeneous_request ?H)
             - lines_min (request_lines homogeneous_request ?H))"
    by code_simp
  have pm: "map minimum ?pre = [25, 25, 10]" by code_simp
  have pn: "map natural ?pre = [25, 25, 10]" by code_simp
  have l3: "length ?pre = 3"
    using arg_cong [OF pm, of length] by simp
  note inst = homogeneous_run_equal_lines [OF hom len, of False, unfolded pm pn]
  from inst l3 have all: "\<forall>i<3. minimum (?post ! i) = 25 \<and> natural (?post ! i) = 25"
    by simp
  from all [rule_format, of 0] all [rule_format, of 2] hom pm show ?thesis
    by simp
qed


subsection \<open>Space beyond the natural sizes\<close>

lemma collect_sizes:
  "fold (collect_size ls) idx (s, acc)
     = (s - (\<Sum>i\<leftarrow>filled_lines ls idx. minimum (ls ! i)),
        acc @ map (\<lambda>i. \<lparr> minimum_size = minimum (ls ! i), natural_size = natural (ls ! i) \<rparr>)
                (filled_lines ls idx))"
  by (induction idx arbitrary: s acc) (simp_all add: collect_size_def filled_lines_def Let_def)

lemma line_update_twice:
  "line_update i g (line_update i f ls) = line_update i (\<lambda>l. g (f l)) ls"
  by (cases "i < length ls") (simp_all add: line_update_def not_less list_update_beyond)

lemma line_update_nth_any:
  "line_update i f ls ! a = (if a = i \<and> i < length ls then f (ls ! a) else ls ! a)"
  by (cases "i < length ls") (auto simp add: line_update_def not_less list_update_beyond nth_list_update)

lemma assign_allocations_Cons:
  "assign_allocations sizes extra (i # idx) j rest ls =
     (if empty (ls ! i) then assign_allocations sizes extra idx j rest ls
      else assign_allocations sizes extra idx (Suc j)
             (if expand (ls ! i) \<and> rest > 0 then rest - 1 else rest)
             (line_update i (assigned sizes extra j rest) ls))"
proof (cases "i < length ls")
  case True
  then show ?thesis
    by (simp add: Let_def line_update_def assigned_def add.assoc)
next
  case False
  then have "line_update i f ls = ls" for f
    by (simp add: line_update_def not_less list_update_beyond)
  then show ?thesis
    by (simp add: Let_def)
qed


lemma assigned_fields [simp]:
  "empty (assigned sizes extra j rest line) = empty line"
  "expand (assigned sizes extra j rest line) = expand line"
  "minimum (assigned sizes extra j rest line) = minimum line"
  "natural (assigned sizes extra j rest line) = natural line"
  "minimum_above (assigned sizes extra j rest line) = minimum_above line"
  "minimum_below (assigned sizes extra j rest line) = minimum_below line"
  by (simp_all add: assigned_def)

lemma filled_lines_cong:
  assumes "\<forall>a\<in>set idx. empty (ls' ! a) = empty (ls ! a)"
  shows "filled_lines ls' idx = filled_lines ls idx"
  unfolding filled_lines_def using assms by (intro filter_cong) auto

lemma filled_lines_update [simp]:
  assumes "\<And>l. empty (f l) = empty l"
  shows "filled_lines (line_update i f ls) idx = filled_lines ls idx"
proof (rule filled_lines_cong, rule ballI)
  fix a
  show "empty (line_update i f ls ! a) = empty (ls ! a)"
    by (simp add: line_update_nth_any assms)
qed

lemma assign_allocations_length [simp]:
  "length (assign_allocations sizes extra idx j rest ls) = length ls"
proof (induction idx arbitrary: j rest ls)
  case Nil
  show ?case by simp
next
  case (Cons i idx)
  show ?case
    unfolding assign_allocations_Cons by (simp add: Cons.IH)
qed

lemma assign_allocations_field:
  assumes "\<And>v l. f (l\<lparr>allocation := v\<rparr>) = f l" "i < length ls"
  shows "f (assign_allocations sizes extra idx j rest ls ! i) = f (ls ! i)"
  using assms(2)
proof (induction idx arbitrary: j rest ls)
  case Nil
  then show ?case by simp
next
  case (Cons a idx)
  have "f (assigned sizes extra j rest l) = f l" for l
    by (simp add: assigned_def assms(1))
  then have "f (line_update a (assigned sizes extra j rest) ls ! i) = f (ls ! i)"
    using Cons.prems by (simp add: line_update_nth)
  with Cons show ?case
    unfolding assign_allocations_Cons by simp
qed

lemma assign_allocations_other:
  assumes "i \<notin> set (filled_lines ls idx)" "i < length ls"
  shows "assign_allocations sizes extra idx j rest ls ! i = ls ! i"
  using assms
proof (induction idx arbitrary: j rest ls)
  case Nil
  then show ?case by simp
next
  case (Cons a idx)
  show ?case
  proof (cases "empty (ls ! a)")
    case True
    with Cons show ?thesis
      unfolding assign_allocations_Cons by (simp add: filled_lines_def)
  next
    case False
    with Cons.prems have ne: "i \<noteq> a" and rest: "i \<notin> set (filled_lines ls idx)"
      by (simp_all add: filled_lines_def)
    let ?ls1 = "line_update a (assigned sizes extra j rest) ls"
    have "assign_allocations sizes extra idx (Suc j)
             (if expand (ls ! a) \<and> rest > 0 then rest - 1 else rest) ?ls1 ! i = ?ls1 ! i"
      using rest Cons.prems(2) by (intro Cons.IH) simp_all
    also have "?ls1 ! i = ls ! i"
      using ne Cons.prems(2) by (simp add: line_update_nth)
    finally show ?thesis
      unfolding assign_allocations_Cons using False by simp
  qed
qed

text \<open>
  The allocation of the \<open>t\<close>-th line that is not empty: its entry of \<open>sizes\<close>, and for an
  expanding line \<open>extra\<close> and one unit of \<open>rest\<close> while fewer than \<open>rest\<close> expanding lines
  came before it.
\<close>

lemma assign_allocations_nth:
  assumes "distinct idx" "\<forall>a\<in>set idx. a < length ls" "t < length (filled_lines ls idx)"
  shows "allocation (assign_allocations sizes extra idx j rest ls ! (filled_lines ls idx ! t))
     = minimum_size (sizes ! (j + t))
       + (if expand (ls ! (filled_lines ls idx ! t))
          then extra + (if int (length (filter (\<lambda>i. expand (ls ! i)) (take t (filled_lines ls idx)))) < rest
                        then 1 else 0)
          else 0)"
  using assms
proof (induction idx arbitrary: j rest ls t)
  case Nil
  then show ?case by (simp add: filled_lines_def)
next
  case (Cons a idx)
  from Cons.prems have dist: "distinct idx" "a \<notin> set idx" and rng: "\<forall>a\<in>set idx. a < length ls"
    and a: "a < length ls"
    by simp_all
  show ?case
  proof (cases "empty (ls ! a)")
    case True
    then have f: "filled_lines ls (a # idx) = filled_lines ls idx"
      by (simp add: filled_lines_def)
    from Cons.prems(3) f have t: "t < length (filled_lines ls idx)" by simp
    from Cons.IH [OF dist(1) rng t] True show ?thesis
      unfolding assign_allocations_Cons f by simp
  next
    case False
    then have f: "filled_lines ls (a # idx) = a # filled_lines ls idx"
      by (simp add: filled_lines_def)
    let ?ls1 = "line_update a (assigned sizes extra j rest) ls"
    let ?rest1 = "if expand (ls ! a) \<and> rest > 0 then rest - 1 else rest"
    have f1: "filled_lines ?ls1 idx = filled_lines ls idx"
      by simp
    have step: "assign_allocations sizes extra (a # idx) j rest ls
        = assign_allocations sizes extra idx (Suc j) ?rest1 ?ls1"
      unfolding assign_allocations_Cons using False by simp
    have rng1: "\<forall>a\<in>set idx. a < length ?ls1" using rng by simp
    show ?thesis
    proof (cases t)
      case 0
      have "a \<notin> set (filled_lines ?ls1 idx)"
        using dist(2) by (simp add: filled_lines_def)
      then have "assign_allocations sizes extra idx (Suc j) ?rest1 ?ls1 ! a = ?ls1 ! a"
        using a by (intro assign_allocations_other) simp_all
      also have "?ls1 ! a = assigned sizes extra j rest (ls ! a)"
        using a by (simp add: line_update_nth)
      finally show ?thesis
        unfolding step f using 0 by (simp add: assigned_def)
    next
      case (Suc t')
      with Cons.prems(3) f have t': "t' < length (filled_lines ls idx)" by simp
      then have mem: "filled_lines ls idx ! t' \<in> set idx"
        unfolding filled_lines_def by (metis filter_is_subset nth_mem subsetD)
      with dist(2) have ne: "filled_lines ls idx ! t' \<noteq> a" by auto
      from mem rng have lt: "filled_lines ls idx ! t' < length ls" by simp
      have exp1: "expand (?ls1 ! i) = expand (ls ! i)" if "i < length ls" for i
        using that by (simp add: line_update_nth)
      have filt: "filter (\<lambda>i. expand (?ls1 ! i)) (take t' (filled_lines ls idx))
          = filter (\<lambda>i. expand (ls ! i)) (take t' (filled_lines ls idx))"
      proof (rule filter_cong [OF refl])
        fix x assume "x \<in> set (take t' (filled_lines ls idx))"
        then have "x \<in> set idx"
          unfolding filled_lines_def by (meson filter_is_subset in_set_takeD subsetD)
        with rng show "expand (?ls1 ! x) = expand (ls ! x)"
          by (simp add: exp1)
      qed
      note IH = Cons.IH [OF dist(1) rng1, of t' "Suc j" ?rest1, unfolded f1, OF t', unfolded filt]
      have count: "(int (length (filter (\<lambda>i. expand (ls ! i)) (take t' (filled_lines ls idx)))) < ?rest1)
          = (int (length (filter (\<lambda>i. expand (ls ! i)) (take (Suc t') (a # filled_lines ls idx)))) < rest)"
        by auto
      show ?thesis
        unfolding step f Suc using IH count lt by (simp add: exp1)
    qed
  qed
qed

lemma distribute_non_homogeneous_eq:
  assumes "nonempty \<noteq> 0"
    and "dna (max 0 (size0 - (\<Sum>i\<leftarrow>filled_lines (lines L) (window_lines L mn mx). minimum (lines L ! i))))
           (map (\<lambda>i. \<lparr> minimum_size = minimum (lines L ! i), natural_size = natural (lines L ! i) \<rparr>)
              (filled_lines (lines L) (window_lines L mn mx))) = (size2, sizes')"
  shows "gtk_grid_distribute_non_homogeneous dna L nonempty ec size0 mn mx
     = L\<lparr>lines := assign_allocations sizes' (if ec > 0 then c_div size2 ec else 0)
                     (window_lines L mn mx) 0 (if ec > 0 then c_mod size2 ec else 0) (lines L)\<rparr>"
  using assms
  by (simp add: gtk_grid_distribute_non_homogeneous_def Let_def collect_sizes
      window_lines_def [symmetric] del: fold.simps assign_allocations.simps)

lemma filter_nth_position:
  assumes "k < length (filter P xs)"
  shows "\<exists>t<length xs. xs ! t = filter P xs ! k \<and> filter P (take t xs) = take k (filter P xs)"
  using assms
proof (induction xs arbitrary: k)
  case Nil
  then show ?case by simp
next
  case (Cons x xs)
  show ?case
  proof (cases "P x")
    case False
    with Cons.prems have "k < length (filter P xs)" by simp
    from Cons.IH [OF this] obtain t where "t < length xs" "xs ! t = filter P xs ! k"
      "filter P (take t xs) = take k (filter P xs)" by blast
    with False have "Suc t < length (x # xs) \<and> (x # xs) ! Suc t = filter P (x # xs) ! k
        \<and> filter P (take (Suc t) (x # xs)) = take k (filter P (x # xs))"
      by simp
    then show ?thesis by blast
  next
    case True
    show ?thesis
    proof (cases k)
      case 0
      with True have "0 < length (x # xs) \<and> (x # xs) ! 0 = filter P (x # xs) ! k
        \<and> filter P (take 0 (x # xs)) = take k (filter P (x # xs))"
        by simp
      then show ?thesis by blast
    next
      case (Suc k')
      with Cons.prems True have "k' < length (filter P xs)" by simp
      from Cons.IH [OF this] obtain t where "t < length xs" "xs ! t = filter P xs ! k'"
        "filter P (take t xs) = take k' (filter P xs)" by blast
      with True Suc have "Suc t < length (x # xs) \<and> (x # xs) ! Suc t = filter P (x # xs) ! k
        \<and> filter P (take (Suc t) (x # xs)) = take k (filter P (x # xs))"
        by simp
      then show ?thesis by blast
    qed
  qed
qed

lemma contract_unfold:
  assumes "natural_allocation_contract dna" "0 \<le> e" "dna e sizes = (rest, out)"
  shows "length out = length sizes \<and> 0 \<le> rest
           \<and> (\<forall>j<length sizes. minimum_size (sizes ! j) \<le> minimum_size (out ! j))
           \<and> ((\<forall>j<length sizes. minimum_size (sizes ! j) \<le> natural_size (sizes ! j))
                \<and> (\<Sum>s\<leftarrow>sizes. natural_size s - minimum_size s) \<le> e
                \<longrightarrow> map minimum_size out = map natural_size sizes
                    \<and> rest = e - (\<Sum>s\<leftarrow>sizes. natural_size s - minimum_size s))"
proof -
  from assms(1) have "0 \<le> e \<longrightarrow>
     (case dna e sizes of (rest, out) \<Rightarrow>
           length out = length sizes \<and> 0 \<le> rest
           \<and> (\<forall>j<length sizes. minimum_size (sizes ! j) \<le> minimum_size (out ! j))
           \<and> ((\<forall>j<length sizes. minimum_size (sizes ! j) \<le> natural_size (sizes ! j))
                \<and> (\<Sum>s\<leftarrow>sizes. natural_size s - minimum_size s) \<le> e
                \<longrightarrow> map minimum_size out = map natural_size sizes
                    \<and> rest = e - (\<Sum>s\<leftarrow>sizes. natural_size s - minimum_size s)))"
    unfolding natural_allocation_contract_def by (elim allE)
  with assms(2) show ?thesis
    unfolding assms(3) by simp
qed

lemma contract_basic:
  assumes "natural_allocation_contract dna" "0 \<le> e" "dna e sizes = (rest, out)"
  shows "length out = length sizes" "0 \<le> rest"
    "j < length sizes \<Longrightarrow> minimum_size (sizes ! j) \<le> minimum_size (out ! j)"
  using contract_unfold [OF assms] by simp_all

lemma contract_saturated:
  assumes "natural_allocation_contract dna" "0 \<le> e" "dna e sizes = (rest, out)"
    and "\<forall>j<length sizes. minimum_size (sizes ! j) \<le> natural_size (sizes ! j)"
    and "(\<Sum>s\<leftarrow>sizes. natural_size s - minimum_size s) \<le> e"
  shows "map minimum_size out = map natural_size sizes"
    "rest = e - (\<Sum>s\<leftarrow>sizes. natural_size s - minimum_size s)"
  using contract_unfold [OF assms(1,2,3)] assms(4,5) by simp_all

lemma slack_nonneg: "0 \<le> slack s"
  by (simp add: slack_def)

lemma sum_list_div_le:
  fixes f :: "'a \<Rightarrow> int"
  assumes "0 < t"
  shows "(\<Sum>x\<leftarrow>xs. f x div t) * t \<le> (\<Sum>x\<leftarrow>xs. f x)"
proof (induction xs)
  case Nil
  show ?case by simp
next
  case (Cons x xs)
  have "f x div t * t + f x mod t = f x" by simp
  moreover have "0 \<le> f x mod t" using assms by simp
  ultimately have "f x div t * t \<le> f x" by linarith
  with Cons show ?case
    by (simp add: distrib_right)
qed

lemma proportional_shares_le:
  assumes "0 \<le> e" "e < (\<Sum>s\<leftarrow>sizes. slack s)"
  shows "(\<Sum>s\<leftarrow>sizes. (e * slack s) div (\<Sum>s\<leftarrow>sizes. slack s)) \<le> e"
proof -
  let ?t = "\<Sum>s\<leftarrow>sizes. slack s"
  have t: "0 < ?t" using assms by simp
  have "(\<Sum>s\<leftarrow>sizes. (e * slack s) div ?t) * ?t \<le> (\<Sum>s\<leftarrow>sizes. e * slack s)"
    using t by (rule sum_list_div_le)
  also have "\<dots> = e * ?t"
    by (simp add: sum_list_const_mult)
  finally show ?thesis
    using t by simp
qed

lemma model_contract_aux:
  assumes e: "0 \<le> e"
  shows "case distribute_natural_allocation_model e sizes of (rest, out) \<Rightarrow>
      length out = length sizes \<and> 0 \<le> rest
      \<and> (\<forall>j<length sizes. minimum_size (sizes ! j) \<le> minimum_size (out ! j))
      \<and> ((\<forall>j<length sizes. minimum_size (sizes ! j) \<le> natural_size (sizes ! j))
           \<and> (\<Sum>s\<leftarrow>sizes. natural_size s - minimum_size s) \<le> e
           \<longrightarrow> map minimum_size out = map natural_size sizes
               \<and> rest = e - (\<Sum>s\<leftarrow>sizes. natural_size s - minimum_size s))"
proof -
  define total where "total = (\<Sum>s\<leftarrow>sizes. slack s)"
  define share where "share = (\<lambda>s. if total \<le> e then slack s else (e * slack s) div total)"
  define out where "out = map (\<lambda>s. s\<lparr>minimum_size := minimum_size s + share s\<rparr>) sizes"
  have m: "distribute_natural_allocation_model e sizes = (e - (\<Sum>s\<leftarrow>sizes. share s), out)"
    unfolding distribute_natural_allocation_model_def Let_def total_def share_def out_def ..
  have sh: "0 \<le> share s" for s
  proof (cases "total \<le> e")
    case True
    then show ?thesis by (simp add: share_def slack_nonneg)
  next
    case False
    with e have "0 < total" by simp
    moreover have "0 \<le> e * slack s" using e by (simp add: slack_nonneg)
    ultimately have "0 \<le> (e * slack s) div total"
      by (simp add: pos_imp_zdiv_nonneg_iff)
    with False show ?thesis by (simp add: share_def)
  qed
  have rest: "(\<Sum>s\<leftarrow>sizes. share s) \<le> e"
  proof (cases "total \<le> e")
    case True
    then show ?thesis by (simp add: share_def total_def)
  next
    case False
    then have "e < (\<Sum>s\<leftarrow>sizes. slack s)" by (simp add: total_def)
    from proportional_shares_le [OF e this] False show ?thesis
      by (simp add: share_def total_def)
  qed
  have mono: "\<forall>j<length sizes. minimum_size (sizes ! j) \<le> minimum_size (out ! j)"
    by (simp add: out_def sh)
  have sat: "map minimum_size out = map natural_size sizes
               \<and> e - (\<Sum>s\<leftarrow>sizes. share s) = e - (\<Sum>s\<leftarrow>sizes. natural_size s - minimum_size s)"
    if h: "\<forall>j<length sizes. minimum_size (sizes ! j) \<le> natural_size (sizes ! j)"
      "(\<Sum>s\<leftarrow>sizes. natural_size s - minimum_size s) \<le> e"
  proof -
    have sl: "slack s = natural_size s - minimum_size s" if "s \<in> set sizes" for s
      using that h(1) by (auto simp add: slack_def in_set_conv_nth)
    then have "(\<Sum>s\<leftarrow>sizes. slack s) = (\<Sum>s\<leftarrow>sizes. natural_size s - minimum_size s)"
      by (intro arg_cong [where f = sum_list] map_cong) simp_all
    with h(2) have te: "total \<le> e" and tt: "total = (\<Sum>s\<leftarrow>sizes. natural_size s - minimum_size s)"
      by (simp_all add: total_def)
    have shs: "share s = natural_size s - minimum_size s" if "s \<in> set sizes" for s
      using that te by (simp add: share_def sl)
    then have "(\<Sum>s\<leftarrow>sizes. share s) = (\<Sum>s\<leftarrow>sizes. natural_size s - minimum_size s)"
      by (intro arg_cong [where f = sum_list] map_cong) simp_all
    moreover have "map minimum_size out = map natural_size sizes"
      by (simp add: out_def shs)
    ultimately show ?thesis by simp
  qed
  from rest have "0 \<le> e - (\<Sum>s\<leftarrow>sizes. share s)" by simp
  moreover have "length out = length sizes" by (simp add: out_def)
  ultimately show ?thesis
    unfolding m prod.case using mono sat by blast
qed

lemma model_contract: "natural_allocation_contract distribute_natural_allocation_model"
  unfolding natural_allocation_contract_def by (intro allI impI) (rule model_contract_aux)

lemma window_lines_facts:
  assumes "nat (mx - lines_min L) \<le> length ls"
  shows "distinct (window_lines L mn mx)" "\<forall>a\<in>set (window_lines L mn mx). a < length ls"
  using assms by (auto simp add: window_lines_def)

lemma sum_list_map_diff:
  fixes f g :: "'a \<Rightarrow> int"
  shows "(\<Sum>x\<leftarrow>xs. f x - g x) = (\<Sum>x\<leftarrow>xs. f x) - (\<Sum>x\<leftarrow>xs. g x)"
  by (induction xs) simp_all

text \<open>The distribution when the size covers the natural sizes of the lines that are not empty.\<close>

lemma distribute_beyond_natural:
  fixes L :: GtkGridLines and mn mx nonempty expand_count size0 :: int and dna :: natural_allocation
  defines "ls \<equiv> lines L"
  defines "ne \<equiv> filled_lines ls (window_lines L mn mx)"
  defines "ex \<equiv> expanding_lines ls (window_lines L mn mx)"
  defines "L' \<equiv> gtk_grid_distribute_non_homogeneous dna L nonempty expand_count size0 mn mx"
  assumes contract: "natural_allocation_contract dna"
    and nonempty: "nonempty \<noteq> 0"
    and rng: "nat (mx - lines_min L) \<le> length ls"
    and nat: "\<forall>i\<in>set ne. minimum (ls ! i) \<le> natural (ls ! i)"
    and fits: "(\<Sum>i\<leftarrow>ne. natural (ls ! i)) \<le> size0"
    and cnt: "expand_count = int (length ex)"
  shows "length (lines L') = length ls"
    and "\<forall>i\<in>set ne. \<not> expand (ls ! i) \<longrightarrow> allocation (lines L' ! i) = natural (ls ! i)"
    and "\<forall>k<length ex. allocation (lines L' ! (ex ! k))
           = natural (ls ! (ex ! k)) + spec_share (size0 - (\<Sum>i\<leftarrow>ne. natural (ls ! i))) expand_count k"
proof -
  let ?w = "window_lines L mn mx"
  define sizes where "sizes = map (\<lambda>i. \<lparr> minimum_size = minimum (ls ! i), natural_size = natural (ls ! i) \<rparr>) ne"
  define size1 where "size1 = size0 - (\<Sum>i\<leftarrow>ne. minimum (ls ! i))"
  define surplus where "surplus = size0 - (\<Sum>i\<leftarrow>ne. natural (ls ! i))"
  obtain size2 sizes' where d: "dna (max 0 size1) sizes = (size2, sizes')"
    by (cases "dna (max 0 size1) sizes") auto
  have gaps: "(\<Sum>s\<leftarrow>sizes. natural_size s - minimum_size s)
      = (\<Sum>i\<leftarrow>ne. natural (ls ! i)) - (\<Sum>i\<leftarrow>ne. minimum (ls ! i))"
    by (simp add: sizes_def comp_def sum_list_map_diff)
  have gap0: "0 \<le> (\<Sum>s\<leftarrow>sizes. natural_size s - minimum_size s)"
    using nat by (intro sum_list_nonneg) (auto simp add: sizes_def)
  have s1: "(\<Sum>s\<leftarrow>sizes. natural_size s - minimum_size s) \<le> size1"
    using fits by (simp add: gaps size1_def)
  with gap0 have m: "max 0 size1 = size1" by simp
  have natj: "\<forall>j<length sizes. minimum_size (sizes ! j) \<le> natural_size (sizes ! j)"
    using nat by (simp add: sizes_def)
  have s10: "0 \<le> size1" using s1 gap0 by simp
  note sat = contract_saturated [OF contract s10 d [unfolded m] natj s1]
  have size2: "size2 = surplus"
    using sat(2) by (simp add: gaps size1_def surplus_def)
  have sur0: "0 \<le> surplus" using fits by (simp add: surplus_def)
  have len': "length sizes' = length ne"
    using arg_cong [OF sat(1), of length] by (simp add: sizes_def)
  have sz: "minimum_size (sizes' ! t) = natural (ls ! (ne ! t))" if "t < length ne" for t
  proof -
    have "minimum_size (sizes' ! t) = map minimum_size sizes' ! t"
      using that len' by simp
    also have "\<dots> = map natural_size sizes ! t"
      by (simp add: sat(1))
    also have "\<dots> = natural (ls ! (ne ! t))"
      using that by (simp add: sizes_def)
    finally show ?thesis .
  qed
  define extra where "extra = (if expand_count > 0 then c_div size2 expand_count else 0)"
  define rest where "rest = (if expand_count > 0 then c_mod size2 expand_count else 0)"
  have L': "L' = L\<lparr>lines := assign_allocations sizes' extra ?w 0 rest ls\<rparr>"
    unfolding L'_def extra_def rest_def ls_def
    by (rule distribute_non_homogeneous_eq [OF nonempty])
       (use d in \<open>simp add: size1_def sizes_def ne_def ls_def\<close>)
  show "length (lines L') = length ls"
    by (simp add: L')
  note w = window_lines_facts [OF rng, of mn]
  have alloc: "allocation (lines L' ! (ne ! t))
     = natural (ls ! (ne ! t))
       + (if expand (ls ! (ne ! t))
          then extra + (if int (length (filter (\<lambda>i. expand (ls ! i)) (take t ne))) < rest then 1 else 0)
          else 0)" if t: "t < length ne" for t
    using assign_allocations_nth [OF w, of t sizes' extra 0 rest] t sz [OF t]
    by (simp add: L' ne_def)
  show "\<forall>i\<in>set ne. \<not> expand (ls ! i) \<longrightarrow> allocation (lines L' ! i) = natural (ls ! i)"
  proof (intro ballI impI)
    fix i assume "i \<in> set ne" "\<not> expand (ls ! i)"
    then obtain t where "t < length ne" "ne ! t = i"
      by (auto simp add: in_set_conv_nth)
    with alloc [of t] \<open>\<not> expand (ls ! i)\<close> show "allocation (lines L' ! i) = natural (ls ! i)"
      by simp
  qed
  show "\<forall>k<length ex. allocation (lines L' ! (ex ! k))
           = natural (ls ! (ex ! k)) + spec_share (size0 - (\<Sum>i\<leftarrow>ne. natural (ls ! i))) expand_count k"
  proof (intro allI impI)
    fix k assume k: "k < length ex"
    have ex: "ex = filter (\<lambda>i. expand (ls ! i)) ne"
      by (simp add: ex_def ne_def expanding_lines_def)
    from k obtain t where t: "t < length ne" "ne ! t = ex ! k"
      "filter (\<lambda>i. expand (ls ! i)) (take t ne) = take k ex"
      unfolding ex using filter_nth_position [of k "\<lambda>i. expand (ls ! i)" ne] by blast
    have e: "expand (ls ! (ex ! k))"
      using k nth_mem [of k ex] unfolding ex by simp
    from k cnt have pos: "0 < expand_count" by linarith
    have "extra = surplus div expand_count" "rest = surplus mod expand_count"
      using pos sur0 by (simp_all add: extra_def rest_def size2 c_div_pos c_mod_pos)
    with alloc [OF t(1)] t e k show "allocation (lines L' ! (ex ! k))
           = natural (ls ! (ex ! k)) + spec_share (size0 - (\<Sum>i\<leftarrow>ne. natural (ls ! i))) expand_count k"
      by (simp add: spec_share_def surplus_def)
  qed
qed


lemma map_allocation_2:
  assumes "length xs = 2" "allocation (xs ! 0) = a" "allocation (xs ! 1) = b"
  shows "map allocation xs = [a, b]"
proof -
  from assms(1) obtain x y where "xs = [x, y]"
    by (cases xs; cases "tl xs") (auto simp add: numeral_2_eq_2)
  with assms(2,3) show ?thesis by simp
qed

lemma scenario_D_filled:
  "filled_lines (lines (scenario_D_lines e1 e2)) (window_lines (scenario_D_lines e1 e2) 0 2) = [0, 1]"
  by (simp add: filled_lines_def window_lines_def scenario_D_lines_def zero_line_def upt_0_2)

lemma scenario_D_nth:
  "lines (scenario_D_lines e1 e2) ! 0 = zero_line\<lparr>minimum := 10, natural := 40, expand := e1\<rparr>"
  "lines (scenario_D_lines e1 e2) ! 1 = zero_line\<lparr>minimum := 10, natural := 40, expand := e2\<rparr>"
  "lines (scenario_D_lines e1 e2) ! Suc 0 = zero_line\<lparr>minimum := 10, natural := 40, expand := e2\<rparr>"
  "length (lines (scenario_D_lines e1 e2)) = 2" "lines_min (scenario_D_lines e1 e2) = 0"
  by (simp_all add: scenario_D_lines_def)

lemma scenario_D_allocation:
  assumes contract: "natural_allocation_contract dna" and one: "e1 \<noteq> e2"
  shows "map allocation (lines (gtk_grid_distribute_non_homogeneous dna (scenario_D_lines e1 e2) 2 1 100 0 2))
     = [if e1 then 60 else 40, if e2 then 60 else 40]"
proof -
  let ?L = "scenario_D_lines e1 e2"
  let ?L' = "gtk_grid_distribute_non_homogeneous dna ?L 2 1 100 0 2"
  note ls = scenario_D_nth
  have ex: "expanding_lines (lines ?L) (window_lines ?L 0 2) = (if e1 then [0] else [1])"
    unfolding expanding_lines_def scenario_D_filled
    using one by (cases e1; cases e2) (simp_all add: ls)
  have n0: "(2::int) \<noteq> 0" by simp
  have rng: "nat (2 - lines_min ?L) \<le> length (lines ?L)" by (simp add: ls)
  have nat: "\<forall>i\<in>set (filled_lines (lines ?L) (window_lines ?L 0 2)).
      minimum (lines ?L ! i) \<le> natural (lines ?L ! i)"
    by (simp add: scenario_D_filled ls)
  have fits: "(\<Sum>i\<leftarrow>filled_lines (lines ?L) (window_lines ?L 0 2). natural (lines ?L ! i)) \<le> 100"
    by (simp add: scenario_D_filled ls)
  have cnt: "(1::int) = int (length (expanding_lines (lines ?L) (window_lines ?L 0 2)))"
    by (simp add: ex)
  note r = distribute_beyond_natural [OF contract n0 rng nat fits cnt]
  have share: "spec_share 20 1 0 = 20" by (simp add: spec_share_def)
  have len: "length (lines ?L') = 2"
    using r(1) by (simp add: ls)
  have plain: "\<not> expand (lines ?L ! i) \<Longrightarrow> allocation (lines ?L' ! i) = 40" if "i = 0 \<or> i = 1" for i
    using r(2) [unfolded scenario_D_filled] that by (auto simp add: ls)
  have grown: "allocation (lines ?L' ! (if e1 then 0 else 1)) = 60"
    using r(3) [unfolded ex scenario_D_filled] by (simp add: ls share split: if_splits)
  show ?thesis
  proof (cases e1)
    case True
    with one have e2: "\<not> e2" by simp
    from plain [of 1] e2 have "allocation (lines ?L' ! 1) = 40"
      by (simp add: ls)
    moreover from grown True have "allocation (lines ?L' ! 0) = 60"
      by simp
    ultimately have "map allocation (lines ?L') = [60, 40]"
      using len by (intro map_allocation_2)
    with True e2 show ?thesis by simp
  next
    case False
    with one have e2: "e2" by simp
    from plain [of 0] False have "allocation (lines ?L' ! 0) = 40"
      by (simp add: ls)
    moreover from grown False have "allocation (lines ?L' ! 1) = 60"
      by simp
    ultimately have "map allocation (lines ?L') = [40, 60]"
      using len by (intro map_allocation_2)
    with False e2 show ?thesis by simp
  qed
qed

text \<open>
  Claim C5. Let \<^verbatim>\<open>gtk_distribute_natural_allocation\<close> meet its contract. When
  \<^verbatim>\<open>gtk_grid_distribute_non_homogeneous\<close> is given a size that covers the natural sizes of
  the lines of its window that are not empty (each at least its minimum), with
  \<^verbatim>\<open>expand\<close> the number of expanding lines among them, then a line that does not expand
  is allocated exactly its natural size, and the \<open>k\<close>-th expanding line its natural size
  plus the quotient of the surplus by the number of expanding lines, plus one unit if \<open>k\<close>
  is below the remainder: the earliest expanding lines take the remainder. In
  scenario D (two lines with minimum 10 and natural 40, one of them expanding, size 100)
  the line that does not expand gets 40 and the expanding line 60.
\<close>

theorem distribute_surplus_to_expanding:
  fixes L :: GtkGridLines and mn mx nonempty expand_count size0 :: int and dna :: natural_allocation
  defines "ls \<equiv> lines L"
  defines "ne \<equiv> filled_lines ls (window_lines L mn mx)"
  defines "ex \<equiv> expanding_lines ls (window_lines L mn mx)"
  defines "L' \<equiv> gtk_grid_distribute_non_homogeneous dna L nonempty expand_count size0 mn mx"
  assumes contract: "natural_allocation_contract dna"
  shows "(nonempty \<noteq> 0 \<and> nat (mx - lines_min L) \<le> length ls
          \<and> (\<forall>i\<in>set ne. minimum (ls ! i) \<le> natural (ls ! i))
          \<and> (\<Sum>i\<leftarrow>ne. natural (ls ! i)) \<le> size0
          \<and> expand_count = int (length ex)
          \<longrightarrow> (\<forall>i\<in>set ne. \<not> expand (ls ! i) \<longrightarrow> allocation (lines L' ! i) = natural (ls ! i))
              \<and> (\<forall>k<length ex. allocation (lines L' ! (ex ! k))
                    = natural (ls ! (ex ! k))
                      + spec_share (size0 - (\<Sum>i\<leftarrow>ne. natural (ls ! i))) expand_count k))
       \<and> map allocation (lines (gtk_grid_distribute_non_homogeneous dna
              (scenario_D_lines True False) 2 1 100 0 2)) = [60, 40]
       \<and> map allocation (lines (gtk_grid_distribute_non_homogeneous dna
              (scenario_D_lines False True) 2 1 100 0 2)) = [40, 60]"
proof (intro conjI impI)
  assume h: "nonempty \<noteq> 0 \<and> nat (mx - lines_min L) \<le> length ls
          \<and> (\<forall>i\<in>set ne. minimum (ls ! i) \<le> natural (ls ! i))
          \<and> (\<Sum>i\<leftarrow>ne. natural (ls ! i)) \<le> size0
          \<and> expand_count = int (length ex)"
  then have h1: "nonempty \<noteq> 0" and h2: "nat (mx - lines_min L) \<le> length (lines L)"
    and h3: "\<forall>i\<in>set (filled_lines (lines L) (window_lines L mn mx)).
               minimum (lines L ! i) \<le> natural (lines L ! i)"
    and h4: "(\<Sum>i\<leftarrow>filled_lines (lines L) (window_lines L mn mx). natural (lines L ! i)) \<le> size0"
    and h5: "expand_count = int (length (expanding_lines (lines L) (window_lines L mn mx)))"
    by (simp_all add: ls_def ne_def ex_def)
  note r = distribute_beyond_natural [OF contract h1 h2 h3 h4 h5]
  show "\<forall>i\<in>set ne. \<not> expand (ls ! i) \<longrightarrow> allocation (lines L' ! i) = natural (ls ! i)"
    using r(2) by (simp add: ls_def ne_def L'_def)
  show "\<forall>k<length ex. allocation (lines L' ! (ex ! k))
                    = natural (ls ! (ex ! k))
                      + spec_share (size0 - (\<Sum>i\<leftarrow>ne. natural (ls ! i))) expand_count k"
    using r(3) by (simp add: ls_def ne_def ex_def L'_def)
next
  show "map allocation (lines (gtk_grid_distribute_non_homogeneous dna
              (scenario_D_lines True False) 2 1 100 0 2)) = [60, 40]"
    using scenario_D_allocation [OF contract, of True False] by simp
next
  show "map allocation (lines (gtk_grid_distribute_non_homogeneous dna
              (scenario_D_lines False True) 2 1 100 0 2)) = [40, 60]"
    using scenario_D_allocation [OF contract, of False True] by simp
qed


text \<open>
  Witness of C5: scenario D with the model of the natural-size allocation, which meets the
  contract.
\<close>

theorem distribute_surplus_to_expanding_witness:
  "natural_allocation_contract distribute_natural_allocation_model
   \<and> map allocation (lines (gtk_grid_distribute_non_homogeneous distribute_natural_allocation_model
          (scenario_D_lines True False) 2 1 100 0 2)) = [60, 40]
   \<and> map allocation (lines (gtk_grid_distribute_non_homogeneous distribute_natural_allocation_model
          (scenario_D_lines False True) 2 1 100 0 2)) = [40, 60]"
  using distribute_surplus_to_expanding [OF model_contract] model_contract
  by simp

text \<open>
  Counterexample to C5 as stated. In the grid above the request run leaves the columns
  with (minimum, natural) = (5, 10) and (5, 0), and the grid reports a minimum and a
  natural width of 10. Allocated a width of 10, which covers the total natural size, the
  column that does not expand gets 5 and not its natural size 10, and the expanding column
  gets 5 although nothing is left beyond the natural sizes: the minimums already use the
  whole width.
\<close>

theorem distribute_surplus_counterexample:
  "map minimum (lines (request_lines
          (gtk_grid_request_run (full_request raised_minimum_grid) GTK_ORIENTATION_HORIZONTAL False)
          GTK_ORIENTATION_HORIZONTAL)) = [5, 5]
   \<and> map natural (lines (request_lines
          (gtk_grid_request_run (full_request raised_minimum_grid) GTK_ORIENTATION_HORIZONTAL False)
          GTK_ORIENTATION_HORIZONTAL)) = [10, 0]
   \<and> snd (gtk_grid_request_sum
          (gtk_grid_request_run (full_request raised_minimum_grid) GTK_ORIENTATION_HORIZONTAL False)
          GTK_ORIENTATION_HORIZONTAL) = (10, 10, -1, -1)
   \<and> map empty (lines (request_lines
          (gtk_grid_request_allocate distribute_natural_allocation_model
             (gtk_grid_request_run (full_request raised_minimum_grid) GTK_ORIENTATION_HORIZONTAL False)
             GTK_ORIENTATION_HORIZONTAL 10 (-1))
          GTK_ORIENTATION_HORIZONTAL)) = [False, False]
   \<and> map expand (lines (request_lines
          (gtk_grid_request_allocate distribute_natural_allocation_model
             (gtk_grid_request_run (full_request raised_minimum_grid) GTK_ORIENTATION_HORIZONTAL False)
             GTK_ORIENTATION_HORIZONTAL 10 (-1))
          GTK_ORIENTATION_HORIZONTAL)) = [False, True]
   \<and> map allocation (lines (request_lines
          (gtk_grid_request_allocate distribute_natural_allocation_model
             (gtk_grid_request_run (full_request raised_minimum_grid) GTK_ORIENTATION_HORIZONTAL False)
             GTK_ORIENTATION_HORIZONTAL 10 (-1))
          GTK_ORIENTATION_HORIZONTAL)) = [5, 5]
   \<and> map allocation (lines (request_lines
          (gtk_grid_request_allocate distribute_natural_allocation_model
             (gtk_grid_request_run (full_request raised_minimum_grid) GTK_ORIENTATION_HORIZONTAL False)
             GTK_ORIENTATION_HORIZONTAL 10 (-1))
          GTK_ORIENTATION_HORIZONTAL))
       \<noteq> map natural (lines (request_lines
          (gtk_grid_request_run (full_request raised_minimum_grid) GTK_ORIENTATION_HORIZONTAL False)
          GTK_ORIENTATION_HORIZONTAL))"
  by code_simp

subsection \<open>The allocation of a spanning child\<close>

lemma fold_min_le_init:
  fixes m0 :: int
  shows "fold (\<lambda>c m. min m (f c)) cs m0 \<le> m0"
proof (induction cs arbitrary: m0)
  case Nil
  show ?case by simp
next
  case (Cons x cs)
  have "fold (\<lambda>c m. min m (f c)) cs (min m0 (f x)) \<le> min m0 (f x)" by (rule Cons.IH)
  then show ?case by simp
qed

lemma fold_min_le:
  fixes m0 :: int
  shows "c \<in> set cs \<Longrightarrow> fold (\<lambda>c m. min m (f c)) cs m0 \<le> f c"
proof (induction cs arbitrary: m0)
  case Nil
  then show ?case by simp
next
  case (Cons x cs)
  show ?case
  proof (cases "c = x")
    case True
    have "fold (\<lambda>c m. min m (f c)) cs (min m0 (f x)) \<le> min m0 (f x)" by (rule fold_min_le_init)
    with True show ?thesis by simp
  next
    case False
    with Cons.prems have "c \<in> set cs" by simp
    from Cons.IH [OF this] show ?thesis by simp
  qed
qed

lemma fold_max_ge_init:
  fixes m0 :: int
  shows "m0 \<le> fold (\<lambda>c m. max m (f c)) cs m0"
proof (induction cs arbitrary: m0)
  case Nil
  show ?case by simp
next
  case (Cons x cs)
  have "max m0 (f x) \<le> fold (\<lambda>c m. max m (f c)) cs (max m0 (f x))" by (rule Cons.IH)
  then show ?case by simp
qed

lemma fold_max_ge:
  fixes m0 :: int
  shows "c \<in> set cs \<Longrightarrow> f c \<le> fold (\<lambda>c m. max m (f c)) cs m0"
proof (induction cs arbitrary: m0)
  case Nil
  then show ?case by simp
next
  case (Cons x cs)
  show ?case
  proof (cases "c = x")
    case True
    have "max m0 (f x) \<le> fold (\<lambda>c m. max m (f c)) cs (max m0 (f x))" by (rule fold_max_ge_init)
    with True show ?thesis by simp
  next
    case False
    with Cons.prems have "c \<in> set cs" by simp
    from Cons.IH [OF this] show ?thesis by simp
  qed
qed

lemma count_lines_bounds:
  assumes "child \<in> set (children g)"
  shows "count_lines_min g orientation \<le> pos (attach child orientation)"
    and "pos (attach child orientation) + span (attach child orientation)
         \<le> count_lines_max g orientation"
  using assms fold_min_le [of child "children g" "\<lambda>c. pos (attach c orientation)" G_MAXINT]
    fold_max_ge [of child "children g"
      "\<lambda>c. pos (attach c orientation) + span (attach c orientation)" G_MININT]
  by (simp_all add: count_lines_min_def count_lines_max_def)

lemma count_lines_gint:
  assumes "grid_in_gint_range g"
  shows "G_MININT \<le> count_lines_min g orientation" "count_lines_max g orientation \<le> G_MAXINT"
proof -
  have a: "\<forall>c\<in>set cs. G_MININT \<le> pos (attach c orientation) \<Longrightarrow> G_MININT \<le> m0 \<Longrightarrow>
      G_MININT \<le> fold (\<lambda>child m. min m (pos (attach child orientation))) cs m0" for cs m0
    by (induction cs arbitrary: m0) simp_all
  have b: "\<forall>c\<in>set cs. pos (attach c orientation) + span (attach c orientation) \<le> G_MAXINT
      \<Longrightarrow> m0 \<le> G_MAXINT \<Longrightarrow>
      fold (\<lambda>child m. max m (pos (attach child orientation) + span (attach child orientation))) cs m0
        \<le> G_MAXINT" for cs m0
    by (induction cs arbitrary: m0) simp_all
  have r: "\<forall>c\<in>set (children g). G_MININT \<le> pos (attach c orientation)
      \<and> pos (attach c orientation) + span (attach c orientation) \<le> G_MAXINT"
    using assms by (cases orientation) (auto simp add: grid_in_gint_range_def list_all_iff)
  show "G_MININT \<le> count_lines_min g orientation"
    unfolding count_lines_min_def using r by (intro a) (simp_all add: G_MININT_def G_MAXINT_def)
  show "count_lines_max g orientation \<le> G_MAXINT"
    unfolding count_lines_max_def using r by (intro b) (simp_all add: G_MININT_def G_MAXINT_def)
qed

lemma request_ok_child:
  assumes "request_ok request orientation" "child \<in> set (children (grid request))"
  shows "1 \<le> span (attach child orientation)"
    and "lines_min (request_lines request orientation) \<le> pos (attach child orientation)"
    and "nat (pos (attach child orientation) - lines_min (request_lines request orientation))
           + nat (span (attach child orientation))
         \<le> length (lines (request_lines request orientation))"
proof -
  let ?L = "request_lines request orientation"
  let ?a = "attach child orientation"
  from assms(1) have mn: "lines_min ?L = count_lines_min (grid request) orientation"
    and mx: "lines_max ?L = count_lines_max (grid request) orientation"
    and len: "length (lines ?L) = nat (lines_max ?L - lines_min ?L)"
    and sp: "grid_spans_ok (grid request)"
    by (simp_all add: request_ok_def Let_def)
  from sp assms(2) show s1: "1 \<le> span ?a"
    by (cases orientation) (auto simp add: grid_spans_ok_def list_all_iff)
  from count_lines_bounds [OF assms(2), of orientation] mn mx
  have b: "lines_min ?L \<le> pos ?a" "pos ?a + span ?a \<le> lines_max ?L" by simp_all
  then show "lines_min ?L \<le> pos ?a" by simp
  from b s1 show "nat (pos ?a - lines_min ?L) + nat (span ?a) \<le> length (lines ?L)"
    by (simp add: len)
qed

lemma c_div_nonneg: "0 \<le> a \<Longrightarrow> 0 \<le> b \<Longrightarrow> 0 \<le> c_div a b"
  by (simp add: c_div_def sgn_if pos_imp_zdiv_nonneg_iff)

lemma c_ceiling:
  assumes "0 < s"
  shows "t \<le> s * (c_div t s + (if c_mod t s \<noteq> 0 then 1 else 0))"
proof (cases "0 \<le> t")
  case True
  then have d: "c_div t s = t div s" and m: "c_mod t s = t mod s"
    using assms by (simp_all add: c_div_pos c_mod_pos)
  have t: "t = s * (t div s) + t mod s" by simp
  have "t mod s < s" using assms by simp
  then have "t mod s \<le> s * (if t mod s \<noteq> 0 then 1 else 0)" by simp
  with t show ?thesis
    unfolding d m by (metis add_left_mono distrib_left)
next
  case False
  then have neg: "t < 0" by simp
  then have d: "c_div t s = - ((- t) div s)"
    using assms by (simp add: c_div_def sgn_if)
  have "s * ((- t) div s) + (- t) mod s = - t" by simp
  moreover have "0 \<le> (- t) mod s" using assms by simp
  ultimately have "s * ((- t) div s) \<le> - t" by linarith
  then have "t \<le> s * c_div t s" by (simp add: d)
  moreover have "0 \<le> s * (if c_mod t s \<noteq> 0 then 1 else 0)" using assms by simp
  ultimately show ?thesis by (simp add: distrib_left)
qed

lemma spanning_distribute_outside:
  assumes "j \<notin> set idx" "j < length ls"
  shows "spanning_distribute add force extra cnt idx ls ! j = ls ! j"
  using assms
proof (induction idx arbitrary: extra cnt ls)
  case Nil
  then show ?case by simp
next
  case (Cons i idx)
  then show ?case
    by (auto simp add: Let_def line_update_nth)
qed

lemma spanning_distribute_none:
  assumes "filter (\<lambda>i. force \<or> expand (ls ! i)) idx = []"
  shows "spanning_distribute add force extra cnt idx ls = ls"
  using assms
proof (induction idx arbitrary: extra cnt ls)
  case Nil
  then show ?case by simp
next
  case (Cons i idx)
  then show ?case
    by (auto split: if_splits)
qed

lemma expand_filter_update:
  assumes "\<And>l. expand (g l) = expand l"
  shows "filter (\<lambda>x. force \<or> expand (line_update i g ls ! x)) idx
       = filter (\<lambda>x. force \<or> expand (ls ! x)) idx"
  by (rule filter_cong) (simp_all add: line_update_nth_any assms)

lemma spanning_distribute_mono:
  fixes f :: "GtkGridLine \<Rightarrow> int"
  assumes addexp: "\<And>d l. expand (add d l) = expand l"
    and addf: "\<And>d l. 0 \<le> d \<Longrightarrow> f l \<le> f (add d l)"
    and "0 \<le> extra"
    and "cnt = int (length (filter (\<lambda>i. force \<or> expand (ls ! i)) idx))"
    and "j < length ls"
  shows "f (ls ! j) \<le> f (spanning_distribute add force extra cnt idx ls ! j)"
  using assms(3-)
proof (induction idx arbitrary: extra cnt ls)
  case Nil
  then show ?case by simp
next
  case (Cons i idx)
  show ?case
  proof (cases "force \<or> expand (ls ! i)")
    case False
    with Cons.prems have "cnt = int (length (filter (\<lambda>i. force \<or> expand (ls ! i)) idx))"
      by simp
    from Cons.IH [OF Cons.prems(1) this Cons.prems(3)] False show ?thesis
      by simp
  next
    case True
    with Cons.prems have cnt: "cnt = int (length (filter (\<lambda>i. force \<or> expand (ls ! i)) idx)) + 1"
      by simp
    then have cpos: "0 < cnt" by simp
    define le where "le = c_div extra cnt"
    have le: "le = extra div cnt" "0 \<le> le"
      using Cons.prems(1) cpos by (simp_all add: le_def c_div_pos pos_imp_zdiv_nonneg_iff)
    have le2: "le \<le> extra"
      using Cons.prems(1) cpos zdiv_mono2 [of extra 1 cnt] by (simp add: le)
    define ls1 where "ls1 = line_update i (add le) ls"
    have sd: "spanning_distribute add force extra cnt (i # idx) ls
        = spanning_distribute add force (extra - le) (cnt - 1) idx ls1"
      using True by (simp add: le_def ls1_def Let_def)
    have c1: "cnt - 1 = int (length (filter (\<lambda>i. force \<or> expand (ls1 ! i)) idx))"
      unfolding ls1_def using cnt by (simp add: expand_filter_update addexp)
    have j1: "j < length ls1" using Cons.prems(3) by (simp add: ls1_def)
    have "f (ls ! j) \<le> f (ls1 ! j)"
      using Cons.prems(3) le(2) by (simp add: ls1_def line_update_nth addf)
    also have "\<dots> \<le> f (spanning_distribute add force (extra - le) (cnt - 1) idx ls1 ! j)"
      using le2 by (intro Cons.IH [OF _ c1 j1]) simp
    finally show ?thesis
      unfolding sd .
  qed
qed

lemma spanning_distribute_sum:
  fixes f :: "GtkGridLine \<Rightarrow> int"
  assumes addexp: "\<And>d l. expand (add d l) = expand l"
    and addf: "\<And>d l. f (add d l) = f l + d"
    and "distinct idx" "\<forall>i\<in>set idx. i < length ls"
    and "0 \<le> extra"
    and "cnt = int (length (filter (\<lambda>i. force \<or> expand (ls ! i)) idx))"
    and "filter (\<lambda>i. force \<or> expand (ls ! i)) idx \<noteq> []"
  shows "(\<Sum>i\<leftarrow>idx. f (spanning_distribute add force extra cnt idx ls ! i))
       = (\<Sum>i\<leftarrow>idx. f (ls ! i)) + extra"
  using assms(3-)
proof (induction idx arbitrary: extra cnt ls)
  case Nil
  then show ?case by simp
next
  case (Cons i idx)
  from Cons.prems have dist: "distinct idx" "i \<notin> set idx" and rng: "\<forall>i\<in>set idx. i < length ls"
    and i: "i < length ls"
    by simp_all
  show ?case
  proof (cases "force \<or> expand (ls ! i)")
    case False
    with Cons.prems have cnt: "cnt = int (length (filter (\<lambda>i. force \<or> expand (ls ! i)) idx))"
      and ne: "filter (\<lambda>i. force \<or> expand (ls ! i)) idx \<noteq> []"
      by simp_all
    have sd: "spanning_distribute add force extra cnt (i # idx) ls
        = spanning_distribute add force extra cnt idx ls"
      using False by simp
    have "f (spanning_distribute add force extra cnt idx ls ! i) = f (ls ! i)"
      using dist(2) i by (simp add: spanning_distribute_outside)
    with Cons.IH [OF dist(1) rng Cons.prems(3) cnt ne] show ?thesis
      unfolding sd by simp
  next
    case True
    with Cons.prems have cnt: "cnt = int (length (filter (\<lambda>i. force \<or> expand (ls ! i)) idx)) + 1"
      by simp
    then have cpos: "0 < cnt" by simp
    define le where "le = c_div extra cnt"
    have le: "le = extra div cnt"
      using Cons.prems(3) cpos by (simp add: le_def c_div_pos)
    have le2: "le \<le> extra"
      using Cons.prems(3) cpos zdiv_mono2 [of extra 1 cnt] by (simp add: le)
    define ls1 where "ls1 = line_update i (add le) ls"
    have sd: "spanning_distribute add force extra cnt (i # idx) ls
        = spanning_distribute add force (extra - le) (cnt - 1) idx ls1"
      using True by (simp add: le_def ls1_def Let_def)
    have filt: "filter (\<lambda>i. force \<or> expand (ls1 ! i)) idx = filter (\<lambda>i. force \<or> expand (ls ! i)) idx"
      unfolding ls1_def by (simp add: expand_filter_update addexp)
    have c1: "cnt - 1 = int (length (filter (\<lambda>i. force \<or> expand (ls1 ! i)) idx))"
      using cnt filt by simp
    have rng1: "\<forall>i\<in>set idx. i < length ls1" using rng by (simp add: ls1_def)
    have i1: "i < length ls1" using i by (simp add: ls1_def)
    have at_i: "f (spanning_distribute add force (extra - le) (cnt - 1) idx ls1 ! i) = f (ls ! i) + le"
      using dist(2) i i1 by (simp add: spanning_distribute_outside ls1_def line_update_nth addf)
    have same: "(\<Sum>x\<leftarrow>idx. f (ls1 ! x)) = (\<Sum>x\<leftarrow>idx. f (ls ! x))"
    proof (rule arg_cong [where f = sum_list], rule map_cong [OF refl])
      fix x assume "x \<in> set idx"
      with dist(2) rng show "f (ls1 ! x) = f (ls ! x)"
        by (auto simp add: ls1_def line_update_nth)
    qed
    show ?thesis
    proof (cases "filter (\<lambda>i. force \<or> expand (ls ! i)) idx = []")
      case True
      with cnt have "cnt = 1" by simp
      then have "le = extra" by (simp add: le)
      moreover have "spanning_distribute add force (extra - le) (cnt - 1) idx ls1 = ls1"
        using True filt by (intro spanning_distribute_none) simp
      ultimately show ?thesis
        unfolding sd using i same by (simp add: ls1_def line_update_nth addf)
    next
      case False
      then have ne1: "filter (\<lambda>i. force \<or> expand (ls1 ! i)) idx \<noteq> []"
        using filt by simp
      have e1: "0 \<le> extra - le" using le2 by simp
      from Cons.IH [OF dist(1) rng1 e1 c1 ne1] at_i same show ?thesis
        unfolding sd by simp
    qed
  qed
qed

lemma fold_line_update_hit:
  assumes "i \<in> set idx" "i < length ls" "\<And>l. P (g l)"
  shows "P (fold (\<lambda>i. line_update i g) idx ls ! i)"
  using assms(1,2)
proof (induction idx arbitrary: ls)
  case Nil
  then show ?case by simp
next
  case (Cons a idx)
  show ?case
  proof (cases "i \<in> set idx")
    case True
    from Cons.IH [OF True, of "line_update a g ls"] Cons.prems(2) show ?thesis by simp
  next
    case False
    with Cons.prems have a: "a = i" by simp
    have "fold (\<lambda>i. line_update i g) idx (line_update a g ls) ! i = line_update a g ls ! i"
    proof -
      have "\<And>xs. i < length xs \<Longrightarrow> fold (\<lambda>i. line_update i g) idx xs ! i = xs ! i"
        using False
      proof (induction idx)
        case Nil
        show ?case by simp
      next
        case (Cons b idx)
        then show ?case by (simp add: line_update_nth)
      qed
      then show ?thesis using Cons.prems(2) by simp
    qed
    then show ?thesis
      using a Cons.prems(2) assms(3) by (simp add: line_update_nth)
  qed
qed

lemma sum_list_const_le:
  fixes f :: "'a \<Rightarrow> int"
  assumes "\<forall>x\<in>set xs. c \<le> f x"
  shows "int (length xs) * c \<le> (\<Sum>x\<leftarrow>xs. f x)"
  using assms by (induction xs) (simp_all add: algebra_simps)

lemma sum_list_pointwise_le:
  fixes f g :: "'a \<Rightarrow> int"
  assumes "\<forall>x\<in>set xs. f x \<le> g x"
  shows "(\<Sum>x\<leftarrow>xs. f x) \<le> (\<Sum>x\<leftarrow>xs. g x)"
  using assms by (induction xs) (simp_all add: add_mono)

lemma span_size_mono:
  assumes "\<forall>i\<in>set idx. f (ls ! i) \<le> f (ls' ! i)"
  shows "span_size f ld a ls idx \<le> span_size f ld a ls' idx"
  unfolding span_size_def using assms by (simp add: sum_list_pointwise_le)

lemma receiving_lines_nonempty: "idx \<noteq> [] \<Longrightarrow> receiving_lines ls idx \<noteq> []"
  by (simp add: receiving_lines_def)

lemma spanning_lines_homogeneous_eq:
  assumes "homogeneous ld"
  shows "spanning_lines ld L a cm cn ls =
    (let idx = spanned_lines L a;
         m = c_div (cm - (span a - 1) * spacing ld) (span a)
               + (if c_mod (cm - (span a - 1) * spacing ld) (span a) \<noteq> 0 then 1 else 0);
         n = c_div (cn - (span a - 1) * spacing ld) (span a)
               + (if c_mod (cn - (span a - 1) * spacing ld) (span a) \<noteq> 0 then 1 else 0);
         ls1 = (if span_size minimum ld a ls idx < cm
                then fold (\<lambda>i. line_update i (\<lambda>line. line\<lparr>minimum := max (minimum line) m\<rparr>)) idx ls
                else ls)
     in if span_size natural ld a ls idx < cn
        then fold (\<lambda>i. line_update i (\<lambda>line. line\<lparr>natural := max (natural line) n\<rparr>)) idx ls1
        else ls1)"
  using assms
  by (simp add: spanning_lines_def Let_def fold_add_sum span_size_def spanned_lines_def
      del: fold.simps)

lemma spanning_lines_covers:
  assumes lo: "lines_min L \<le> pos a"
    and hi: "nat (pos a - lines_min L) + nat (span a) \<le> length ls"
    and sp: "0 < span a"
  shows "cm \<le> span_size minimum ld a (spanning_lines ld L a cm cn ls) (spanned_lines L a)"
proof -
  let ?idx = "spanned_lines L a"
  have dist: "distinct ?idx" using lo by (rule spanned_lines_distinct)
  have rng: "\<forall>i\<in>set ?idx. i < length ls" using lo hi by (rule spanned_lines_range)
  have ne: "?idx \<noteq> []" using sp by (simp add: spanned_lines_def)
  show ?thesis
  proof (cases "homogeneous ld")
    case False
    define force where "force = (filter (\<lambda>i. expand (ls ! i)) ?idx = [])"
    define cnt where "cnt = int (length (receiving_lines ls ?idx))"
    define ls1 where "ls1 = (if span_size minimum ld a ls ?idx < cm
                then spanning_distribute add_minimum force
                       (cm - span_size minimum ld a ls ?idx) cnt ?idx ls
                else ls)"
    have res: "spanning_lines ld L a cm cn ls = (if span_size natural ld a ls ?idx < cn
        then spanning_distribute add_natural force
               (cn - span_size natural ld a ls ?idx) cnt ?idx ls1
        else ls1)"
      using False sp by (simp add: spanning_lines_non_homogeneous Let_def force_def cnt_def ls1_def)
    have len1: "length ls1 = length ls" by (simp add: ls1_def)
    have same: "minimum (spanning_lines ld L a cm cn ls ! i) = minimum (ls1 ! i)" if "i \<in> set ?idx" for i
      using that rng len1 by (simp add: res spanning_distribute_field)
    have "span_size minimum ld a (spanning_lines ld L a cm cn ls) ?idx = span_size minimum ld a ls1 ?idx"
      unfolding span_size_def using same by (simp cong: map_cong)
    also have "cm \<le> span_size minimum ld a ls1 ?idx"
    proof (cases "span_size minimum ld a ls ?idx < cm")
      case True
      have f: "filter (\<lambda>i. force \<or> expand (ls ! i)) ?idx = receiving_lines ls ?idx"
        unfolding force_def by (rule receiving_lines_filter)
      have "(\<Sum>i\<leftarrow>?idx. minimum (spanning_distribute add_minimum force
                (cm - span_size minimum ld a ls ?idx) cnt ?idx ls ! i))
          = (\<Sum>i\<leftarrow>?idx. minimum (ls ! i)) + (cm - span_size minimum ld a ls ?idx)"
        using True ne
        by (intro spanning_distribute_sum [OF _ _ dist rng])
           (simp_all add: f cnt_def receiving_lines_nonempty)
      with True show ?thesis
        by (simp add: ls1_def span_size_def)
    next
      case False
      then show ?thesis by (simp add: ls1_def)
    qed
    finally show ?thesis .
  next
    case True
    define m where "m = c_div (cm - (span a - 1) * spacing ld) (span a)
               + (if c_mod (cm - (span a - 1) * spacing ld) (span a) \<noteq> 0 then 1 else 0)"
    define n where "n = c_div (cn - (span a - 1) * spacing ld) (span a)
               + (if c_mod (cn - (span a - 1) * spacing ld) (span a) \<noteq> 0 then 1 else 0)"
    define ls1 where "ls1 = (if span_size minimum ld a ls ?idx < cm
                then fold (\<lambda>i. line_update i (\<lambda>line. line\<lparr>minimum := max (minimum line) m\<rparr>)) ?idx ls
                else ls)"
    have res: "spanning_lines ld L a cm cn ls = (if span_size natural ld a ls ?idx < cn
        then fold (\<lambda>i. line_update i (\<lambda>line. line\<lparr>natural := max (natural line) n\<rparr>)) ?idx ls1
        else ls1)"
      using True by (simp add: spanning_lines_homogeneous_eq Let_def m_def n_def ls1_def)
    have len1: "length ls1 = length ls" by (simp add: ls1_def del: fold.simps)
    have ge: "minimum (ls1 ! i) \<le> minimum (spanning_lines ld L a cm cn ls ! i)" if "i \<in> set ?idx" for i
    proof -
      from that rng len1 have "i < length ls1" by simp
      then show ?thesis
        unfolding res by (auto intro: fold_line_update_mono simp del: fold.simps)
    qed
    have "cm \<le> span_size minimum ld a ls1 ?idx"
    proof (cases "span_size minimum ld a ls ?idx < cm")
      case False
      then show ?thesis by (simp add: ls1_def)
    next
      case short: True
      have "m \<le> minimum (ls1 ! i)" if "i \<in> set ?idx" for i
      proof -
        from that rng have i: "i < length ls" by simp
        have "m \<le> minimum (fold (\<lambda>i. line_update i (\<lambda>line. line\<lparr>minimum := max (minimum line) m\<rparr>)) ?idx ls ! i)"
          by (rule fold_line_update_hit [where P = "\<lambda>l. m \<le> minimum l", OF that i]) simp
        with short show ?thesis by (simp add: ls1_def)
      qed
      then have "int (length ?idx) * m \<le> (\<Sum>i\<leftarrow>?idx. minimum (ls1 ! i))"
        by (intro sum_list_const_le) simp
      moreover have "int (length ?idx) = span a" using sp by simp
      moreover have "cm - (span a - 1) * spacing ld \<le> span a * m"
        unfolding m_def using sp by (rule c_ceiling)
      ultimately show ?thesis
        by (simp add: span_size_def)
    qed
    also have "\<dots> \<le> span_size minimum ld a (spanning_lines ld L a cm cn ls) ?idx"
      using ge by (intro span_size_mono) simp
    finally show ?thesis .
  qed
qed

lemma spanning_lines_mono:
  assumes "0 < span a" "j < length ls"
  shows "minimum (ls ! j) \<le> minimum (spanning_lines ld L a cm cn ls ! j)"
proof (cases "homogeneous ld")
  case True
  then show ?thesis using assms(2) by (rule spanning_lines_homogeneous_mono)
next
  case False
  let ?idx = "spanned_lines L a"
  define force where "force = (filter (\<lambda>i. expand (ls ! i)) ?idx = [])"
  define cnt where "cnt = int (length (receiving_lines ls ?idx))"
  define ls1 where "ls1 = (if span_size minimum ld a ls ?idx < cm
                then spanning_distribute add_minimum force
                       (cm - span_size minimum ld a ls ?idx) cnt ?idx ls
                else ls)"
  have res: "spanning_lines ld L a cm cn ls = (if span_size natural ld a ls ?idx < cn
        then spanning_distribute add_natural force
               (cn - span_size natural ld a ls ?idx) cnt ?idx ls1
        else ls1)"
    using False assms(1) by (simp add: spanning_lines_non_homogeneous Let_def force_def cnt_def ls1_def)
  have len1: "length ls1 = length ls" by (simp add: ls1_def)
  have f: "filter (\<lambda>i. force \<or> expand (ls ! i)) ?idx = receiving_lines ls ?idx"
    unfolding force_def by (rule receiving_lines_filter)
  have "minimum (ls ! j) \<le> minimum (ls1 ! j)"
  proof (cases "span_size minimum ld a ls ?idx < cm")
    case True
    have "minimum (ls ! j) \<le> minimum (spanning_distribute add_minimum force
                       (cm - span_size minimum ld a ls ?idx) cnt ?idx ls ! j)"
      using True assms(2)
      by (intro spanning_distribute_mono) (simp_all add: f cnt_def)
    with True show ?thesis by (simp add: ls1_def)
  next
    case False
    then show ?thesis by (simp add: ls1_def)
  qed
  also have "minimum (ls1 ! j) = minimum (spanning_lines ld L a cm cn ls ! j)"
    using assms(2) len1 by (simp add: res spanning_distribute_field)
  finally show ?thesis .
qed

lemma fold_step_mono_set:
  fixes f :: "GtkGridLine \<Rightarrow> int"
  assumes step: "\<And>c ls j. c \<in> set cs \<Longrightarrow> j < length ls \<Longrightarrow> f (ls ! j) \<le> f (step c ls ! j)"
    and len: "\<And>c ls. length (step c ls) = length ls"
    and j: "j < length ls"
  shows "f (ls ! j) \<le> f (fold step cs ls ! j)"
  using step j
proof (induction cs arbitrary: ls)
  case Nil
  then show ?case by simp
next
  case (Cons c cs)
  have "f (ls ! j) \<le> f (step c ls ! j)"
    using Cons.prems(2) by (intro Cons.prems(1)) simp_all
  also have "\<dots> \<le> f (fold step cs (step c ls) ! j)"
    using Cons.prems by (intro Cons.IH) (simp_all add: len)
  finally show ?case by simp
qed

lemma other_lines_set_lines:
  "o' \<noteq> orientation \<Longrightarrow> request_lines (set_lines request orientation ls) o' = request_lines request o'"
  by (simp add: set_lines_def)

lemma other_lines_phases:
  assumes "o' \<noteq> orientation"
  shows "request_lines (gtk_grid_request_init request orientation) o' = request_lines request o'"
    and "request_lines (gtk_grid_request_non_spanning request orientation contextual) o'
         = request_lines request o'"
    and "request_lines (gtk_grid_request_homogeneous request orientation) o' = request_lines request o'"
    and "request_lines (gtk_grid_request_spanning request orientation contextual) o'
         = request_lines request o'"
  using assms
  by (simp_all add: gtk_grid_request_init_def gtk_grid_request_non_spanning_def
      gtk_grid_request_homogeneous_def gtk_grid_request_spanning_def Let_def other_lines_set_lines
      del: fold.simps)

lemma opposite_neq [simp]: "opposite orientation \<noteq> orientation"
  by (cases orientation) simp_all

lemma compute_request_for_child_cong:
  assumes "grid r' = grid r" "request_lines r' (opposite orientation) = request_lines r (opposite orientation)"
  shows "compute_request_for_child r' child orientation contextual
       = compute_request_for_child r child orientation contextual"
  using assms by (simp add: compute_request_for_child_def compute_allocation_for_child_def)

lemma spanned_lines_cong:
  "lines_min L' = lines_min L \<Longrightarrow> spanned_lines L' a = spanned_lines L a"
  by (simp add: spanned_lines_def line_index_def)

lemma spanning_child_mono:
  assumes "1 \<le> span (attach child orientation)" "j < length ls"
  shows "minimum (ls ! j) \<le> minimum (spanning_child request orientation contextual child ls ! j)"
  using assms
  by (auto simp add: spanning_child_def Let_def split: prod.splits intro!: spanning_lines_mono)

lemma homogeneous_clamp_mono:
  assumes "length (lines (request_lines request orientation))
         = nat (lines_max (request_lines request orientation) - lines_min (request_lines request orientation))"
    and "j < length (lines (request_lines request orientation))"
  shows "minimum (lines (request_lines request orientation) ! j)
       \<le> minimum (lines (request_lines (gtk_grid_request_homogeneous request orientation) orientation) ! j)"
proof (cases "homogeneous (linedata (grid request) orientation)")
  case False
  then show ?thesis by (simp add: gtk_grid_request_homogeneous_def Let_def)
next
  case True
  let ?ls = "lines (request_lines request orientation)"
  have "minimum (?ls ! j) \<in> minimum ` set ?ls" using assms(2) by simp
  then have "minimum (?ls ! j) \<le> Max (insert 0 (minimum ` set ?ls))"
    by (intro Max_ge) simp_all
  then show ?thesis
    using assms(2) by (simp add: homogeneous_lines [OF True assms(1)])
qed

text \<open>After the request run the lines of a visible spanning child cover its minimum.\<close>

lemma request_run_covers:
  assumes ok: "request_ok request orientation"
    and child: "child \<in> set (children (grid request))"
    and vis: "widget_visible (widget child)"
    and sp: "1 < span (attach child orientation)"
  shows "fst (compute_request_for_child request child orientation contextual)
       \<le> span_size minimum (linedata (grid request) orientation) (attach child orientation)
           (lines (request_lines (gtk_grid_request_run request orientation contextual) orientation))
           (spanned_lines (request_lines request orientation) (attach child orientation))"
proof -
  let ?a = "attach child orientation"
  let ?ld = "linedata (grid request) orientation"
  let ?L = "request_lines request orientation"
  let ?idx = "spanned_lines ?L ?a"
  define X where "X = gtk_grid_request_non_spanning (gtk_grid_request_init request orientation)
               orientation contextual"
  define H1 where "H1 = gtk_grid_request_homogeneous X orientation"
  define P where "P = gtk_grid_request_spanning H1 orientation contextual"
  have run: "gtk_grid_request_run request orientation contextual = gtk_grid_request_homogeneous P orientation"
    by (simp add: gtk_grid_request_run_def Let_def P_def H1_def X_def)
  have gH: "grid H1 = grid request" by (simp add: H1_def X_def)
  have lenH: "length (lines (request_lines H1 orientation)) = length (lines ?L)"
    by (simp add: H1_def X_def)
  have minH: "lines_min (request_lines H1 orientation) = lines_min ?L"
    "lines_max (request_lines H1 orientation) = lines_max ?L"
    by (simp_all add: H1_def X_def)
  have other: "request_lines H1 (opposite orientation) = request_lines request (opposite orientation)"
    by (simp add: H1_def X_def other_lines_phases)
  have req: "compute_request_for_child H1 child orientation contextual
       = compute_request_for_child request child orientation contextual"
    using gH other by (rule compute_request_for_child_cong)
  obtain cm cn mb nb where r: "compute_request_for_child request child orientation contextual = (cm, cn, mb, nb)"
    by (cases "compute_request_for_child request child orientation contextual") auto
  note rc = request_ok_child [OF ok child]
  have idxH: "spanned_lines (request_lines H1 orientation) ?a = ?idx"
    using minH(1) by (rule spanned_lines_cong)
  have rng: "\<forall>i\<in>set ?idx. i < length (lines ?L)"
    using rc(2,3) by (rule spanned_lines_range)
  from child obtain cs1 cs2 where cs: "children (grid request) = cs1 @ child # cs2"
    by (meson split_list)
  define step where "step = spanning_child H1 orientation contextual"
  define la where "la = fold step cs1 (lines (request_lines H1 orientation))"
  define lb where "lb = step child la"
  have lena: "length la = length (lines ?L)"
    unfolding la_def step_def by (simp add: fold_length_preserve lenH)
  have lenb: "length lb = length (lines ?L)"
    by (simp add: lb_def step_def lena)
  have linesP: "lines (request_lines P orientation) = fold step cs2 lb"
    by (simp add: P_def gtk_grid_request_spanning_def gH cs step_def la_def lb_def)
  have lb: "lb = spanning_lines ?ld (request_lines H1 orientation) ?a cm cn la"
    using vis sp by (simp add: lb_def step_def spanning_child_def Let_def req r gH)
  have cover_b: "cm \<le> span_size minimum ?ld ?a lb ?idx"
    unfolding lb idxH [symmetric]
    using rc sp by (intro spanning_lines_covers) (simp_all add: minH lena)
  have stepmono: "minimum (ls ! j) \<le> minimum (step c ls ! j)"
    if "c \<in> set cs2" "j < length ls" for c ls j
  proof -
    from that(1) cs have "c \<in> set (children (grid request))" by simp
    from request_ok_child(1) [OF ok this] that(2) show ?thesis
      unfolding step_def by (rule spanning_child_mono)
  qed
  have mono_c: "minimum (lb ! j) \<le> minimum (lines (request_lines P orientation) ! j)"
    if "j < length (lines ?L)" for j
  proof -
    have len: "length (step c ls) = length ls" for c ls
      by (simp add: step_def)
    from that lenb have "j < length lb" by simp
    then show ?thesis
      unfolding linesP
      by (intro fold_step_mono_set [where f = minimum and step = step] stepmono len)
  qed
  have lenP: "length (lines (request_lines P orientation)) = length (lines ?L)"
    by (simp add: P_def lenH)
  have okP: "length (lines (request_lines P orientation))
         = nat (lines_max (request_lines P orientation) - lines_min (request_lines P orientation))"
    using ok by (simp add: P_def minH lenH request_ok_def Let_def)
  have mono_d: "minimum (lines (request_lines P orientation) ! j)
       \<le> minimum (lines (request_lines (gtk_grid_request_run request orientation contextual) orientation) ! j)"
    if "j < length (lines ?L)" for j
    unfolding run using that lenP by (intro homogeneous_clamp_mono [OF okP]) simp
  have "span_size minimum ?ld ?a lb ?idx
      \<le> span_size minimum ?ld ?a
           (lines (request_lines (gtk_grid_request_run request orientation contextual) orientation)) ?idx"
  proof (rule span_size_mono, rule ballI)
    fix i assume "i \<in> set ?idx"
    with rng have "i < length (lines ?L)" by simp
    from mono_c [OF this] mono_d [OF this]
    show "minimum (lb ! i)
       \<le> minimum (lines (request_lines (gtk_grid_request_run request orientation contextual) orientation) ! i)"
      by simp
  qed
  with cover_b show ?thesis
    by (simp add: r)
qed

subsection \<open>Empty lines after \<^verbatim>\<open>gtk_grid_request_compute_expand\<close>\<close>

lemma fold_nth_stable:
  assumes "\<And>x ls. length (step x ls) = length ls"
    and "\<And>x ls. j < length ls \<Longrightarrow> P (ls ! j) \<Longrightarrow> P (step x ls ! j)"
    and "j < length ls" "P (ls ! j)"
  shows "P (fold step xs ls ! j)"
  using assms(3,4)
proof (induction xs arbitrary: ls)
  case Nil
  then show ?case by simp
next
  case (Cons x xs)
  then show ?case by (simp add: assms(1,2))
qed

lemma mark_lines_length [simp]: "length (mark_lines L a mn mx f i ls) = length ls"
  by (simp add: mark_lines_def)

lemma mark_lines_field:
  assumes "\<And>l. F (f l) = F l" "j < length ls"
  shows "F (mark_lines L a mn mx f i ls ! j) = F (ls ! j)"
  using assms by (simp add: mark_lines_def line_update_nth)

lemma mark_lines_stable:
  assumes "\<And>l. P l \<Longrightarrow> P (f l)" "j < length ls" "P (ls ! j)"
  shows "P (mark_lines L a mn mx f i ls ! j)"
  using assms by (auto simp add: mark_lines_def line_update_nth)

lemma fold_mark_lines_length [simp]:
  "length (fold (mark_lines L a mn mx f) idx ls) = length ls"
  by (induction idx arbitrary: ls) simp_all

lemma fold_mark_lines_field:
  assumes "\<And>l. F (f l) = F l" "j < length ls"
  shows "F (fold (mark_lines L a mn mx f) idx ls ! j) = F (ls ! j)"
  using assms(2)
proof (induction idx arbitrary: ls)
  case Nil
  show ?case by simp
next
  case (Cons i idx)
  have "F (fold (mark_lines L a mn mx f) idx (mark_lines L a mn mx f i ls) ! j)
      = F (mark_lines L a mn mx f i ls ! j)"
    using Cons.prems by (intro Cons.IH) simp
  also have "\<dots> = F (ls ! j)"
    using assms(1) Cons.prems by (rule mark_lines_field)
  finally show ?case by simp
qed

lemma fold_mark_lines_stable:
  assumes "\<And>l. P l \<Longrightarrow> P (f l)" "j < length ls" "P (ls ! j)"
  shows "P (fold (mark_lines L a mn mx f) idx ls ! j)"
  using assms(2,3)
proof (induction idx arbitrary: ls)
  case Nil
  then show ?case by simp
next
  case (Cons i idx)
  have "P (mark_lines L a mn mx f i ls ! j)"
    using assms(1) Cons.prems by (rule mark_lines_stable)
  then have "P (fold (mark_lines L a mn mx f) idx (mark_lines L a mn mx f i ls) ! j)"
    using Cons.prems(1) by (intro Cons.IH) simp_all
  then show ?case by simp
qed

lemma mark_step_fst:
  "fst (mark_step L a mn mx i (ls, h)) = mark_lines L a mn mx (\<lambda>line. line\<lparr>empty := False\<rparr>) i ls"
  by (simp add: mark_step_def mark_lines_def Let_def)

lemma expand_spanning_first_loop:
  "fst (fold (mark_step L a mn mx) idx p)
   = fold (mark_lines L a mn mx (\<lambda>line. line\<lparr>empty := False\<rparr>)) idx (fst p)"
proof (induction idx arbitrary: p)
  case Nil
  show ?case by simp
next
  case (Cons i idx)
  obtain ls h where p: "p = (ls, h)" by (cases p) auto
  have "fst (fold (mark_step L a mn mx) (i # idx) p)
      = fst (fold (mark_step L a mn mx) idx (mark_step L a mn mx i (ls, h)))"
    by (simp add: p)
  also have "\<dots> = fold (mark_lines L a mn mx (\<lambda>line. line\<lparr>empty := False\<rparr>)) idx
                    (fst (mark_step L a mn mx i (ls, h)))"
    by (rule Cons.IH)
  finally show ?case
    by (simp add: mark_step_fst p)
qed

lemma expand_spanning_child_eq:
  "\<exists>b. expand_spanning_child L orientation mn mx child ls =
     (if \<not> widget_visible (widget child) \<or> span (attach child orientation) = 1 then ls
      else if b
        then fold (mark_lines L (attach child orientation) mn mx (\<lambda>line. line\<lparr>need_expand := True\<rparr>))
               [0..<nat (span (attach child orientation))]
               (fold (mark_lines L (attach child orientation) mn mx (\<lambda>line. line\<lparr>empty := False\<rparr>))
                  [0..<nat (span (attach child orientation))] ls)
      else fold (mark_lines L (attach child orientation) mn mx (\<lambda>line. line\<lparr>empty := False\<rparr>))
             [0..<nat (span (attach child orientation))] ls)"
proof -
  let ?a = "attach child orientation"
  obtain ls1 h where f: "fold (mark_step L ?a mn mx) [0..<nat (span ?a)] (ls, False) = (ls1, h)"
    by (cases "fold (mark_step L ?a mn mx) [0..<nat (span ?a)] (ls, False)") auto
  have "ls1 = fst (fold (mark_step L ?a mn mx) [0..<nat (span ?a)] (ls, False))"
    by (simp add: f)
  then have ls1: "ls1 = fold (mark_lines L ?a mn mx (\<lambda>line. line\<lparr>empty := False\<rparr>)) [0..<nat (span ?a)] ls"
    by (simp only: expand_spanning_first_loop fst_conv)
  have m: "(\<lambda>i ls. if pos ?a + int i \<ge> mx \<or> pos ?a + 1 < mn then ls
                  else line_update (line_index L ?a i) (\<lambda>line. line\<lparr>need_expand := True\<rparr>) ls)
         = mark_lines L ?a mn mx (\<lambda>line. line\<lparr>need_expand := True\<rparr>)"
    by (intro ext) (simp add: mark_lines_def)
  have e: "expand_spanning_child L orientation mn mx child ls =
     (if \<not> widget_visible (widget child) then ls
      else if span ?a = 1 then ls
      else
        (case fold (mark_step L ?a mn mx) [0..<nat (span ?a)] (ls, False) of
           (ls, has_expand) \<Rightarrow>
             if \<not> has_expand \<and> widget_compute_expand (widget child) orientation
               then fold (mark_lines L ?a mn mx (\<lambda>line. line\<lparr>need_expand := True\<rparr>))
                      [0..<nat (span ?a)] ls
             else ls))"
    unfolding m [symmetric] mark_step_def expand_spanning_child_def Let_def ..
  show ?thesis
    unfolding e f ls1 [symmetric]
    by (rule exI [of _ "\<not> h \<and> widget_compute_expand (widget child) orientation"]) simp
qed

lemma expand_non_spanning_child_length [simp]:
  "length (expand_non_spanning_child L orientation mn mx child ls) = length ls"
  by (simp add: expand_non_spanning_child_def Let_def)

lemma expand_spanning_child_length [simp]:
  "length (expand_spanning_child L orientation mn mx child ls) = length ls"
proof -
  from expand_spanning_child_eq [of L orientation mn mx child ls] obtain b where
    "expand_spanning_child L orientation mn mx child ls =
     (if \<not> widget_visible (widget child) \<or> span (attach child orientation) = 1 then ls
      else if b
        then fold (mark_lines L (attach child orientation) mn mx (\<lambda>line. line\<lparr>need_expand := True\<rparr>))
               [0..<nat (span (attach child orientation))]
               (fold (mark_lines L (attach child orientation) mn mx (\<lambda>line. line\<lparr>empty := False\<rparr>))
                  [0..<nat (span (attach child orientation))] ls)
      else fold (mark_lines L (attach child orientation) mn mx (\<lambda>line. line\<lparr>empty := False\<rparr>))
             [0..<nat (span (attach child orientation))] ls)" ..
  then show ?thesis
    by (simp del: fold.simps)
qed

lemma expand_non_spanning_child_field:
  assumes "\<And>l v. F (l\<lparr>empty := v\<rparr>) = F l" "\<And>l v. F (l\<lparr>expand := v\<rparr>) = F l" "j < length ls"
  shows "F (expand_non_spanning_child L orientation mn mx child ls ! j) = F (ls ! j)"
  using assms by (simp add: expand_non_spanning_child_def Let_def line_update_nth)

lemma expand_spanning_child_field:
  assumes e: "\<And>l v. F (l\<lparr>empty := v\<rparr>) = F l" and n: "\<And>l v. F (l\<lparr>need_expand := v\<rparr>) = F l"
    and j: "j < length ls"
  shows "F (expand_spanning_child L orientation mn mx child ls ! j) = F (ls ! j)"
proof -
  let ?a = "attach child orientation"
  let ?ls1 = "fold (mark_lines L ?a mn mx (\<lambda>line. line\<lparr>empty := False\<rparr>)) [0..<nat (span ?a)] ls"
  from expand_spanning_child_eq [of L orientation mn mx child ls] obtain b where
    eq: "expand_spanning_child L orientation mn mx child ls =
     (if \<not> widget_visible (widget child) \<or> span ?a = 1 then ls
      else if b
        then fold (mark_lines L ?a mn mx (\<lambda>line. line\<lparr>need_expand := True\<rparr>)) [0..<nat (span ?a)] ?ls1
      else ?ls1)" ..
  have 1: "F (?ls1 ! j) = F (ls ! j)"
    using j by (rule fold_mark_lines_field [rotated]) (rule e)
  have "F (fold (mark_lines L ?a mn mx (\<lambda>line. line\<lparr>need_expand := True\<rparr>)) [0..<nat (span ?a)] ?ls1 ! j)
      = F (?ls1 ! j)"
  proof (rule fold_mark_lines_field)
    show "F (l\<lparr>need_expand := True\<rparr>) = F l" for l by (rule n)
    show "j < length ?ls1" using j by simp
  qed
  with 1 show ?thesis
    unfolding eq by (simp del: fold.simps)
qed

lemma expand_spanning_child_stable:
  assumes j: "j < length ls" and ne: "\<not> empty (ls ! j)"
  shows "\<not> empty (expand_spanning_child L orientation mn mx child ls ! j)"
proof -
  let ?a = "attach child orientation"
  let ?ls1 = "fold (mark_lines L ?a mn mx (\<lambda>line. line\<lparr>empty := False\<rparr>)) [0..<nat (span ?a)] ls"
  from expand_spanning_child_eq [of L orientation mn mx child ls] obtain b where
    eq: "expand_spanning_child L orientation mn mx child ls =
     (if \<not> widget_visible (widget child) \<or> span ?a = 1 then ls
      else if b
        then fold (mark_lines L ?a mn mx (\<lambda>line. line\<lparr>need_expand := True\<rparr>)) [0..<nat (span ?a)] ?ls1
      else ?ls1)" ..
  have 1: "\<not> empty (?ls1 ! j)"
  proof (rule fold_mark_lines_stable [where P = "\<lambda>l. \<not> empty l"])
    show "\<not> empty (l\<lparr>empty := False\<rparr>)" for l by simp
    show "j < length ls" by (rule j)
    show "\<not> empty (ls ! j)" by (rule ne)
  qed
  have "empty (fold (mark_lines L ?a mn mx (\<lambda>line. line\<lparr>need_expand := True\<rparr>)) [0..<nat (span ?a)] ?ls1 ! j)
      = empty (?ls1 ! j)"
  proof (rule fold_mark_lines_field)
    show "empty (l\<lparr>need_expand := True\<rparr>) = empty l" for l by simp
    show "j < length ?ls1" using j by simp
  qed
  with 1 ne show ?thesis
    unfolding eq by (simp del: fold.simps)
qed

lemma fold_mark_lines_hit:
  assumes "i \<in> set idx" "line_index L a i < length ls" "\<And>l. P (f l)"
    and "\<not> (pos a + int i \<ge> mx \<or> pos a + 1 < mn)"
  shows "P (fold (mark_lines L a mn mx f) idx ls ! line_index L a i)"
  using assms(1,2)
proof (induction idx arbitrary: ls)
  case Nil
  then show ?case by simp
next
  case (Cons x idx)
  show ?case
  proof (cases "i \<in> set idx")
    case True
    then show ?thesis using Cons by simp
  next
    case False
    with Cons.prems have x: "x = i" by simp
    have "P (mark_lines L a mn mx f i ls ! line_index L a i)"
      using assms(3,4) Cons.prems(2) by (simp add: mark_lines_def line_update_nth)
    have "P (fold (mark_lines L a mn mx f) idx (mark_lines L a mn mx f i ls) ! line_index L a i)"
    proof (rule fold_mark_lines_stable [where P = P])
      show "P (f l)" for l by (rule assms(3))
      show "line_index L a i < length (mark_lines L a mn mx f i ls)"
        using Cons.prems(2) by simp
      show "P (mark_lines L a mn mx f i ls ! line_index L a i)" by fact
    qed
    then show ?thesis by (simp add: x)
  qed
qed

text \<open>A visible child over more than one line leaves the lines it spans not empty.\<close>

lemma expand_spanning_child_hit:
  assumes vis: "widget_visible (widget child)" and sp: "1 < span (attach child orientation)"
    and mn: "mn \<le> pos (attach child orientation) + 1"
    and mx: "pos (attach child orientation) + span (attach child orientation) \<le> mx"
    and i: "i < nat (span (attach child orientation))"
    and rng: "line_index L (attach child orientation) i < length ls"
  shows "\<not> empty (expand_spanning_child L orientation mn mx child ls ! line_index L (attach child orientation) i)"
proof -
  let ?a = "attach child orientation"
  let ?j = "line_index L ?a i"
  let ?ls1 = "fold (mark_lines L ?a mn mx (\<lambda>line. line\<lparr>empty := False\<rparr>)) [0..<nat (span ?a)] ls"
  from expand_spanning_child_eq [of L orientation mn mx child ls] obtain b where
    eq: "expand_spanning_child L orientation mn mx child ls =
     (if \<not> widget_visible (widget child) \<or> span ?a = 1 then ls
      else if b
        then fold (mark_lines L ?a mn mx (\<lambda>line. line\<lparr>need_expand := True\<rparr>)) [0..<nat (span ?a)] ?ls1
      else ?ls1)" ..
  have c: "\<not> (pos ?a + int i \<ge> mx \<or> pos ?a + 1 < mn)"
    using mn mx i by auto
  have 1: "\<not> empty (?ls1 ! ?j)"
  proof (rule fold_mark_lines_hit [where P = "\<lambda>l. \<not> empty l"])
    show "i \<in> set [0..<nat (span ?a)]" using i by simp
    show "?j < length ls" by (rule rng)
    show "\<not> empty (l\<lparr>empty := False\<rparr>)" for l by simp
    show "\<not> (pos ?a + int i \<ge> mx \<or> pos ?a + 1 < mn)" by (rule c)
  qed
  have "empty (fold (mark_lines L ?a mn mx (\<lambda>line. line\<lparr>need_expand := True\<rparr>)) [0..<nat (span ?a)] ?ls1 ! ?j)
      = empty (?ls1 ! ?j)"
  proof (rule fold_mark_lines_field)
    show "empty (l\<lparr>need_expand := True\<rparr>) = empty l" for l by simp
    show "?j < length ?ls1" using rng by simp
  qed
  with 1 vis sp show ?thesis
    unfolding eq by (simp del: fold.simps)
qed

lemma fold_expand_spanning_hit:
  assumes child: "child \<in> set cs"
    and vis: "widget_visible (widget child)" and sp: "1 < span (attach child orientation)"
    and mn: "mn \<le> pos (attach child orientation) + 1"
    and mx: "pos (attach child orientation) + span (attach child orientation) \<le> mx"
    and i: "i < nat (span (attach child orientation))"
    and rng: "line_index L (attach child orientation) i < length ls"
  shows "\<not> empty (fold (expand_spanning_child L orientation mn mx) cs ls
                   ! line_index L (attach child orientation) i)"
proof -
  from child obtain cs1 cs2 where cs: "cs = cs1 @ child # cs2"
    by (meson split_list)
  let ?la = "fold (expand_spanning_child L orientation mn mx) cs1 ls"
  have len: "length ?la = length ls"
    by (simp add: fold_length_preserve)
  have "line_index L (attach child orientation) i < length ?la"
    using rng by (simp add: len)
  with vis sp mn mx i
  have "\<not> empty (expand_spanning_child L orientation mn mx child ?la ! line_index L (attach child orientation) i)"
    by (rule expand_spanning_child_hit)
  then have "\<not> empty (fold (expand_spanning_child L orientation mn mx) cs2
                  (expand_spanning_child L orientation mn mx child ?la)
                   ! line_index L (attach child orientation) i)"
  proof (rule fold_nth_stable [where P = "\<lambda>l. \<not> empty l"
          and step = "expand_spanning_child L orientation mn mx", rotated 3])
    show "length (expand_spanning_child L orientation mn mx x ls) = length ls" for x ls
      by simp
    show "j < length ls \<Longrightarrow> \<not> empty (ls ! j)
        \<Longrightarrow> \<not> empty (expand_spanning_child L orientation mn mx x ls ! j)" for j x ls
      by (rule expand_spanning_child_stable)
    show "line_index L (attach child orientation) i
        < length (expand_spanning_child L orientation mn mx child ?la)"
      using rng by (simp add: len)
  qed
  then show ?thesis by (simp add: cs)
qed

subsection \<open>The count of the lines that are not empty\<close>

lemma promote_line_length [simp]: "length (promote_line i ls) = length ls"
  by (simp add: promote_line_def)

lemma promote_line_field:
  assumes "\<And>l v. F (l\<lparr>expand := v\<rparr>) = F l"
  shows "F (promote_line i ls ! j) = F (ls ! j)"
  by (simp add: promote_line_def line_update_nth_any assms)

lemma expand_count_line_step:
  "expand_count_line i (ls, e, x)
      = (promote_line i ls, (if empty (ls ! i) then e + 1 else e),
         (if expand (promote_line i ls ! i) then x + 1 else x))"
  by (simp add: expand_count_line_def promote_line_def Let_def line_update_nth_any)

lemma expand_count_lines:
  "fst (fold expand_count_line idx (ls, e, x)) = fold promote_line idx ls"
  by (induction idx arbitrary: ls e x) (simp_all add: expand_count_line_step)

lemma fold_promote_field:
  assumes "\<And>l v. F (l\<lparr>expand := v\<rparr>) = F l"
  shows "F (fold promote_line idx ls ! j) = F (ls ! j)"
proof (induction idx arbitrary: ls)
  case Nil
  show ?case by simp
next
  case (Cons i idx)
  have "F (fold promote_line idx (promote_line i ls) ! j) = F (promote_line i ls ! j)"
    by (rule Cons.IH)
  also have "\<dots> = F (ls ! j)"
    using assms by (rule promote_line_field)
  finally show ?case by simp
qed

lemma expand_count_empty:
  "fst (snd (fold expand_count_line idx (ls, e, x)))
     = e + int (length (filter (\<lambda>i. empty (ls ! i)) idx))"
proof (induction idx arbitrary: ls e x)
  case Nil
  show ?case by simp
next
  case (Cons i idx)
  have same: "empty (promote_line i ls ! k) = empty (ls ! k)" for k
    by (rule promote_line_field) simp
  show ?case
    by (simp add: expand_count_line_step Cons.IH same)
qed

lemma fold_promote_length [simp]: "length (fold promote_line idx ls) = length ls"
  by (induction idx arbitrary: ls) simp_all

lemma fold_expand_non_spanning_length [simp]:
  "length (fold (expand_non_spanning_child L orientation mn mx) cs ls) = length ls"
  by (induction cs arbitrary: ls) simp_all

lemma fold_expand_spanning_length [simp]:
  "length (fold (expand_spanning_child L orientation mn mx) cs ls) = length ls"
  by (induction cs arbitrary: ls) simp_all

lemma marked_lines_length [simp]:
  "length (marked_lines request orientation) = length (lines (request_lines request orientation))"
  by (simp add: marked_lines_def Let_def del: fold.simps)

lemma fold_reset_field:
  assumes "\<And>l. F (expand_reset_line l) = F l"
  shows "F (fold (\<lambda>i. line_update i expand_reset_line) idx ls ! j) = F (ls ! j)"
  by (induction idx arbitrary: ls) (simp_all add: line_update_nth_any assms)

lemma fold_expand_non_spanning_field:
  assumes "\<And>l v. F (l\<lparr>empty := v\<rparr>) = F l" "\<And>l v. F (l\<lparr>expand := v\<rparr>) = F l" "j < length ls"
  shows "F (fold (expand_non_spanning_child L orientation mn mx) cs ls ! j) = F (ls ! j)"
  using assms(3)
proof (induction cs arbitrary: ls)
  case Nil
  show ?case by simp
next
  case (Cons c cs)
  have "F (fold (expand_non_spanning_child L orientation mn mx) cs
             (expand_non_spanning_child L orientation mn mx c ls) ! j)
      = F (expand_non_spanning_child L orientation mn mx c ls ! j)"
    using Cons.prems by (intro Cons.IH) simp
  also have "\<dots> = F (ls ! j)"
    using assms(1,2) Cons.prems by (rule expand_non_spanning_child_field)
  finally show ?case by simp
qed

lemma fold_expand_spanning_field:
  assumes "\<And>l v. F (l\<lparr>empty := v\<rparr>) = F l" "\<And>l v. F (l\<lparr>need_expand := v\<rparr>) = F l" "j < length ls"
  shows "F (fold (expand_spanning_child L orientation mn mx) cs ls ! j) = F (ls ! j)"
  using assms(3)
proof (induction cs arbitrary: ls)
  case Nil
  show ?case by simp
next
  case (Cons c cs)
  have "F (fold (expand_spanning_child L orientation mn mx) cs
             (expand_spanning_child L orientation mn mx c ls) ! j)
      = F (expand_spanning_child L orientation mn mx c ls ! j)"
    using Cons.prems by (intro Cons.IH) simp
  also have "\<dots> = F (ls ! j)"
    using assms(1,2) Cons.prems by (rule expand_spanning_child_field)
  finally show ?case by simp
qed

text \<open>The pass leaves the sizes of the lines alone.\<close>

lemma marked_lines_minimum:
  assumes "j < length (lines (request_lines request orientation))"
  shows "minimum (marked_lines request orientation ! j)
       = minimum (lines (request_lines request orientation) ! j)"
proof -
  let ?L = "request_lines request orientation"
  let ?w = "[0..<nat (lines_max ?L - lines_min ?L)]"
  let ?l1 = "fold (\<lambda>i. line_update i expand_reset_line) ?w (lines ?L)"
  let ?l2 = "fold (expand_non_spanning_child ?L orientation (lines_min ?L) (lines_max ?L))
                 (children (grid request)) ?l1"
  let ?l3 = "fold (expand_spanning_child ?L orientation (lines_min ?L) (lines_max ?L))
                 (children (grid request)) ?l2"
  have "minimum (marked_lines request orientation ! j) = minimum (fold promote_line ?w ?l3 ! j)"
    by (simp add: marked_lines_def Let_def del: fold.simps)
  also have "\<dots> = minimum (?l3 ! j)"
    by (rule fold_promote_field) simp
  also have "\<dots> = minimum (?l2 ! j)"
    using assms by (intro fold_expand_spanning_field) simp_all
  also have "\<dots> = minimum (?l1 ! j)"
    using assms by (intro fold_expand_non_spanning_field) simp_all
  also have "\<dots> = minimum (lines ?L ! j)"
    by (rule fold_reset_field) (simp add: expand_reset_line_def)
  finally show ?thesis .
qed

text \<open>The lines under a visible child that spans several lines are not empty.\<close>

lemma marked_lines_spanned:
  assumes child: "child \<in> set (children (grid request))"
    and vis: "widget_visible (widget child)" and sp: "1 < span (attach child orientation)"
    and lo: "lines_min (request_lines request orientation) \<le> pos (attach child orientation)"
    and hi: "pos (attach child orientation) + span (attach child orientation)
             \<le> lines_max (request_lines request orientation)"
    and rng: "nat (pos (attach child orientation) - lines_min (request_lines request orientation))
           + nat (span (attach child orientation))
         \<le> length (lines (request_lines request orientation))"
    and i: "i \<in> set (spanned_lines (request_lines request orientation) (attach child orientation))"
  shows "\<not> empty (marked_lines request orientation ! i)"
proof -
  let ?L = "request_lines request orientation"
  let ?a = "attach child orientation"
  let ?w = "[0..<nat (lines_max ?L - lines_min ?L)]"
  let ?l1 = "fold (\<lambda>i. line_update i expand_reset_line) ?w (lines ?L)"
  let ?l2 = "fold (expand_non_spanning_child ?L orientation (lines_min ?L) (lines_max ?L))
                 (children (grid request)) ?l1"
  let ?l3 = "fold (expand_spanning_child ?L orientation (lines_min ?L) (lines_max ?L))
                 (children (grid request)) ?l2"
  from i obtain k where k: "k < nat (span ?a)" "i = line_index ?L ?a k"
    by (auto simp add: spanned_lines_def)
  have "i < length (lines ?L)"
    using spanned_lines_range [OF lo rng] i by simp
  then have il: "line_index ?L ?a k < length ?l2"
    by (simp add: k(2))
  have mn: "lines_min ?L \<le> pos ?a + 1" using lo by simp
  have "\<not> empty (?l3 ! line_index ?L ?a k)"
    using child vis sp mn hi k(1) il by (rule fold_expand_spanning_hit)
  moreover have "empty (fold promote_line ?w ?l3 ! i) = empty (?l3 ! i)"
    by (rule fold_promote_field) simp
  ultimately show ?thesis
    by (simp add: marked_lines_def Let_def k(2) del: fold.simps)
qed

text \<open>
  \<^verbatim>\<open>gtk_grid_request_compute_expand\<close> over all the lines of the request: the lines it
  leaves and the number of lines that are not empty.
\<close>

lemma compute_expand_all:
  assumes "min_arg \<le> lines_min (request_lines request orientation)"
    and "lines_max (request_lines request orientation) \<le> max_arg"
    and "lines_min (request_lines request orientation) \<le> lines_max (request_lines request orientation)"
  shows "fst (gtk_grid_request_compute_expand request orientation min_arg max_arg)
           = set_lines request orientation (marked_lines request orientation)"
    and "fst (snd (gtk_grid_request_compute_expand request orientation min_arg max_arg))
           = int (length (filled_lines (marked_lines request orientation)
                    [0..<nat (lines_max (request_lines request orientation)
                              - lines_min (request_lines request orientation))]))"
proof -
  let ?L = "request_lines request orientation"
  let ?w = "[0..<nat (lines_max ?L - lines_min ?L)]"
  let ?l1 = "fold (\<lambda>i. line_update i expand_reset_line) ?w (lines ?L)"
  let ?l2 = "fold (expand_non_spanning_child ?L orientation (lines_min ?L) (lines_max ?L))
                 (children (grid request)) ?l1"
  let ?l3 = "fold (expand_spanning_child ?L orientation (lines_min ?L) (lines_max ?L))
                 (children (grid request)) ?l2"
  have mn: "max min_arg (lines_min ?L) = lines_min ?L" and mx: "min max_arg (lines_max ?L) = lines_max ?L"
    using assms by simp_all
  obtain ls e x where f: "fold expand_count_line ?w (?l3, 0, 0) = (ls, e, x)"
    by (cases "fold expand_count_line ?w (?l3, 0, 0)") auto
  have ce: "gtk_grid_request_compute_expand request orientation min_arg max_arg
      = (set_lines request orientation ls, lines_max ?L - lines_min ?L - e, x)"
    unfolding gtk_grid_request_compute_expand_def Let_def mn mx
    by (simp add: f del: fold.simps)
  have "ls = fst (fold expand_count_line ?w (?l3, 0, 0))" by (simp add: f)
  then have ls: "ls = marked_lines request orientation"
    by (simp add: expand_count_lines marked_lines_def Let_def del: fold.simps)
  have "e = fst (snd (fold expand_count_line ?w (?l3, 0, 0)))" by (simp add: f)
  then have e: "e = int (length (filter (\<lambda>i. empty (?l3 ! i)) ?w))"
    by (simp add: expand_count_empty del: fold.simps)
  have same: "empty (marked_lines request orientation ! i) = empty (?l3 ! i)" for i
  proof -
    have "empty (fold promote_line ?w ?l3 ! i) = empty (?l3 ! i)"
      by (rule fold_promote_field) simp
    then show ?thesis
      by (simp add: marked_lines_def Let_def del: fold.simps)
  qed
  have "length (filter (\<lambda>i. empty (?l3 ! i)) ?w) + length (filter (\<lambda>i. \<not> empty (?l3 ! i)) ?w)
      = length ?w"
    by (rule sum_length_filter_compl)
  then have "int (length (filter (\<lambda>i. \<not> empty (?l3 ! i)) ?w))
      = int (length ?w) - int (length (filter (\<lambda>i. empty (?l3 ! i)) ?w))"
    by linarith
  moreover have "int (length ?w) = lines_max ?L - lines_min ?L"
    using assms(3) by simp
  ultimately have cnt: "lines_max ?L - lines_min ?L - e
      = int (length (filled_lines (marked_lines request orientation) ?w))"
    by (simp add: e filled_lines_def same del: fold.simps)
  show "fst (gtk_grid_request_compute_expand request orientation min_arg max_arg)
           = set_lines request orientation (marked_lines request orientation)"
    by (simp add: ce ls)
  show "fst (snd (gtk_grid_request_compute_expand request orientation min_arg max_arg))
           = int (length (filled_lines (marked_lines request orientation) ?w))"
    by (simp add: ce cnt)
qed

subsection \<open>The minimum that \<^verbatim>\<open>gtk_grid_request_sum\<close> reports\<close>

lemma sum_line_fst:
  "fst (sum_line g orientation L i p)
     = fst p + minimum (lines L ! i)
       + (if empty (lines L ! i) then 0 else spacing (linedata g orientation))"
  by (cases p) (simp add: sum_line_def Let_def)

lemma fold_sum_line_fst:
  "fst (fold (sum_line g orientation L) idx p)
     = fst p + (\<Sum>i\<leftarrow>idx. minimum (lines L ! i))
       + spacing (linedata g orientation) * int (length (filled_lines (lines L) idx))"
proof (induction idx arbitrary: p)
  case Nil
  show ?case by (simp add: filled_lines_def)
next
  case (Cons i idx)
  have "fst (fold (sum_line g orientation L) (i # idx) p)
      = fst (fold (sum_line g orientation L) idx (sum_line g orientation L i p))"
    by simp
  also have "\<dots> = fst (sum_line g orientation L i p) + (\<Sum>i\<leftarrow>idx. minimum (lines L ! i))
       + spacing (linedata g orientation) * int (length (filled_lines (lines L) idx))"
    by (rule Cons.IH)
  finally show ?case
    by (simp add: sum_line_fst filled_lines_def algebra_simps)
qed

lemma request_sum_minimum:
  assumes "G_MININT \<le> lines_min (request_lines request orientation)"
    and "lines_max (request_lines request orientation) \<le> G_MAXINT"
    and "lines_min (request_lines request orientation) \<le> lines_max (request_lines request orientation)"
  shows "fst (snd (gtk_grid_request_sum request orientation))
     = (\<Sum>i\<leftarrow>[0..<nat (lines_max (request_lines request orientation)
                         - lines_min (request_lines request orientation))].
           minimum (marked_lines request orientation ! i))
       + spacing (linedata (grid request) orientation)
         * (int (length (filled_lines (marked_lines request orientation)
                    [0..<nat (lines_max (request_lines request orientation)
                              - lines_min (request_lines request orientation))]))
            - (if filled_lines (marked_lines request orientation)
                    [0..<nat (lines_max (request_lines request orientation)
                              - lines_min (request_lines request orientation))] = [] then 0 else 1))"
proof -
  let ?L = "request_lines request orientation"
  let ?w = "[0..<nat (lines_max ?L - lines_min ?L)]"
  let ?ml = "marked_lines request orientation"
  let ?sp = "spacing (linedata (grid request) orientation)"
  obtain r ne ex where ce: "gtk_grid_request_compute_expand request orientation G_MININT G_MAXINT = (r, ne, ex)"
    by (cases "gtk_grid_request_compute_expand request orientation G_MININT G_MAXINT") auto
  from compute_expand_all [OF assms] have r: "r = set_lines request orientation ?ml"
    and ne: "ne = int (length (filled_lines ?ml ?w))"
    by (simp_all add: ce)
  let ?L' = "request_lines r orientation"
  have L': "lines ?L' = ?ml" "lines_min ?L' = lines_min ?L" "lines_max ?L' = lines_max ?L"
    "grid r = grid request"
    by (simp_all add: r)
  obtain mn nt mb nb where f: "fold (sum_line (grid r) orientation ?L') ?w (0, 0, -1, -1) = (mn, nt, mb, nb)"
    by (cases "fold (sum_line (grid r) orientation ?L') ?w (0, 0, -1, -1)") auto
  have "mn = fst (fold (sum_line (grid r) orientation ?L') ?w (0, 0, -1, -1))"
    by (simp add: f)
  then have mn: "mn = (\<Sum>i\<leftarrow>?w. minimum (?ml ! i)) + ?sp * int (length (filled_lines ?ml ?w))"
    by (simp add: fold_sum_line_fst L' del: fold.simps)
  have s: "fst (snd (gtk_grid_request_sum request orientation)) = (if ne > 0 then mn - ?sp else mn)"
    unfolding gtk_grid_request_sum_def ce Let_def
    using f by (simp add: L' del: fold.simps)
  show ?thesis
    unfolding s mn ne by (simp add: algebra_simps)
qed

subsection \<open>The allocation of the lines without a baseline split\<close>

lemma homogeneous_allocations_Cons:
  "homogeneous_allocations extra (i # idx) rest ls =
     (if empty (ls ! i) then homogeneous_allocations extra idx rest ls
      else homogeneous_allocations extra idx (if rest > 0 then rest - 1 else rest)
             (line_update i (\<lambda>line. line\<lparr>allocation := extra + (if rest > 0 then 1 else 0)\<rparr>) ls))"
  by (simp add: Let_def line_update_twice)

lemma homogeneous_allocations_length [simp]:
  "length (homogeneous_allocations extra idx rest ls) = length ls"
proof (induction idx arbitrary: rest ls)
  case Nil
  show ?case by simp
next
  case (Cons i idx)
  show ?case
    unfolding homogeneous_allocations_Cons by (simp add: Cons.IH)
qed

lemma homogeneous_allocations_other:
  assumes "j \<notin> set idx"
  shows "homogeneous_allocations extra idx rest ls ! j = ls ! j"
  using assms
proof (induction idx arbitrary: rest ls)
  case Nil
  show ?case by simp
next
  case (Cons i idx)
  then have "j \<noteq> i" "j \<notin> set idx" by simp_all
  then show ?case
    unfolding homogeneous_allocations_Cons by (simp add: Cons.IH line_update_nth_any)
qed

text \<open>Every line that is not empty receives at least the common share.\<close>

lemma homogeneous_allocations_ge:
  assumes "distinct idx" "j \<in> set idx" "j < length ls" "\<not> empty (ls ! j)"
  shows "extra \<le> allocation (homogeneous_allocations extra idx rest ls ! j)"
  using assms
proof (induction idx arbitrary: rest ls)
  case Nil
  then show ?case by simp
next
  case (Cons i idx)
  let ?ls1 = "line_update i (\<lambda>line. line\<lparr>allocation := extra + (if rest > 0 then 1 else 0)\<rparr>) ls"
  let ?rest1 = "if rest > 0 then rest - 1 else rest"
  show ?case
  proof (cases "j = i")
    case True
    with Cons.prems have e: "\<not> empty (ls ! i)" and ni: "j \<notin> set idx" by simp_all
    have "homogeneous_allocations extra idx ?rest1 ?ls1 ! j = ?ls1 ! j"
      using ni by (rule homogeneous_allocations_other)
    moreover have "extra \<le> allocation (?ls1 ! j)"
      using True Cons.prems(3) by (simp add: line_update_nth)
    ultimately show ?thesis
      unfolding homogeneous_allocations_Cons using e by simp
  next
    case False
    with Cons.prems have d: "distinct idx" and m: "j \<in> set idx" by simp_all
    have e1: "\<not> empty (?ls1 ! j)"
      using False Cons.prems(3,4) by (simp add: line_update_nth)
    have l1: "j < length ?ls1" using Cons.prems(3) by simp
    from Cons.IH [OF d m Cons.prems(3,4)] Cons.IH [OF d m l1 e1] show ?thesis
      unfolding homogeneous_allocations_Cons by simp
  qed
qed

lemma allocate_baseline_line_length [simp]:
  "length (allocate_baseline_line g L i ls) = length ls"
  by (simp add: allocate_baseline_line_def Let_def split: GtkBaselinePosition.splits)

lemma allocate_baseline_line_allocation:
  "allocation (allocate_baseline_line g L i ls ! j) = allocation (ls ! j)"
  by (simp add: allocate_baseline_line_def Let_def line_update_nth_any split: GtkBaselinePosition.splits)

lemma fold_allocate_baseline_line [simp]:
  "length (fold (allocate_baseline_line g L) idx ls) = length ls"
  "allocation (fold (allocate_baseline_line g L) idx ls ! j) = allocation (ls ! j)"
  by (induction idx arbitrary: ls) (simp_all add: allocate_baseline_line_allocation)

text \<open>Without expanding room no line is allocated less than its minimum.\<close>

lemma distribute_non_homogeneous_ge:
  assumes c: "natural_allocation_contract dna"
    and ne: "nonempty \<noteq> 0"
    and len: "nat (mx - lines_min L) \<le> length (lines L)"
    and j: "j \<in> set (filled_lines (lines L) (window_lines L mn mx))"
  shows "minimum (lines L ! j)
       \<le> allocation (lines (gtk_grid_distribute_non_homogeneous dna L nonempty ec size0 mn mx) ! j)"
proof -
  let ?w = "window_lines L mn mx"
  let ?f = "filled_lines (lines L) ?w"
  let ?sizes = "map (\<lambda>i. \<lparr> minimum_size = minimum (lines L ! i), natural_size = natural (lines L ! i) \<rparr>) ?f"
  let ?e = "max 0 (size0 - (\<Sum>i\<leftarrow>?f. minimum (lines L ! i)))"
  obtain size2 sizes' where d: "dna ?e ?sizes = (size2, sizes')"
    by (cases "dna ?e ?sizes") auto
  have e0: "0 \<le> ?e" by simp
  note cb = contract_basic [OF c e0 d]
  let ?extra = "if ec > 0 then c_div size2 ec else 0"
  let ?rest = "if ec > 0 then c_mod size2 ec else 0"
  have eq: "gtk_grid_distribute_non_homogeneous dna L nonempty ec size0 mn mx
     = L\<lparr>lines := assign_allocations sizes' ?extra ?w 0 ?rest (lines L)\<rparr>"
    using ne d by (rule distribute_non_homogeneous_eq)
  from j obtain t where t: "t < length ?f" "?f ! t = j"
    by (auto simp add: in_set_conv_nth)
  note wf = window_lines_facts [OF len, of mn]
  have al: "allocation (assign_allocations sizes' ?extra ?w 0 ?rest (lines L) ! (?f ! t))
     = minimum_size (sizes' ! (0 + t))
       + (if expand (lines L ! (?f ! t))
          then ?extra + (if int (length (filter (\<lambda>i. expand (lines L ! i)) (take t ?f))) < ?rest
                        then 1 else 0)
          else 0)"
    using wf t(1) by (rule assign_allocations_nth)
  have ex: "0 \<le> ?extra"
    using cb(2) by (simp add: c_div_nonneg)
  have "minimum (lines L ! j) = minimum_size (?sizes ! t)"
    using t by simp
  also have "\<dots> \<le> minimum_size (sizes' ! t)"
    using t(1) by (intro cb(3)) simp
  also have "\<dots> \<le> allocation (assign_allocations sizes' ?extra ?w 0 ?rest (lines L) ! (?f ! t))"
    unfolding al using ex by simp
  finally show ?thesis
    by (simp add: eq t(2))
qed

text \<open>
  The result of \<^verbatim>\<open>gtk_grid_request_allocate\<close> when the lines are not split at a baseline
  row and some line is not empty.
\<close>

lemma allocate_no_split:
  fixes request orientation total_size baseline dna
  defines "L \<equiv> request_lines request orientation"
  defines "ml \<equiv> marked_lines request orientation"
  defines "w \<equiv> [0..<nat (lines_max L - lines_min L)]"
  defines "n1 \<equiv> int (length (filled_lines ml w))"
  defines "size1 \<equiv> total_size - (n1 - 1) * spacing (linedata (grid request) orientation)"
  assumes ns: "\<not> baseline_split request orientation baseline"
    and le: "lines_min L \<le> lines_max L"
    and ne: "filled_lines ml w \<noteq> []"
  shows "\<exists>e1. gtk_grid_request_allocate dna request orientation total_size baseline
     = set_lines (set_lines request orientation ml) orientation
         (fold (allocate_baseline_line (grid request) (L\<lparr>lines := ml\<rparr>)) w
            (if homogeneous (linedata (grid request) orientation)
               then homogeneous_allocations (c_div size1 n1) w (c_mod size1 n1) ml
             else lines (gtk_grid_distribute_non_homogeneous dna (L\<lparr>lines := ml\<rparr>) n1 e1 size1
                           (lines_min L) (lines_max L))))"
proof -
  obtain r1 k1 e1 where ce: "gtk_grid_request_compute_expand request orientation (lines_min L) (lines_max L)
      = (r1, k1, e1)"
    by (cases "gtk_grid_request_compute_expand request orientation (lines_min L) (lines_max L)") auto
  have "lines_min L \<le> lines_min (request_lines request orientation)"
    "lines_max (request_lines request orientation) \<le> lines_max L"
    "lines_min (request_lines request orientation) \<le> lines_max (request_lines request orientation)"
    using le by (simp_all add: L_def)
  from compute_expand_all [OF this] have r1: "r1 = set_lines request orientation ml"
    and k1: "k1 = n1"
    by (simp_all add: ce [unfolded L_def] ml_def n1_def w_def L_def)
  have pos: "0 < n1" using ne by (simp add: n1_def)
  have as: "allocate_sizes request orientation total_size baseline
      = (r1, n1, e1, 0, 0, lines_max L, size1, 0)"
    using ns by (simp add: allocate_sizes_def Let_def ce [unfolded L_def] L_def k1 size1_def)
  have L': "request_lines r1 orientation = L\<lparr>lines := ml\<rparr>"
    by (simp add: r1 request_lines_set_lines L_def)
  have d2: "gtk_grid_distribute_non_homogeneous dna X 0 0 0 (lines_max L) (lines_max L) = X" for X
    by (simp add: gtk_grid_distribute_non_homogeneous_def)
  have "gtk_grid_request_allocate dna request orientation total_size baseline
     = set_lines (set_lines request orientation ml) orientation
         (fold (allocate_baseline_line (grid request) (L\<lparr>lines := ml\<rparr>)) w
            (if homogeneous (linedata (grid request) orientation)
               then homogeneous_allocations (c_div size1 n1) w (c_mod size1 n1) ml
             else lines (gtk_grid_distribute_non_homogeneous dna (L\<lparr>lines := ml\<rparr>) n1 e1 size1
                           (lines_min L) (lines_max L))))"
    unfolding gtk_grid_request_allocate_def as prod.case Let_def L'
    using pos by (simp add: d2 w_def r1 del: fold.simps)
  then show ?thesis ..
qed

lemma allocate_lines_cover:
  fixes request orientation total_size baseline dna m j
  defines "L \<equiv> request_lines request orientation"
  defines "ml \<equiv> marked_lines request orientation"
  defines "rq2 \<equiv> gtk_grid_request_allocate dna request orientation total_size baseline"
  assumes c: "natural_allocation_contract dna"
    and ns: "\<not> baseline_split request orientation baseline"
    and le: "lines_min L \<le> lines_max L"
    and len: "length (lines L) = nat (lines_max L - lines_min L)"
    and G: "G_MININT \<le> lines_min L" "lines_max L \<le> G_MAXINT"
    and hom: "homogeneous (linedata (grid request) orientation)
          \<Longrightarrow> 0 \<le> m \<and> (\<forall>i<length (lines L). minimum (lines L ! i) = m)"
    and tot: "fst (snd (gtk_grid_request_sum request orientation)) \<le> total_size"
    and j: "j < length (lines L)" and nej: "\<not> empty (ml ! j)"
  shows "lines_min (request_lines rq2 orientation) = lines_min L"
    and "minimum (lines L ! j) \<le> allocation (lines (request_lines rq2 orientation) ! j)"
proof -
  define w where "w = [0..<nat (lines_max L - lines_min L)]"
  define n1 where "n1 = int (length (filled_lines ml w))"
  define sp where "sp = spacing (linedata (grid request) orientation)"
  define size1 where "size1 = total_size - (n1 - 1) * sp"
  have jw: "j \<in> set w" using j len by (simp add: w_def)
  then have jf: "j \<in> set (filled_lines ml w)"
    using nej by (simp add: filled_lines_def)
  then have ne: "filled_lines ml w \<noteq> []" by auto
  then have pos: "0 < n1" by (simp add: n1_def)
  have lml: "length ml = length (lines L)" by (simp add: ml_def L_def)
  from allocate_no_split [OF ns le [unfolded L_def] ne [unfolded ml_def w_def L_def], of dna total_size]
  obtain e1 where al: "rq2 = set_lines (set_lines request orientation ml) orientation
         (fold (allocate_baseline_line (grid request) (L\<lparr>lines := ml\<rparr>)) w
            (if homogeneous (linedata (grid request) orientation)
               then homogeneous_allocations (c_div size1 n1) w (c_mod size1 n1) ml
             else lines (gtk_grid_distribute_non_homogeneous dna (L\<lparr>lines := ml\<rparr>) n1 e1 size1
                           (lines_min L) (lines_max L))))"
    unfolding rq2_def L_def ml_def w_def n1_def size1_def sp_def by blast
  show "lines_min (request_lines rq2 orientation) = lines_min L"
    unfolding al by (simp add: L_def)
  have mlj: "minimum (ml ! j) = minimum (lines L ! j)"
    using j unfolding ml_def L_def by (rule marked_lines_minimum)
  show "minimum (lines L ! j) \<le> allocation (lines (request_lines rq2 orientation) ! j)"
  proof (cases "homogeneous (linedata (grid request) orientation)")
    case True
    from hom [OF True] have m0: "0 \<le> m" and all: "\<forall>i<length (lines L). minimum (lines L ! i) = m"
      by simp_all
    have "\<forall>i\<in>set w. m \<le> minimum (ml ! i)"
    proof
      fix i assume "i \<in> set w"
      then have i: "i < length (lines L)" using len by (simp add: w_def)
      then have "minimum (ml ! i) = minimum (lines L ! i)"
        unfolding ml_def L_def by (rule marked_lines_minimum)
      with all i show "m \<le> minimum (ml ! i)" by simp
    qed
    then have s1: "int (length w) * m \<le> (\<Sum>i\<leftarrow>w. minimum (ml ! i))"
      by (rule sum_list_const_le)
    have "fst (snd (gtk_grid_request_sum request orientation))
        = (\<Sum>i\<leftarrow>w. minimum (ml ! i)) + sp * (n1 - (if filled_lines ml w = [] then 0 else 1))"
      using request_sum_minimum [OF G [unfolded L_def] le [unfolded L_def]]
      unfolding w_def ml_def L_def n1_def sp_def by simp
    with ne tot have "(\<Sum>i\<leftarrow>w. minimum (ml ! i)) + sp * (n1 - 1) \<le> total_size"
      by simp
    then have s2: "(\<Sum>i\<leftarrow>w. minimum (ml ! i)) \<le> size1"
      by (simp add: size1_def algebra_simps)
    have "n1 \<le> int (length w)"
      by (simp add: n1_def filled_lines_def)
    then have "n1 * m \<le> int (length w) * m"
      using m0 by (rule mult_right_mono)
    with s1 s2 have s3: "n1 * m \<le> size1" by linarith
    have "0 \<le> n1 * m" using pos m0 by simp
    with s3 have s0: "0 \<le> size1" by linarith
    have "(n1 * m) div n1 \<le> size1 div n1"
      using s3 pos by (rule zdiv_mono1)
    then have "m \<le> c_div size1 n1"
      using pos s0 by (simp add: c_div_pos)
    moreover have "c_div size1 n1
        \<le> allocation (homogeneous_allocations (c_div size1 n1) w (c_mod size1 n1) ml ! j)"
      using jw j nej by (intro homogeneous_allocations_ge) (simp_all add: w_def lml)
    ultimately show ?thesis
      unfolding al using True all j by simp
  next
    case False
    let ?L' = "L\<lparr>lines := ml\<rparr>"
    have wl: "window_lines ?L' (lines_min L) (lines_max L) = w"
      by (simp add: window_lines_def w_def)
    have "minimum (lines ?L' ! j)
       \<le> allocation (lines (gtk_grid_distribute_non_homogeneous dna ?L' n1 e1 size1
                                (lines_min L) (lines_max L)) ! j)"
    proof (rule distribute_non_homogeneous_ge [OF c])
      show "n1 \<noteq> 0" using pos by simp
      show "nat (lines_max L - lines_min ?L') \<le> length (lines ?L')"
        using len by (simp add: lml)
      show "j \<in> set (filled_lines (lines ?L') (window_lines ?L' (lines_min L) (lines_max L)))"
        unfolding wl using jf by simp
    qed
    then show ?thesis
      unfolding al using False mlj by simp
  qed
qed

lemma compute_allocation_for_child_span_size:
  "compute_allocation_for_child request child orientation
     = span_size allocation (linedata (grid request) orientation) (attach child orientation)
         (lines (request_lines request orientation))
         (spanned_lines (request_lines request orientation) (attach child orientation))"
  by (simp add: compute_allocation_for_child_def Let_def fold_add_sum span_size_def
      spanned_lines_def o_def del: fold.simps)

lemma span_size_fields_mono:
  assumes "\<forall>i\<in>set idx. f (ls ! i) \<le> g (ls' ! i)"
  shows "span_size f ld a ls idx \<le> span_size g ld a ls' idx"
proof -
  from assms have "(\<Sum>i\<leftarrow>idx. f (ls ! i)) \<le> (\<Sum>i\<leftarrow>idx. g (ls' ! i))"
    by (rule sum_list_pointwise_le)
  then show ?thesis by (simp add: span_size_def)
qed

lemma request_run_homogeneous_minimum:
  assumes hom: "homogeneous (linedata (grid request) orientation)"
    and len: "length (lines (request_lines request orientation))
         = nat (lines_max (request_lines request orientation) - lines_min (request_lines request orientation))"
  shows "\<exists>m\<ge>0. \<forall>i<length (lines (request_lines request orientation)).
           minimum (lines (request_lines (gtk_grid_request_run request orientation contextual) orientation) ! i) = m"
proof -
  define P where "P = gtk_grid_request_spanning
      (gtk_grid_request_homogeneous
         (gtk_grid_request_non_spanning (gtk_grid_request_init request orientation) orientation contextual)
         orientation) orientation contextual"
  have run: "gtk_grid_request_run request orientation contextual = gtk_grid_request_homogeneous P orientation"
    by (simp add: gtk_grid_request_run_def Let_def P_def)
  have gP: "homogeneous (linedata (grid P) orientation)"
    using hom by (simp add: P_def)
  have lenP: "length (lines (request_lines P orientation))
         = nat (lines_max (request_lines P orientation) - lines_min (request_lines P orientation))"
    using len by (simp add: P_def)
  have lP: "length (lines (request_lines P orientation)) = length (lines (request_lines request orientation))"
    by (simp add: P_def)
  let ?M = "Max (insert 0 (minimum ` set (lines (request_lines P orientation))))"
  have "0 \<le> ?M" by (intro Max_ge) simp_all
  moreover have "\<forall>i<length (lines (request_lines request orientation)).
           minimum (lines (request_lines (gtk_grid_request_run request orientation contextual) orientation) ! i) = ?M"
    unfolding run homogeneous_lines [OF gP lenP] by (simp add: lP)
  ultimately show ?thesis by blast
qed

text \<open>
  The allocation without a split at a baseline row: every visible child over several
  lines is allocated at least its minimum when the total size covers the minimum of the
  grid.
\<close>

lemma spanning_child_cover_without_split:
  fixes request orientation contextual total_size baseline dna child
  defines "measured \<equiv> gtk_grid_request_run request orientation contextual"
  assumes c: "natural_allocation_contract dna"
    and ok: "request_ok request orientation"
    and ns: "\<not> baseline_split measured orientation baseline"
    and tot: "fst (snd (gtk_grid_request_sum measured orientation)) \<le> total_size"
    and child: "child \<in> set (children (grid request))"
    and vis: "widget_visible (widget child)"
    and sp: "1 < span (attach child orientation)"
  shows "fst (compute_request_for_child request child orientation contextual)
       \<le> compute_allocation_for_child
            (gtk_grid_request_allocate dna measured orientation total_size baseline) child orientation"
proof -
  let ?a = "attach child orientation"
  let ?L = "request_lines request orientation"
  let ?L1 = "request_lines measured orientation"
  let ?ld = "linedata (grid request) orientation"
  let ?rq2 = "gtk_grid_request_allocate dna measured orientation total_size baseline"
  let ?idx = "spanned_lines ?L ?a"
  note rc = request_ok_child [OF ok child]
  from ok have mn: "lines_min ?L = count_lines_min (grid request) orientation"
    and mx: "lines_max ?L = count_lines_max (grid request) orientation"
    and len: "length (lines ?L) = nat (lines_max ?L - lines_min ?L)"
    and gr: "grid_in_gint_range (grid request)"
    by (simp_all add: request_ok_def Let_def)
  have fr: "lines_min ?L1 = lines_min ?L" "lines_max ?L1 = lines_max ?L"
    "length (lines ?L1) = length (lines ?L)" "grid measured = grid request"
    by (simp_all add: measured_def)
  have hi: "pos ?a + span ?a \<le> lines_max ?L"
    unfolding mx using child by (rule count_lines_bounds(2))
  have le: "lines_min ?L1 \<le> lines_max ?L1"
    using rc(1,2) hi by (simp add: fr)
  have len1: "length (lines ?L1) = nat (lines_max ?L1 - lines_min ?L1)"
    using len by (simp add: fr)
  have G: "G_MININT \<le> lines_min ?L1" "lines_max ?L1 \<le> G_MAXINT"
    using count_lines_gint [OF gr, of orientation] by (simp_all add: fr mn mx)
  from request_run_homogeneous_minimum [OF _ len, of contextual]
  obtain m where m: "homogeneous ?ld \<Longrightarrow> 0 \<le> m \<and> (\<forall>i<length (lines ?L1). minimum (lines ?L1 ! i) = m)"
    unfolding measured_def [symmetric] fr by (cases "homogeneous ?ld") auto
  have hom: "homogeneous (linedata (grid measured) orientation)
      \<Longrightarrow> 0 \<le> m \<and> (\<forall>i<length (lines ?L1). minimum (lines ?L1 ! i) = m)"
    using m by (simp add: fr)
  have rng: "\<forall>i\<in>set ?idx. i < length (lines ?L)"
    using rc(2,3) by (rule spanned_lines_range)
  have idx1: "spanned_lines ?L1 ?a = ?idx"
    using fr(1) by (rule spanned_lines_cong)
  have filled: "\<not> empty (marked_lines measured orientation ! i)" if "i \<in> set ?idx" for i
  proof (rule marked_lines_spanned [where child = child])
    show "child \<in> set (children (grid measured))" using child by (simp add: fr)
    show "widget_visible (widget child)" by (rule vis)
    show "1 < span ?a" by (rule sp)
    show "lines_min ?L1 \<le> pos ?a" using rc(2) by (simp add: fr)
    show "pos ?a + span ?a \<le> lines_max ?L1" using hi by (simp add: fr)
    show "nat (pos ?a - lines_min ?L1) + nat (span ?a) \<le> length (lines ?L1)"
      using rc(3) by (simp add: fr)
    show "i \<in> set (spanned_lines ?L1 ?a)" using that by (simp add: idx1)
  qed
  have cover: "minimum (lines ?L1 ! i) \<le> allocation (lines (request_lines ?rq2 orientation) ! i)"
    if "i \<in> set ?idx" for i
  proof -
    from that rng have "i < length (lines ?L1)" by (simp add: fr)
    with c ns le len1 G hom tot show ?thesis
      using filled [OF that] by (rule allocate_lines_cover(2))
  qed
  have lm2: "lines_min (request_lines ?rq2 orientation) = lines_min ?L"
  proof -
    from sp have "nat (span ?a) \<noteq> 0" by simp
    then obtain i where i: "i \<in> set ?idx"
      by (cases ?idx) (auto simp add: spanned_lines_def upt_conv_Cons)
    from i rng have "i < length (lines ?L1)" by (simp add: fr)
    with c ns le len1 G hom tot have "lines_min (request_lines ?rq2 orientation) = lines_min ?L1"
      using filled [OF i] by (rule allocate_lines_cover(1))
    then show ?thesis by (simp add: fr)
  qed
  have "fst (compute_request_for_child request child orientation contextual)
      \<le> span_size minimum ?ld ?a (lines ?L1) ?idx"
    unfolding measured_def using ok child vis sp by (rule request_run_covers)
  also have "\<dots> \<le> span_size allocation ?ld ?a (lines (request_lines ?rq2 orientation)) ?idx"
    by (rule span_size_fields_mono) (simp add: cover)
  also have "\<dots> = compute_allocation_for_child ?rq2 child orientation"
    unfolding compute_allocation_for_child_span_size
    by (simp add: fr spanned_lines_cong [OF lm2])
  finally show ?thesis .
qed

subsection \<open>The allocation split at the baseline row\<close>

lemma expand_non_spanning_child_empty:
  assumes "j < length ls"
  shows "empty (expand_non_spanning_child L orientation mn mx child ls ! j)
       = (empty (ls ! j) \<and> \<not> non_spanning_hits L orientation mn mx child j)"
  using assms
  by (auto simp add: expand_non_spanning_child_def non_spanning_hits_def Let_def line_update_nth)

lemma fold_mark_lines_empty:
  assumes "j < length ls"
  shows "empty (fold (mark_lines L a mn mx (\<lambda>line. line\<lparr>empty := False\<rparr>)) idx ls ! j)
       = (empty (ls ! j)
          \<and> \<not> list_ex (\<lambda>i. \<not> (pos a + int i \<ge> mx \<or> pos a + 1 < mn) \<and> line_index L a i = j) idx)"
  using assms
proof (induction idx arbitrary: ls)
  case Nil
  show ?case by simp
next
  case (Cons i idx)
  let ?ls1 = "mark_lines L a mn mx (\<lambda>line. line\<lparr>empty := False\<rparr>) i ls"
  have l1: "j < length ?ls1" using Cons.prems by simp
  have e1: "empty (?ls1 ! j)
      = (empty (ls ! j) \<and> \<not> (\<not> (pos a + int i \<ge> mx \<or> pos a + 1 < mn) \<and> line_index L a i = j))"
    using Cons.prems by (auto simp add: mark_lines_def line_update_nth)
  show ?case
    using Cons.IH [OF l1] e1 by auto
qed

lemma expand_spanning_child_empty:
  assumes j: "j < length ls"
  shows "empty (expand_spanning_child L orientation mn mx child ls ! j)
       = (empty (ls ! j) \<and> \<not> spanning_hits L orientation mn mx child j)"
proof -
  let ?a = "attach child orientation"
  let ?ls1 = "fold (mark_lines L ?a mn mx (\<lambda>line. line\<lparr>empty := False\<rparr>)) [0..<nat (span ?a)] ls"
  from expand_spanning_child_eq [of L orientation mn mx child ls] obtain b where
    eq: "expand_spanning_child L orientation mn mx child ls =
     (if \<not> widget_visible (widget child) \<or> span ?a = 1 then ls
      else if b
        then fold (mark_lines L ?a mn mx (\<lambda>line. line\<lparr>need_expand := True\<rparr>)) [0..<nat (span ?a)] ?ls1
      else ?ls1)" ..
  have 1: "empty (?ls1 ! j)
      = (empty (ls ! j)
          \<and> \<not> list_ex (\<lambda>i. \<not> (pos ?a + int i \<ge> mx \<or> pos ?a + 1 < mn) \<and> line_index L ?a i = j)
                [0..<nat (span ?a)])"
    using j by (rule fold_mark_lines_empty)
  have 2: "empty (fold (mark_lines L ?a mn mx (\<lambda>line. line\<lparr>need_expand := True\<rparr>)) [0..<nat (span ?a)] ?ls1 ! j)
      = empty (?ls1 ! j)"
  proof (rule fold_mark_lines_field)
    show "empty (l\<lparr>need_expand := True\<rparr>) = empty l" for l by simp
    show "j < length ?ls1" using j by simp
  qed
  show ?thesis
    unfolding eq using 1 2 by (auto simp add: spanning_hits_def Let_def simp del: fold.simps)
qed

lemma fold_children_empty:
  assumes len: "\<And>c ls. length (step c ls) = length ls"
    and st: "\<And>c ls. j < length ls \<Longrightarrow> empty (step c ls ! j) = (empty (ls ! j) \<and> \<not> hits c j)"
    and j: "j < length ls"
  shows "empty (fold step cs ls ! j) = (empty (ls ! j) \<and> \<not> list_ex (\<lambda>c. hits c j) cs)"
  using j
proof (induction cs arbitrary: ls)
  case Nil
  show ?case by simp
next
  case (Cons c cs)
  have l1: "j < length (step c ls)" using Cons.prems by (simp add: len)
  show ?case
    using Cons.IH [OF l1] st [OF Cons.prems, of c] by auto
qed

lemma fold_reset_empty:
  assumes "j < length ls"
  shows "empty (fold (\<lambda>i. line_update i expand_reset_line) idx ls ! j)
       = (j \<in> set idx \<or> empty (ls ! j))"
  using assms
proof (induction idx arbitrary: ls)
  case Nil
  show ?case by simp
next
  case (Cons i idx)
  have l1: "j < length (line_update i expand_reset_line ls)" using Cons.prems by simp
  have "empty (line_update i expand_reset_line ls ! j) = (i = j \<or> empty (ls ! j))"
    using Cons.prems by (auto simp add: line_update_nth expand_reset_line_def)
  with Cons.IH [OF l1] show ?case by auto
qed

lemma marked_window_length [simp]:
  "length (marked_window request orientation mn mx) = length (lines (request_lines request orientation))"
  by (simp add: marked_window_def Let_def del: fold.simps)

text \<open>
  The lines that one call of \<^verbatim>\<open>gtk_grid_request_compute_expand\<close> leaves empty: a line of
  the window is empty unless a visible child that passes the tests of the loops covers it,
  and a line outside the window stays empty under the same condition.
\<close>

lemma marked_window_empty:
  assumes j: "j < length (lines (request_lines request orientation))"
  shows "empty (marked_window request orientation mn mx ! j)
       = ((j \<in> set [nat (mn - lines_min (request_lines request orientation))
                       ..<nat (mx - lines_min (request_lines request orientation))]
            \<or> empty (lines (request_lines request orientation) ! j))
          \<and> \<not> line_covered request orientation mn mx j)"
proof -
  let ?L = "request_lines request orientation"
  let ?w = "[nat (mn - lines_min ?L)..<nat (mx - lines_min ?L)]"
  let ?l1 = "fold (\<lambda>i. line_update i expand_reset_line) ?w (lines ?L)"
  let ?l2 = "fold (expand_non_spanning_child ?L orientation mn mx) (children (grid request)) ?l1"
  let ?l3 = "fold (expand_spanning_child ?L orientation mn mx) (children (grid request)) ?l2"
  have "empty (marked_window request orientation mn mx ! j) = empty (fold promote_line ?w ?l3 ! j)"
    by (simp add: marked_window_def Let_def del: fold.simps)
  also have "\<dots> = empty (?l3 ! j)"
    by (rule fold_promote_field) simp
  also have "\<dots> = (empty (?l2 ! j)
        \<and> \<not> list_ex (\<lambda>c. spanning_hits ?L orientation mn mx c j) (children (grid request)))"
  proof (rule fold_children_empty)
    show "length (expand_spanning_child ?L orientation mn mx c ls) = length ls" for c ls by simp
    show "j < length ls \<Longrightarrow> empty (expand_spanning_child ?L orientation mn mx c ls ! j)
        = (empty (ls ! j) \<and> \<not> spanning_hits ?L orientation mn mx c j)" for c ls
      by (rule expand_spanning_child_empty)
    show "j < length ?l2" using j by simp
  qed
  also have "empty (?l2 ! j) = (empty (?l1 ! j)
        \<and> \<not> list_ex (\<lambda>c. non_spanning_hits ?L orientation mn mx c j) (children (grid request)))"
  proof (rule fold_children_empty)
    show "length (expand_non_spanning_child ?L orientation mn mx c ls) = length ls" for c ls by simp
    show "j < length ls \<Longrightarrow> empty (expand_non_spanning_child ?L orientation mn mx c ls ! j)
        = (empty (ls ! j) \<and> \<not> non_spanning_hits ?L orientation mn mx c j)" for c ls
      by (rule expand_non_spanning_child_empty)
    show "j < length ?l1" using j by simp
  qed
  also have "empty (?l1 ! j) = (j \<in> set ?w \<or> empty (lines ?L ! j))"
    using j by (rule fold_reset_empty)
  finally show ?thesis
    by (auto simp add: line_covered_def list_ex_iff)
qed

lemma marked_window_minimum:
  assumes "j < length (lines (request_lines request orientation))"
  shows "minimum (marked_window request orientation mn mx ! j)
       = minimum (lines (request_lines request orientation) ! j)"
proof -
  let ?L = "request_lines request orientation"
  let ?w = "[nat (mn - lines_min ?L)..<nat (mx - lines_min ?L)]"
  let ?l1 = "fold (\<lambda>i. line_update i expand_reset_line) ?w (lines ?L)"
  let ?l2 = "fold (expand_non_spanning_child ?L orientation mn mx) (children (grid request)) ?l1"
  let ?l3 = "fold (expand_spanning_child ?L orientation mn mx) (children (grid request)) ?l2"
  have "minimum (marked_window request orientation mn mx ! j) = minimum (fold promote_line ?w ?l3 ! j)"
    by (simp add: marked_window_def Let_def del: fold.simps)
  also have "\<dots> = minimum (?l3 ! j)"
    by (rule fold_promote_field) simp
  also have "\<dots> = minimum (?l2 ! j)"
    using assms by (intro fold_expand_spanning_field) simp_all
  also have "\<dots> = minimum (?l1 ! j)"
    using assms by (intro fold_expand_non_spanning_field) simp_all
  also have "\<dots> = minimum (lines ?L ! j)"
    by (rule fold_reset_field) (simp add: expand_reset_line_def)
  finally show ?thesis .
qed

text \<open>
  \<^verbatim>\<open>gtk_grid_request_compute_expand\<close> over a window within the lines of the request: the
  lines it leaves and the number of lines of the window that are not empty.
\<close>

lemma compute_expand_window:
  assumes "lines_min (request_lines request orientation) \<le> mn" "mn \<le> mx"
    and "mx \<le> lines_max (request_lines request orientation)"
  shows "fst (gtk_grid_request_compute_expand request orientation mn mx)
           = set_lines request orientation (marked_window request orientation mn mx)"
    and "fst (snd (gtk_grid_request_compute_expand request orientation mn mx))
           = int (length (filled_lines (marked_window request orientation mn mx)
                    [nat (mn - lines_min (request_lines request orientation))
                     ..<nat (mx - lines_min (request_lines request orientation))]))"
proof -
  let ?L = "request_lines request orientation"
  let ?w = "[nat (mn - lines_min ?L)..<nat (mx - lines_min ?L)]"
  let ?l1 = "fold (\<lambda>i. line_update i expand_reset_line) ?w (lines ?L)"
  let ?l2 = "fold (expand_non_spanning_child ?L orientation mn mx) (children (grid request)) ?l1"
  let ?l3 = "fold (expand_spanning_child ?L orientation mn mx) (children (grid request)) ?l2"
  have mn: "max mn (lines_min ?L) = mn" and mx: "min mx (lines_max ?L) = mx"
    using assms by simp_all
  obtain ls e x where f: "fold expand_count_line ?w (?l3, 0, 0) = (ls, e, x)"
    by (cases "fold expand_count_line ?w (?l3, 0, 0)") auto
  have ce: "gtk_grid_request_compute_expand request orientation mn mx
      = (set_lines request orientation ls, mx - mn - e, x)"
    unfolding gtk_grid_request_compute_expand_def Let_def mn mx
    by (simp add: f del: fold.simps)
  have "ls = fst (fold expand_count_line ?w (?l3, 0, 0))" by (simp add: f)
  then have ls: "ls = marked_window request orientation mn mx"
    by (simp add: expand_count_lines marked_window_def Let_def del: fold.simps)
  have "e = fst (snd (fold expand_count_line ?w (?l3, 0, 0)))" by (simp add: f)
  then have e: "e = int (length (filter (\<lambda>i. empty (?l3 ! i)) ?w))"
    by (simp add: expand_count_empty del: fold.simps)
  have same: "empty (marked_window request orientation mn mx ! i) = empty (?l3 ! i)" for i
  proof -
    have "empty (fold promote_line ?w ?l3 ! i) = empty (?l3 ! i)"
      by (rule fold_promote_field) simp
    then show ?thesis
      by (simp add: marked_window_def Let_def del: fold.simps)
  qed
  define em where "em = length (filter (\<lambda>i. empty (?l3 ! i)) ?w)"
  define ne where "ne = length (filter (\<lambda>i. \<not> empty (?l3 ! i)) ?w)"
  have "em + ne = length ?w"
    unfolding em_def ne_def by (rule sum_length_filter_compl)
  moreover have "int (length ?w) = mx - mn"
    using assms by simp
  moreover have "e = int em"
    unfolding em_def by (rule e)
  ultimately have "mx - mn - e = int ne"
    by linarith
  moreover have "filled_lines (marked_window request orientation mn mx) ?w
      = filter (\<lambda>i. \<not> empty (?l3 ! i)) ?w"
    unfolding filled_lines_def by (simp only: same)
  ultimately have cnt: "mx - mn - e
      = int (length (filled_lines (marked_window request orientation mn mx) ?w))"
    by (simp only: ne_def)
  show "fst (gtk_grid_request_compute_expand request orientation mn mx)
           = set_lines request orientation (marked_window request orientation mn mx)"
    by (simp add: ce ls)
  show "fst (snd (gtk_grid_request_compute_expand request orientation mn mx))
           = int (length (filled_lines (marked_window request orientation mn mx) ?w))"
    by (simp add: ce cnt)
qed

lemma marked_lines_window:
  "marked_lines request orientation
     = marked_window request orientation (lines_min (request_lines request orientation))
         (lines_max (request_lines request orientation))"
  by (simp add: marked_lines_def marked_window_def Let_def del: fold.simps)

lemma distribute_non_homogeneous_frame [simp]:
  "lines_min (gtk_grid_distribute_non_homogeneous dna L nonempty ec size0 mn mx) = lines_min L"
  "lines_max (gtk_grid_distribute_non_homogeneous dna L nonempty ec size0 mn mx) = lines_max L"
  "length (lines (gtk_grid_distribute_non_homogeneous dna L nonempty ec size0 mn mx)) = length (lines L)"
  by (simp_all add: gtk_grid_distribute_non_homogeneous_def Let_def split: prod.splits
      del: fold.simps assign_allocations.simps)

lemma distribute_non_homogeneous_field:
  assumes "\<And>v l. f (l\<lparr>allocation := v\<rparr>) = f l" "j < length (lines L)"
  shows "f (lines (gtk_grid_distribute_non_homogeneous dna L nonempty ec size0 mn mx) ! j)
       = f (lines L ! j)"
  using assms
  by (simp add: gtk_grid_distribute_non_homogeneous_def Let_def assign_allocations_field
      split: prod.splits del: fold.simps assign_allocations.simps)

lemma distribute_non_homogeneous_outside:
  assumes "j \<notin> set (window_lines L mn mx)" "j < length (lines L)"
  shows "lines (gtk_grid_distribute_non_homogeneous dna L nonempty ec size0 mn mx) ! j = lines L ! j"
proof -
  from assms(1) have "j \<notin> set (filled_lines (lines L) (window_lines L mn mx))"
    by (simp add: filled_lines_def)
  then have "assign_allocations sizes extra (window_lines L mn mx) 0 rest (lines L) ! j = lines L ! j"
    for sizes extra rest
    using assms(2) by (rule assign_allocations_other)
  then show ?thesis
    by (simp add: gtk_grid_distribute_non_homogeneous_def Let_def window_lines_def
        split: prod.splits del: fold.simps assign_allocations.simps)
qed

lemma c_div_ge:
  assumes "0 < n" "0 \<le> m" "n * m \<le> s"
  shows "m \<le> c_div s n"
proof -
  have "0 \<le> n * m" using assms by simp
  with assms(3) have s0: "0 \<le> s" by linarith
  have "(n * m) div n \<le> s div n"
    using assms(3,1) by (rule zdiv_mono1)
  then show ?thesis
    using assms(1) s0 by (simp add: c_div_pos)
qed

text \<open>
  The lines after \<^verbatim>\<open>gtk_grid_request_allocate\<close>, from what the first part of the function
  computes: a line that is not empty, in a part of the lines with a line counted as not
  empty, is allocated at least its minimum; with homogeneous lines provided that the
  size of each part covers the common minimum \<open>m\<close> for each of its lines.
\<close>

lemma allocate_cover:
  fixes request orientation total_size baseline dna r n1 e1 n2 e2 split s1 s2 j m
  defines "Lr \<equiv> request_lines r orientation"
  defines "rq2 \<equiv> gtk_grid_request_allocate dna request orientation total_size baseline"
  assumes as: "allocate_sizes request orientation total_size baseline = (r, n1, e1, n2, e2, split, s1, s2)"
    and c: "natural_allocation_contract dna"
    and len: "length (lines Lr) = nat (lines_max Lr - lines_min Lr)"
    and sp: "lines_min Lr \<le> split" "split \<le> lines_max Lr"
    and j: "j < length (lines Lr)" and ne: "\<not> empty (lines Lr ! j)"
    and n0: "0 \<le> n1" "0 \<le> n2"
    and p1: "int j < split - lines_min Lr \<Longrightarrow> n1 \<noteq> 0"
    and p2: "split - lines_min Lr \<le> int j \<Longrightarrow> n2 \<noteq> 0"
    and hom: "homogeneous (linedata (grid r) orientation)
          \<Longrightarrow> 0 \<le> m \<and> minimum (lines Lr ! j) \<le> m
              \<and> (0 < n1 \<longrightarrow> n1 * m \<le> s1) \<and> (0 < n2 \<longrightarrow> n2 * m \<le> s2)"
  shows "lines_min (request_lines rq2 orientation) = lines_min Lr"
    and "minimum (lines Lr ! j) \<le> allocation (lines (request_lines rq2 orientation) ! j)"
proof -
  define w where "w = [0..<nat (lines_max Lr - lines_min Lr)]"
  have jw: "j \<in> set w" using j len by (simp add: w_def)
  have some: "\<not> (n1 = 0 \<and> n2 = 0)"
    using p1 p2 by (cases "int j < split - lines_min Lr") auto
  define alloc where "alloc =
     (if homogeneous (linedata (grid r) orientation) then
        (let extra = (if n1 > 0 then c_div s1 n1 else 0);
             rest = (if n1 > 0 then c_mod s1 n1 else 0);
             extra2 = c_div s2 n2;
             take2 = (n2 > 0 \<and> (extra2 < extra \<or> n1 = 0));
             rest = (if take2 then c_mod s2 n2 else rest);
             extra = (if take2 then extra2 else extra)
         in homogeneous_allocations extra w rest (lines Lr))
      else
        (let L1 = gtk_grid_distribute_non_homogeneous dna Lr n1 e1 s1 (lines_min Lr) split;
             L2 = gtk_grid_distribute_non_homogeneous dna L1 n2 e2 s2 split (lines_max Lr)
         in lines L2))"
  from some have some': "(n1 = 0 \<and> n2 = 0) = False" by blast
  have al: "rq2 = set_lines r orientation (fold (allocate_baseline_line (grid r) Lr) w alloc)"
    unfolding rq2_def gtk_grid_request_allocate_def as prod.case some' if_False alloc_def w_def Lr_def Let_def
    by (rule refl)
  show "lines_min (request_lines rq2 orientation) = lines_min Lr"
    unfolding al by (simp add: Lr_def)
  have "minimum (lines Lr ! j) \<le> allocation (alloc ! j)"
  proof (cases "homogeneous (linedata (grid r) orientation)")
    case True
    from hom [OF True] have m0: "0 \<le> m" and mj: "minimum (lines Lr ! j) \<le> m"
      and h1: "0 < n1 \<Longrightarrow> n1 * m \<le> s1" and h2: "0 < n2 \<Longrightarrow> n2 * m \<le> s2"
      by simp_all
    define extra1 where "extra1 = (if n1 > 0 then c_div s1 n1 else 0)"
    define take2 where "take2 = (n2 > 0 \<and> (c_div s2 n2 < extra1 \<or> n1 = 0))"
    define extra where "extra = (if take2 then c_div s2 n2 else extra1)"
    have e2: "m \<le> c_div s2 n2" if "0 < n2"
      using that m0 h2 [OF that] by (rule c_div_ge)
    have e1: "m \<le> extra1" if "0 < n1"
      using that c_div_ge [OF that m0 h1 [OF that]] by (simp add: extra1_def)
    have me: "m \<le> extra"
    proof (cases take2)
      case True
      then show ?thesis using e2 by (simp add: extra_def take2_def)
    next
      case False
      show ?thesis
      proof (cases "0 < n1")
        case True
        with False e1 show ?thesis by (simp add: extra_def)
      next
        case n1: False
        with n0 have "n1 = 0" by simp
        with some n0 have "0 < n2" by simp
        with \<open>n1 = 0\<close> have take2 by (simp add: take2_def)
        with False show ?thesis by simp
      qed
    qed
    define rest where "rest = (if take2 then c_mod s2 n2 else if n1 > 0 then c_mod s1 n1 else 0)"
    have a: "alloc = homogeneous_allocations extra w rest (lines Lr)"
      unfolding alloc_def Let_def extra_def take2_def extra1_def rest_def
      using True by simp
    have "extra \<le> allocation (homogeneous_allocations extra w rest (lines Lr) ! j)"
      using jw j ne by (intro homogeneous_allocations_ge) (simp_all add: w_def)
    with me mj show ?thesis by (simp add: a)
  next
    case False
    define L1 where "L1 = gtk_grid_distribute_non_homogeneous dna Lr n1 e1 s1 (lines_min Lr) split"
    define L2 where "L2 = gtk_grid_distribute_non_homogeneous dna L1 n2 e2 s2 split (lines_max Lr)"
    have a: "alloc = lines L2"
      using False by (simp add: alloc_def Let_def L1_def L2_def)
    have jl1: "j < length (lines L1)" using j by (simp add: L1_def)
    show ?thesis
    proof (cases "int j < split - lines_min Lr")
      case True
      then have n1: "n1 \<noteq> 0" by (rule p1)
      have "nat (split - lines_min Lr) \<le> length (lines Lr)"
        using sp len by simp
      moreover have "j \<in> set (filled_lines (lines Lr) (window_lines Lr (lines_min Lr) split))"
        using True ne by (simp add: filled_lines_def window_lines_def)
      ultimately have "minimum (lines Lr ! j) \<le> allocation (lines L1 ! j)"
        unfolding L1_def by (intro distribute_non_homogeneous_ge [OF c n1])
      moreover have "j \<notin> set (window_lines L1 split (lines_max Lr))"
        using True by (simp add: window_lines_def L1_def)
      then have "lines L2 ! j = lines L1 ! j"
        unfolding L2_def using jl1 by (rule distribute_non_homogeneous_outside)
      ultimately show ?thesis by (simp add: a)
    next
      case False
      then have n2: "n2 \<noteq> 0" by (intro p2) simp
      have f: "empty (lines L1 ! j) = empty (lines Lr ! j)" "minimum (lines L1 ! j) = minimum (lines Lr ! j)"
        unfolding L1_def using j by (simp_all add: distribute_non_homogeneous_field)
      have "nat (lines_max Lr - lines_min L1) \<le> length (lines L1)"
        using len by (simp add: L1_def)
      moreover have "j \<in> set (filled_lines (lines L1) (window_lines L1 split (lines_max Lr)))"
        using False ne j len sp by (simp add: filled_lines_def window_lines_def f(1)) (simp add: L1_def)
      ultimately have "minimum (lines L1 ! j) \<le> allocation (lines L2 ! j)"
        unfolding L2_def by (intro distribute_non_homogeneous_ge [OF c n2])
      then show ?thesis by (simp add: a f(2))
    qed
  qed
  then show "minimum (lines Lr ! j) \<le> allocation (lines (request_lines rq2 orientation) ! j)"
    unfolding al by simp
qed

lemma line_covered_cong:
  assumes "grid r' = grid r"
    and "lines_min (request_lines r' orientation) = lines_min (request_lines r orientation)"
  shows "line_covered r' orientation mn mx j = line_covered r orientation mn mx j"
  using assms
  by (simp add: line_covered_def non_spanning_hits_def spanning_hits_def line_index_def)

lemma line_covered_mono:
  assumes "line_covered r orientation mn mx j" "mn' \<le> mn" "mx \<le> mx'"
  shows "line_covered r orientation mn' mx' j"
proof -
  let ?L = "request_lines r orientation"
  from assms(1) obtain c where c: "c \<in> set (children (grid r))"
    and h: "non_spanning_hits ?L orientation mn mx c j \<or> spanning_hits ?L orientation mn mx c j"
    by (auto simp add: line_covered_def list_ex_iff)
  from h have "non_spanning_hits ?L orientation mn' mx' c j \<or> spanning_hits ?L orientation mn' mx' c j"
  proof
    assume "non_spanning_hits ?L orientation mn mx c j"
    then have "non_spanning_hits ?L orientation mn' mx' c j"
      using assms(2,3) by (auto simp add: non_spanning_hits_def Let_def)
    then show ?thesis ..
  next
    assume s: "spanning_hits ?L orientation mn mx c j"
    let ?a = "attach c orientation"
    from s have v: "widget_visible (widget c)" "span ?a \<noteq> 1"
      by (simp_all add: spanning_hits_def Let_def)
    from s obtain i where i: "i < nat (span ?a)" "\<not> (pos ?a + int i \<ge> mx \<or> pos ?a + 1 < mn)"
      "line_index ?L ?a i = j"
      by (auto simp add: spanning_hits_def Let_def list_ex_iff)
    from i(2) assms(2,3) have "\<not> (pos ?a + int i \<ge> mx' \<or> pos ?a + 1 < mn')" by linarith
    with i(1,3) have "\<exists>i\<in>set [0..<nat (span ?a)].
        \<not> (pos ?a + int i \<ge> mx' \<or> pos ?a + 1 < mn') \<and> line_index ?L ?a i = j"
      by (intro bexI [of _ i]) simp_all
    with v have "spanning_hits ?L orientation mn' mx' c j"
      by (simp add: spanning_hits_def Let_def list_ex_iff)
    then show ?thesis ..
  qed
  with c show ?thesis
    by (auto simp add: line_covered_def list_ex_iff)
qed

text \<open>A visible child over several lines covers its line \<open>i\<close> in every window that admits it.\<close>

lemma spanning_child_covers:
  assumes "child \<in> set (children (grid r))" "widget_visible (widget child)"
    and "1 < span (attach child orientation)" "i < nat (span (attach child orientation))"
    and "pos (attach child orientation) + int i < mx" "mn \<le> pos (attach child orientation) + 1"
  shows "line_covered r orientation mn mx
           (line_index (request_lines r orientation) (attach child orientation) i)"
proof -
  let ?a = "attach child orientation"
  from assms(5,6) have "\<not> (pos ?a + int i \<ge> mx \<or> pos ?a + 1 < mn)" by linarith
  with assms(4) have "\<exists>k\<in>set [0..<nat (span ?a)].
      \<not> (pos ?a + int k \<ge> mx \<or> pos ?a + 1 < mn)
      \<and> line_index (request_lines r orientation) ?a k = line_index (request_lines r orientation) ?a i"
    by (intro bexI [of _ i]) simp_all
  with assms(2,3)
  have "spanning_hits (request_lines r orientation) orientation mn mx child
           (line_index (request_lines r orientation) (attach child orientation) i)"
    by (simp add: spanning_hits_def Let_def list_ex_iff)
  with assms(1) show ?thesis
    by (auto simp add: line_covered_def list_ex_iff)
qed

text \<open>
  The first part of \<^verbatim>\<open>gtk_grid_request_allocate\<close> when the lines are split at the baseline
  row: the lines are marked for the part before the row, then for the part from the row
  on, and each part has its size.
\<close>

lemma allocate_sizes_split:
  fixes request orientation total_size baseline
  defines "L \<equiv> request_lines request orientation"
  defines "b \<equiv> baseline_row (grid request)"
  defines "ml1 \<equiv> marked_window request orientation (lines_min L) b"
  defines "r1 \<equiv> set_lines request orientation ml1"
  defines "ml2 \<equiv> marked_window r1 orientation b (lines_max L)"
  defines "n1 \<equiv> int (length (filled_lines ml1 [0..<nat (b - lines_min L)]))"
  defines "n2 \<equiv> int (length (filled_lines ml2 [nat (b - lines_min L)..<nat (lines_max L - lines_min L)]))"
  defines "sp \<equiv> spacing (linedata (grid request) orientation)"
  defines "split_pos \<equiv> baseline - minimum_above (lines L ! nat (b - lines_min L))"
  assumes split: "baseline_split request orientation baseline"
  shows "\<exists>e1 e2. allocate_sizes request orientation total_size baseline
     = (set_lines r1 orientation ml2, n1, e1, n2, e2, b,
        (if n2 > 0 then split_pos - n1 * sp else total_size - (n1 - 1) * sp),
        (if n2 > 0 then total_size - split_pos - (n2 - 1) * sp else 0))"
proof -
  from split have lo: "lines_min L \<le> b" and hi: "b < lines_max L"
    unfolding baseline_split_def Let_def L_def b_def by blast+
  obtain x1 k1 e1 where ce1: "gtk_grid_request_compute_expand request orientation (lines_min L) b
      = (x1, k1, e1)"
    by (cases "gtk_grid_request_compute_expand request orientation (lines_min L) b") auto
  have a1: "lines_min (request_lines request orientation) \<le> lines_min L" "lines_min L \<le> b"
    "b \<le> lines_max (request_lines request orientation)"
    using lo hi by (simp_all add: L_def)
  from compute_expand_window [OF a1] have x1: "x1 = r1" and k1: "k1 = n1"
    unfolding ce1 r1_def ml1_def n1_def by (simp_all add: L_def)
  have L1: "lines_min (request_lines r1 orientation) = lines_min L"
    "lines_max (request_lines r1 orientation) = lines_max L"
    by (simp_all add: r1_def L_def)
  obtain x2 k2 e2 where ce2: "gtk_grid_request_compute_expand r1 orientation b (lines_max L)
      = (x2, k2, e2)"
    by (cases "gtk_grid_request_compute_expand r1 orientation b (lines_max L)") auto
  have a2: "lines_min (request_lines r1 orientation) \<le> b" "b \<le> lines_max L"
    "lines_max L \<le> lines_max (request_lines r1 orientation)"
    using lo hi by (simp_all add: L1)
  from compute_expand_window [OF a2] have x2: "x2 = set_lines r1 orientation ml2" and k2: "k2 = n2"
    unfolding ce2 ml2_def n2_def by (simp_all add: L1)
  have "allocate_sizes request orientation total_size baseline
     = (set_lines r1 orientation ml2, n1, e1, n2, e2, b,
        (if n2 > 0 then split_pos - n1 * sp else total_size - (n1 - 1) * sp),
        (if n2 > 0 then total_size - split_pos - (n2 - 1) * sp else 0))"
  proof -
    note c1 = ce1 [unfolded x1 k1 L_def b_def]
    note c2 = ce2 [unfolded x2 k2 L_def b_def]
    show ?thesis
      unfolding allocate_sizes_def Let_def L_def b_def sp_def split_pos_def
      using split by (simp add: c1 c2)
  qed
  then show ?thesis by blast
qed

lemma marked_window_field:
  assumes e: "\<And>l v. F (l\<lparr>empty := v\<rparr>) = F l" and x: "\<And>l v. F (l\<lparr>expand := v\<rparr>) = F l"
    and n: "\<And>l v. F (l\<lparr>need_expand := v\<rparr>) = F l"
    and j: "j < length (lines (request_lines request orientation))"
  shows "F (marked_window request orientation mn mx ! j)
       = F (lines (request_lines request orientation) ! j)"
proof -
  let ?L = "request_lines request orientation"
  let ?w = "[nat (mn - lines_min ?L)..<nat (mx - lines_min ?L)]"
  let ?l1 = "fold (\<lambda>i. line_update i expand_reset_line) ?w (lines ?L)"
  let ?l2 = "fold (expand_non_spanning_child ?L orientation mn mx) (children (grid request)) ?l1"
  let ?l3 = "fold (expand_spanning_child ?L orientation mn mx) (children (grid request)) ?l2"
  have "F (marked_window request orientation mn mx ! j) = F (fold promote_line ?w ?l3 ! j)"
    by (simp add: marked_window_def Let_def del: fold.simps)
  also have "\<dots> = F (?l3 ! j)"
    by (rule fold_promote_field) (rule x)
  also have "\<dots> = F (?l2 ! j)"
  proof (rule fold_expand_spanning_field)
    show "F (l\<lparr>empty := v\<rparr>) = F l" for l v by (rule e)
    show "F (l\<lparr>need_expand := v\<rparr>) = F l" for l v by (rule n)
    show "j < length ?l2" using j by simp
  qed
  also have "\<dots> = F (?l1 ! j)"
  proof (rule fold_expand_non_spanning_field)
    show "F (l\<lparr>empty := v\<rparr>) = F l" for l v by (rule e)
    show "F (l\<lparr>expand := v\<rparr>) = F l" for l v by (rule x)
    show "j < length ?l1" using j by simp
  qed
  also have "\<dots> = F (lines ?L ! j)"
    by (rule fold_reset_field) (simp add: expand_reset_line_def e x n)
  finally show ?thesis .
qed

subsection \<open>The minimum baseline that \<^verbatim>\<open>gtk_grid_request_sum\<close> reports\<close>

lemma sum_line_baseline:
  "fst (snd (snd (sum_line g orientation L i p)))
     = (if orientation = GTK_ORIENTATION_VERTICAL \<and> lines_min L + int i = baseline_row g
           \<and> minimum_above (lines L ! i) \<noteq> -1
        then fst p + minimum_above (lines L ! i) else fst (snd (snd p)))"
proof -
  obtain a b c d where p: "p = (a, b, c, d)" by (cases p) auto
  show ?thesis by (simp add: p sum_line_def Let_def)
qed

lemma fold_sum_line_no_hit:
  assumes "\<forall>i\<in>set idx. lines_min L + int i \<noteq> baseline_row g"
  shows "fst (snd (snd (fold (sum_line g orientation L) idx p))) = fst (snd (snd p))"
  using assms
proof (induction idx arbitrary: p)
  case Nil
  show ?case by simp
next
  case (Cons i idx)
  then have "fst (snd (snd (fold (sum_line g orientation L) idx (sum_line g orientation L i p))))
      = fst (snd (snd (sum_line g orientation L i p)))"
    by (intro Cons.IH) simp
  also have "\<dots> = fst (snd (snd p))"
    using Cons.prems by (simp add: sum_line_baseline)
  finally show ?case by simp
qed

lemma fold_sum_line_baseline:
  assumes k: "k < n" and v: "orientation = GTK_ORIENTATION_VERTICAL"
    and b: "lines_min L + int k = baseline_row g" and ma: "minimum_above (lines L ! k) \<noteq> -1"
  shows "fst (snd (snd (fold (sum_line g orientation L) [0..<n] p)))
     = fst p + (\<Sum>i\<leftarrow>[0..<k]. minimum (lines L ! i))
       + spacing (linedata g orientation) * int (length (filled_lines (lines L) [0..<k]))
       + minimum_above (lines L ! k)"
proof -
  have "[0..<k + (n - k)] = [0..<k] @ [k..<k + (n - k)]"
    by (rule upt_add_eq_append) simp
  moreover have "k + (n - k) = n" using k by simp
  moreover have "[k..<n] = k # [Suc k..<n]" using k by (rule upt_conv_Cons)
  ultimately have split: "[0..<n] = [0..<k] @ k # [Suc k..<n]"
    by simp
  define p1 where "p1 = fold (sum_line g orientation L) [0..<k] p"
  have f1: "fst p1 = fst p + (\<Sum>i\<leftarrow>[0..<k]. minimum (lines L ! i))
       + spacing (linedata g orientation) * int (length (filled_lines (lines L) [0..<k]))"
    unfolding p1_def by (rule fold_sum_line_fst)
  have nh: "\<forall>i\<in>set [Suc k..<n]. lines_min L + int i \<noteq> baseline_row g"
    using b by auto
  have "fst (snd (snd (fold (sum_line g orientation L) [0..<n] p)))
      = fst (snd (snd (fold (sum_line g orientation L) [Suc k..<n] (sum_line g orientation L k p1))))"
    by (simp add: split p1_def del: upt_Suc)
  also have "\<dots> = fst (snd (snd (sum_line g orientation L k p1)))"
    using nh by (rule fold_sum_line_no_hit)
  also have "\<dots> = fst p1 + minimum_above (lines L ! k)"
    using v b ma by (simp add: sum_line_baseline)
  finally show ?thesis by (simp add: f1)
qed

lemma request_sum_minimum_baseline:
  fixes request orientation baseline
  defines "L \<equiv> request_lines request orientation"
  defines "k \<equiv> nat (baseline_row (grid request) - lines_min L)"
  assumes G: "G_MININT \<le> lines_min L" "lines_max L \<le> G_MAXINT"
    and split: "baseline_split request orientation baseline"
    and len: "length (lines L) = nat (lines_max L - lines_min L)"
  shows "fst (snd (snd (snd (gtk_grid_request_sum request orientation))))
     = (\<Sum>i\<leftarrow>[0..<k]. minimum (marked_lines request orientation ! i))
       + spacing (linedata (grid request) orientation)
           * int (length (filled_lines (marked_lines request orientation) [0..<k]))
       + minimum_above (lines L ! k)"
proof -
  let ?ml = "marked_lines request orientation"
  let ?w = "[0..<nat (lines_max L - lines_min L)]"
  from split have v: "orientation = GTK_ORIENTATION_VERTICAL"
    and lo: "lines_min L \<le> baseline_row (grid request)"
    and hi: "baseline_row (grid request) < lines_max L"
    and ma: "minimum_above (lines L ! k) \<noteq> -1"
    unfolding baseline_split_def Let_def L_def k_def by blast+
  have le: "lines_min L \<le> lines_max L" using lo hi by simp
  have kn: "k < nat (lines_max L - lines_min L)" using lo hi by (simp add: k_def)
  obtain r ne ex where ce: "gtk_grid_request_compute_expand request orientation G_MININT G_MAXINT = (r, ne, ex)"
    by (cases "gtk_grid_request_compute_expand request orientation G_MININT G_MAXINT") auto
  from compute_expand_all [OF G [unfolded L_def] le [unfolded L_def]]
  have r: "r = set_lines request orientation ?ml"
    by (simp add: ce)
  let ?L' = "request_lines r orientation"
  have L': "lines ?L' = ?ml" "lines_min ?L' = lines_min L" "lines_max ?L' = lines_max L"
    "grid r = grid request"
    by (simp_all add: r L_def)
  have ma': "minimum_above (?ml ! k) = minimum_above (lines L ! k)"
    unfolding marked_lines_window L_def
    by (rule marked_window_field) (use kn len in \<open>simp_all add: L_def\<close>)
  obtain mn nt mb nb where f: "fold (sum_line (grid r) orientation ?L') ?w (0, 0, -1, -1) = (mn, nt, mb, nb)"
    by (cases "fold (sum_line (grid r) orientation ?L') ?w (0, 0, -1, -1)") auto
  have "mb = fst (snd (snd (fold (sum_line (grid r) orientation ?L') ?w (0, 0, -1, -1))))"
    by (simp add: f)
  also have "\<dots> = fst (0::int, 0::int, -1::int, -1::int) + (\<Sum>i\<leftarrow>[0..<k]. minimum (lines ?L' ! i))
       + spacing (linedata (grid r) orientation) * int (length (filled_lines (lines ?L') [0..<k]))
       + minimum_above (lines ?L' ! k)"
  proof (rule fold_sum_line_baseline [OF kn v])
    show "lines_min ?L' + int k = baseline_row (grid r)"
      using lo by (simp add: L' k_def)
    show "minimum_above (lines ?L' ! k) \<noteq> -1"
      using ma by (simp add: L' ma')
  qed
  finally have mb: "mb = (\<Sum>i\<leftarrow>[0..<k]. minimum (?ml ! i))
       + spacing (linedata (grid request) orientation) * int (length (filled_lines ?ml [0..<k]))
       + minimum_above (lines L ! k)"
    by (simp add: L' ma')
  have s: "fst (snd (snd (snd (gtk_grid_request_sum request orientation)))) = mb"
    unfolding gtk_grid_request_sum_def ce Let_def
    using f by (simp add: L' L_def del: fold.simps)
  show ?thesis
    unfolding s mb ..
qed

lemma length_filter_mono:
  assumes "\<forall>x\<in>set xs. P x \<longrightarrow> Q x"
  shows "length (filter P xs) \<le> length (filter Q xs)"
  using assms by (induction xs) auto

text \<open>
  In a pass split at the baseline row \<open>b\<close>, the lines of a visible child over several
  lines are not empty, unless the child starts two or more lines before \<open>b\<close> and reaches
  \<open>b\<close>.
\<close>

lemma split_child_lines_filled:
  fixes request orientation child b i
  defines "L \<equiv> request_lines request orientation"
  defines "a \<equiv> attach child orientation"
  defines "ml1 \<equiv> marked_window request orientation (lines_min L) b"
  defines "ml2 \<equiv> marked_window (set_lines request orientation ml1) orientation b (lines_max L)"
  assumes child: "child \<in> set (children (grid request))"
    and vis: "widget_visible (widget child)" and sp: "1 < span a"
    and lo: "lines_min L \<le> pos a" and hi: "pos a + span a \<le> lines_max L"
    and rng: "nat (pos a - lines_min L) + nat (span a) \<le> length (lines L)"
    and reach: "\<not> (pos a + 1 < b \<and> b < pos a + span a)"
    and i: "i < nat (span a)"
  shows "\<not> empty (ml2 ! line_index L a i)"
    and "int (line_index L a i) < b - lines_min L \<Longrightarrow> \<not> empty (ml1 ! line_index L a i)"
proof -
  let ?j = "line_index L a i"
  let ?r1 = "set_lines request orientation ml1"
  have ij: "int ?j = pos a - lines_min L + int i"
    using lo by (simp add: line_index_def)
  have jl: "?j < length (lines L)"
    using lo rng i by (simp add: line_index_def)
  have e1: "empty (ml1 ! ?j)
      = ((?j \<in> set [nat (lines_min L - lines_min L)..<nat (b - lines_min L)] \<or> empty (lines L ! ?j))
         \<and> \<not> line_covered request orientation (lines_min L) b ?j)"
    unfolding ml1_def L_def by (rule marked_window_empty) (use jl in \<open>simp add: L_def\<close>)
  have L1: "lines (request_lines ?r1 orientation) = ml1"
    "lines_min (request_lines ?r1 orientation) = lines_min L"
    "grid ?r1 = grid request"
    by (simp_all add: L_def)
  have "empty (ml2 ! ?j)
      = ((?j \<in> set [nat (b - lines_min (request_lines ?r1 orientation))
                     ..<nat (lines_max L - lines_min (request_lines ?r1 orientation))]
           \<or> empty (lines (request_lines ?r1 orientation) ! ?j))
         \<and> \<not> line_covered ?r1 orientation b (lines_max L) ?j)"
    unfolding ml2_def by (rule marked_window_empty) (use jl in \<open>simp add: L1 ml1_def L_def\<close>)
  moreover have "line_covered ?r1 orientation b (lines_max L) ?j
      = line_covered request orientation b (lines_max L) ?j"
    by (rule line_covered_cong) (simp_all add: L_def)
  ultimately have e2: "empty (ml2 ! ?j)
      = ((?j \<in> set [nat (b - lines_min L)..<nat (lines_max L - lines_min L)] \<or> empty (ml1 ! ?j))
         \<and> \<not> line_covered request orientation b (lines_max L) ?j)"
    by (simp only: L1)
  have c1: "line_covered request orientation (lines_min L) b ?j" if "pos a + int i < b"
    unfolding L_def a_def
    by (rule spanning_child_covers) (use child vis sp i that lo in \<open>simp_all add: a_def L_def\<close>)
  have c2: "line_covered request orientation b (lines_max L) ?j" if "b \<le> pos a + int i"
  proof -
    from that i have "b < pos a + span a" by linarith
    with reach have "b \<le> pos a + 1" by linarith
    moreover from i hi have "pos a + int i < lines_max L" by linarith
    ultimately show ?thesis
      unfolding L_def a_def
      by (intro spanning_child_covers) (use child vis sp i in \<open>simp_all add: a_def L_def\<close>)
  qed
  show "\<not> empty (ml2 ! ?j)"
  proof (cases "pos a + int i < b")
    case True
    then have "\<not> empty (ml1 ! ?j)" using e1 c1 by simp
    moreover from True ij have "?j < nat (b - lines_min L)"
      by linarith
    ultimately show ?thesis using e2 by simp
  next
    case False
    then show ?thesis using e2 c2 by simp
  qed
  show "\<not> empty (ml1 ! ?j)" if "int ?j < b - lines_min L"
  proof -
    from that ij have "pos a + int i < b" by linarith
    then show ?thesis using e1 c1 by simp
  qed
qed

text \<open>A window marks no more lines as not empty than the whole range does.\<close>

lemma split_counts:
  fixes request orientation b
  defines "L \<equiv> request_lines request orientation"
  defines "k \<equiv> nat (b - lines_min L)"
  defines "n \<equiv> nat (lines_max L - lines_min L)"
  defines "ml1 \<equiv> marked_window request orientation (lines_min L) b"
  defines "ml2 \<equiv> marked_window (set_lines request orientation ml1) orientation b (lines_max L)"
  defines "mlf \<equiv> marked_lines request orientation"
  assumes lo: "lines_min L \<le> b" and hi: "b \<le> lines_max L"
    and len: "length (lines L) = n"
  shows "length (filled_lines ml1 [0..<k]) \<le> length (filled_lines mlf [0..<k])"
    and "length (filled_lines ml2 [k..<n]) \<le> length (filled_lines mlf [k..<n])"
    and "length (filled_lines mlf [0..<n])
         = length (filled_lines mlf [0..<k]) + length (filled_lines mlf [k..<n])"
proof -
  let ?r1 = "set_lines request orientation ml1"
  have kn: "k \<le> n" using lo hi by (simp add: k_def n_def)
  have ef: "empty (mlf ! j) = (\<not> line_covered request orientation (lines_min L) (lines_max L) j)"
    if "j < n" for j
  proof -
    have "empty (mlf ! j)
      = ((j \<in> set [nat (lines_min L - lines_min L)..<nat (lines_max L - lines_min L)]
            \<or> empty (lines L ! j))
         \<and> \<not> line_covered request orientation (lines_min L) (lines_max L) j)"
      unfolding mlf_def marked_lines_window L_def
      by (rule marked_window_empty) (use that len in \<open>simp add: L_def\<close>)
    with that show ?thesis by (simp add: n_def)
  qed
  have e1: "empty (ml1 ! j) = (\<not> line_covered request orientation (lines_min L) b j)"
    if "j < k" for j
  proof -
    have "empty (ml1 ! j)
      = ((j \<in> set [nat (lines_min L - lines_min L)..<nat (b - lines_min L)] \<or> empty (lines L ! j))
         \<and> \<not> line_covered request orientation (lines_min L) b j)"
      unfolding ml1_def L_def
      by (rule marked_window_empty) (use that kn len in \<open>simp add: L_def\<close>)
    with that show ?thesis by (simp add: k_def)
  qed
  have e2: "empty (ml2 ! j) = (\<not> line_covered request orientation b (lines_max L) j)"
    if "k \<le> j" "j < n" for j
  proof -
    have L1: "lines_min (request_lines ?r1 orientation) = lines_min L"
      by (simp add: L_def)
    have "empty (ml2 ! j)
      = ((j \<in> set [nat (b - lines_min (request_lines ?r1 orientation))
                     ..<nat (lines_max L - lines_min (request_lines ?r1 orientation))]
           \<or> empty (lines (request_lines ?r1 orientation) ! j))
         \<and> \<not> line_covered ?r1 orientation b (lines_max L) j)"
      unfolding ml2_def
      by (rule marked_window_empty) (use that len in \<open>simp add: ml1_def L_def\<close>)
    moreover have "line_covered ?r1 orientation b (lines_max L) j
        = line_covered request orientation b (lines_max L) j"
      by (rule line_covered_cong) (simp_all add: L_def)
    ultimately show ?thesis
      using that by (simp add: k_def n_def L_def)
  qed
  show "length (filled_lines ml1 [0..<k]) \<le> length (filled_lines mlf [0..<k])"
    unfolding filled_lines_def
  proof (rule length_filter_mono, intro ballI impI)
    fix j assume j: "j \<in> set [0..<k]" and "\<not> empty (ml1 ! j)"
    then have "line_covered request orientation (lines_min L) b j"
      by (simp add: e1)
    then have "line_covered request orientation (lines_min L) (lines_max L) j"
      by (rule line_covered_mono) (use hi in simp_all)
    with j kn show "\<not> empty (mlf ! j)" by (simp add: ef)
  qed
  show "length (filled_lines ml2 [k..<n]) \<le> length (filled_lines mlf [k..<n])"
    unfolding filled_lines_def
  proof (rule length_filter_mono, intro ballI impI)
    fix j assume j: "j \<in> set [k..<n]" and "\<not> empty (ml2 ! j)"
    then have "line_covered request orientation b (lines_max L) j"
      by (simp add: e2)
    then have "line_covered request orientation (lines_min L) (lines_max L) j"
      by (rule line_covered_mono) (use lo in simp_all)
    with j show "\<not> empty (mlf ! j)" by (simp add: ef)
  qed
  have "[0..<k + (n - k)] = [0..<k] @ [k..<k + (n - k)]"
    by (rule upt_add_eq_append) simp
  with kn have "[0..<n] = [0..<k] @ [k..<n]" by simp
  then show "length (filled_lines mlf [0..<n])
         = length (filled_lines mlf [0..<k]) + length (filled_lines mlf [k..<n])"
    by (simp add: filled_lines_def)
qed

text \<open>The sizes of the two parts when the baseline leaves each its reported minimum.\<close>

lemma split_sizes_cover:
  fixes m sp k n n1 n2 nf1 nf2 ma mb mn total baseline :: int
  assumes m: "0 \<le> m" and sp: "0 \<le> sp"
    and n1: "0 \<le> n1" "n1 \<le> nf1" "n1 \<le> k" and n2: "0 \<le> n2" "n2 \<le> nf2" "n2 \<le> n - k"
    and mb: "mb = k * m + sp * nf1 + ma"
    and mn: "mn = n * m + sp * (nf1 + nf2 - (if nf1 + nf2 = 0 then 0 else 1))"
    and room: "mb \<le> baseline" "mn - mb \<le> total - baseline" and tot: "mn \<le> total"
  shows "0 < n1 \<longrightarrow> n1 * m \<le> (if n2 > 0 then (baseline - ma) - n1 * sp else total - (n1 - 1) * sp)"
    and "0 < n2 \<longrightarrow> n2 * m \<le> (if n2 > 0 then total - (baseline - ma) - (n2 - 1) * sp else 0)"
proof -
  have A: "n1 * m \<le> k * m" using n1(3) m by (rule mult_right_mono)
  have B: "n2 * m \<le> (n - k) * m" using n2(3) m by (rule mult_right_mono)
  have B': "(n - k) * m = n * m - k * m" by (simp add: algebra_simps)
  have C: "sp * n1 \<le> sp * nf1" using n1(2) sp by (rule mult_left_mono)
  have D: "sp * n2 \<le> sp * nf2" using n2(2) sp by (rule mult_left_mono)
  have c1: "n1 * sp = sp * n1" and c2: "n2 * sp = sp * n2" by simp_all
  have F: "0 \<le> sp * nf2" using sp n2 by simp
  from n2 n1 have "k \<le> n" by linarith
  then have K: "k * m \<le> n * m" using m by (rule mult_right_mono)
  show "0 < n1 \<longrightarrow> n1 * m \<le> (if n2 > 0 then (baseline - ma) - n1 * sp else total - (n1 - 1) * sp)"
  proof
    assume p: "0 < n1"
    show "n1 * m \<le> (if n2 > 0 then (baseline - ma) - n1 * sp else total - (n1 - 1) * sp)"
    proof (cases "n2 > 0")
      case True
      from room(1) mb have "k * m + sp * nf1 \<le> baseline - ma" by linarith
      with A C have "n1 * m \<le> baseline - ma - sp * n1" by linarith
      with True show ?thesis by (simp add: c1)
    next
      case False
      from p n1 n2 have "nf1 + nf2 \<noteq> 0" by linarith
      with mn have "mn = n * m + (sp * nf1 + sp * nf2 - sp)"
        by (simp add: algebra_simps)
      with tot A K C F have "n1 * m \<le> total - (sp * n1 - sp)" by linarith
      moreover have "(n1 - 1) * sp = sp * n1 - sp" by (simp add: algebra_simps)
      ultimately show ?thesis using False by simp
    qed
  qed
  show "0 < n2 \<longrightarrow> n2 * m \<le> (if n2 > 0 then total - (baseline - ma) - (n2 - 1) * sp else 0)"
  proof
    assume p: "0 < n2"
    from p n1 n2 have "nf1 + nf2 \<noteq> 0" by linarith
    with mn have "mn = n * m + (sp * nf1 + sp * nf2 - sp)"
      by (simp add: algebra_simps)
    with room(2) mb have "n * m - k * m + sp * nf2 - sp \<le> total - (baseline - ma)" by linarith
    with B B' D have "n2 * m \<le> total - (baseline - ma) - (sp * n2 - sp)" by linarith
    moreover have "(n2 - 1) * sp = sp * n2 - sp" by (simp add: algebra_simps)
    ultimately show "n2 * m \<le> (if n2 > 0 then total - (baseline - ma) - (n2 - 1) * sp else 0)"
      using p by simp
  qed
qed

text \<open>
  Claim C4, as far as the code keeps it. Let a request be measured by
  \<^verbatim>\<open>gtk_grid_request_run\<close> and allocated by \<^verbatim>\<open>gtk_grid_request_allocate\<close> with a total
  size of at least the minimum that \<^verbatim>\<open>gtk_grid_request_sum\<close> reports, with any
  \<^verbatim>\<open>gtk_distribute_natural_allocation\<close> that meets the contract, and with a spacing that
  is not negative. Then for every visible child that spans more than one line, the sum
  of the allocations of the lines it spans plus (span - 1) times the spacing is at least
  the minimum size the child asked for, under two conditions on a pass that is split at
  the baseline row. With homogeneous lines the baseline must leave each part its
  reported minimum: it is at least the minimum baseline that the grid reported, and the
  size below it is at least the reported minimum less that baseline. And the child must
  not start two or more lines before the baseline row and reach it: for such a child the
  test \<^verbatim>\<open>attach->pos + 1 < min\<close> skips its lines, and the statement says nothing.
\<close>

theorem spanning_child_allocation_covers_minimum:
  fixes request orientation contextual total_size baseline dna child
  defines "measured \<equiv> gtk_grid_request_run request orientation contextual"
  defines "reported \<equiv> snd (gtk_grid_request_sum measured orientation)"
  assumes c: "natural_allocation_contract dna"
    and ok: "request_ok request orientation"
    and sp0: "0 \<le> spacing (linedata (grid request) orientation)"
    and tot: "fst reported \<le> total_size"
    and child: "child \<in> set (children (grid request))"
    and vis: "widget_visible (widget child)"
    and sp: "1 < span (attach child orientation)"
    and room: "baseline_split measured orientation baseline
         \<Longrightarrow> homogeneous (linedata (grid request) orientation)
         \<Longrightarrow> fst (snd (snd reported)) \<le> baseline
             \<and> fst reported - fst (snd (snd reported)) \<le> total_size - baseline"
    and reach: "baseline_split measured orientation baseline
         \<Longrightarrow> \<not> (pos (attach child orientation) + 1 < baseline_row (grid request)
                \<and> baseline_row (grid request)
                    < pos (attach child orientation) + span (attach child orientation))"
  shows "fst (compute_request_for_child request child orientation contextual)
       \<le> compute_allocation_for_child
            (gtk_grid_request_allocate dna measured orientation total_size baseline) child orientation"
proof (cases "baseline_split measured orientation baseline")
  case False
  from c ok False tot [unfolded reported_def measured_def] child vis sp show ?thesis
    unfolding measured_def by (intro spanning_child_cover_without_split) simp_all
next
  case True
  let ?a = "attach child orientation"
  let ?L = "request_lines request orientation"
  let ?L1 = "request_lines measured orientation"
  let ?ld = "linedata (grid request) orientation"
  let ?rq2 = "gtk_grid_request_allocate dna measured orientation total_size baseline"
  let ?idx = "spanned_lines ?L ?a"
  define b where "b = baseline_row (grid measured)"
  define k where "k = nat (b - lines_min ?L1)"
  define n where "n = nat (lines_max ?L1 - lines_min ?L1)"
  define ml1 where "ml1 = marked_window measured orientation (lines_min ?L1) b"
  define r1 where "r1 = set_lines measured orientation ml1"
  define ml2 where "ml2 = marked_window r1 orientation b (lines_max ?L1)"
  define mlf where "mlf = marked_lines measured orientation"
  define n1 where "n1 = int (length (filled_lines ml1 [0..<k]))"
  define n2 where "n2 = int (length (filled_lines ml2 [k..<n]))"
  define sps where "sps = spacing (linedata (grid measured) orientation)"
  define ma where "ma = minimum_above (lines ?L1 ! k)"
  define s1 where "s1 = (if n2 > 0 then (baseline - ma) - n1 * sps else total_size - (n1 - 1) * sps)"
  define s2 where "s2 = (if n2 > 0 then total_size - (baseline - ma) - (n2 - 1) * sps else 0)"
  note rc = request_ok_child [OF ok child]
  from ok have mn: "lines_min ?L = count_lines_min (grid request) orientation"
    and mx: "lines_max ?L = count_lines_max (grid request) orientation"
    and len: "length (lines ?L) = nat (lines_max ?L - lines_min ?L)"
    and gr: "grid_in_gint_range (grid request)"
    by (simp_all add: request_ok_def Let_def)
  have fr: "lines_min ?L1 = lines_min ?L" "lines_max ?L1 = lines_max ?L"
    "length (lines ?L1) = length (lines ?L)" "grid measured = grid request"
    by (simp_all add: measured_def)
  have hi: "pos ?a + span ?a \<le> lines_max ?L"
    unfolding mx using child by (rule count_lines_bounds(2))
  have G: "G_MININT \<le> lines_min ?L1" "lines_max ?L1 \<le> G_MAXINT"
    using count_lines_gint [OF gr, of orientation] by (simp_all add: fr mn mx)
  from True have blo: "lines_min ?L1 \<le> b" and bhi: "b < lines_max ?L1"
    unfolding baseline_split_def Let_def b_def by blast+
  have kn: "k < n" using blo bhi by (simp add: k_def n_def)
  have len1: "length (lines ?L1) = n" using len by (simp add: fr n_def)
  have le1: "lines_min ?L1 \<le> lines_max ?L1" using blo bhi by simp
  have sps: "sps = spacing ?ld" by (simp add: sps_def fr)
  have "\<exists>e1 e2. allocate_sizes measured orientation total_size baseline
     = (set_lines r1 orientation ml2, n1, e1, n2, e2, b, s1, s2)"
    unfolding r1_def ml2_def ml1_def n1_def n2_def s1_def s2_def sps_def ma_def k_def n_def b_def
    using True by (rule allocate_sizes_split)
  then obtain e1 e2 where as: "allocate_sizes measured orientation total_size baseline
     = (set_lines r1 orientation ml2, n1, e1, n2, e2, b, s1, s2)"
    by blast
  let ?r = "set_lines r1 orientation ml2"
  have Lr: "lines (request_lines ?r orientation) = ml2"
    "lines_min (request_lines ?r orientation) = lines_min ?L1"
    "lines_max (request_lines ?r orientation) = lines_max ?L1"
    "grid ?r = grid request"
    by (simp_all add: r1_def fr)
  have lml: "length ml2 = n" "length ml1 = n"
    by (simp_all add: ml2_def ml1_def r1_def len1)
  have nn: "length (lines ?L) = n" using len1 by (simp add: fr)
  have "\<exists>m. homogeneous ?ld \<longrightarrow> 0 \<le> m \<and> (\<forall>i<n. minimum (lines ?L1 ! i) = m)"
  proof (cases "homogeneous ?ld")
    case False
    then show ?thesis by simp
  next
    case hom: True
    from request_run_homogeneous_minimum [OF hom len, of contextual]
    show ?thesis
      unfolding measured_def [symmetric] nn by blast
  qed
  then obtain m where m: "homogeneous ?ld \<Longrightarrow> 0 \<le> m \<and> (\<forall>i<n. minimum (lines ?L1 ! i) = m)"
    by blast
  have min2: "minimum (ml2 ! j) = minimum (lines ?L1 ! j)" if "j < n" for j
  proof -
    have "minimum (ml2 ! j) = minimum (lines (request_lines r1 orientation) ! j)"
      unfolding ml2_def by (rule marked_window_field) (use that lml in \<open>simp_all add: r1_def\<close>)
    also have "\<dots> = minimum (ml1 ! j)" by (simp add: r1_def)
    also have "\<dots> = minimum (lines ?L1 ! j)"
      unfolding ml1_def by (rule marked_window_field) (use that len1 in simp_all)
    finally show ?thesis .
  qed
  have sizes: "(0 < n1 \<longrightarrow> n1 * m \<le> s1) \<and> (0 < n2 \<longrightarrow> n2 * m \<le> s2)"
    if hom: "homogeneous ?ld"
  proof -
    from m [OF hom] have m0: "0 \<le> m" and all: "\<forall>i<n. minimum (lines ?L1 ! i) = m" by simp_all
    define nf1 where "nf1 = int (length (filled_lines mlf [0..<k]))"
    define nf2 where "nf2 = int (length (filled_lines mlf [k..<n]))"
    have bhi1: "b \<le> lines_max ?L1" using bhi by simp
    have cnt1: "length (filled_lines ml1 [0..<k]) \<le> length (filled_lines mlf [0..<k])"
      unfolding ml1_def mlf_def k_def
      by (rule split_counts(1) [OF blo bhi1 len1 [unfolded n_def]])
    have cnt2: "length (filled_lines ml2 [k..<n]) \<le> length (filled_lines mlf [k..<n])"
      unfolding ml2_def r1_def ml1_def mlf_def k_def n_def
      by (rule split_counts(2) [OF blo bhi1 len1 [unfolded n_def]])
    have cnt3: "length (filled_lines mlf [0..<n])
         = length (filled_lines mlf [0..<k]) + length (filled_lines mlf [k..<n])"
      unfolding mlf_def k_def n_def
      by (rule split_counts(3) [OF blo bhi1 len1 [unfolded n_def]])
    have mlfmin: "minimum (mlf ! i) = m" if "i < n" for i
    proof -
      have "minimum (mlf ! i) = minimum (lines ?L1 ! i)"
        unfolding mlf_def by (rule marked_lines_minimum) (use that len1 in simp)
      with all that show ?thesis by simp
    qed
    have sumk: "(\<Sum>i\<leftarrow>[0..<k]. minimum (mlf ! i)) = int k * m"
    proof -
      have "(\<Sum>i\<leftarrow>[0..<k]. minimum (mlf ! i)) = (\<Sum>i\<leftarrow>[0..<k]. m)"
        by (intro arg_cong [where f = sum_list] map_cong refl) (use kn in \<open>simp add: mlfmin\<close>)
      then show ?thesis by (simp add: sum_list_triv)
    qed
    have sumn: "(\<Sum>i\<leftarrow>[0..<n]. minimum (mlf ! i)) = int n * m"
    proof -
      have "(\<Sum>i\<leftarrow>[0..<n]. minimum (mlf ! i)) = (\<Sum>i\<leftarrow>[0..<n]. m)"
        by (intro arg_cong [where f = sum_list] map_cong refl) (simp add: mlfmin)
      then show ?thesis by (simp add: sum_list_triv)
    qed
    have "fst (snd (snd (snd (gtk_grid_request_sum measured orientation))))
       = (\<Sum>i\<leftarrow>[0..<k]. minimum (mlf ! i)) + sps * int (length (filled_lines mlf [0..<k])) + ma"
      unfolding k_def b_def mlf_def sps_def ma_def
      by (rule request_sum_minimum_baseline [OF G True len1 [unfolded n_def]])
    then have mb: "fst (snd (snd reported)) = int k * m + sps * nf1 + ma"
      by (simp add: reported_def sumk nf1_def)
    have mnr: "fst reported = int n * m + sps * (nf1 + nf2 - (if nf1 + nf2 = 0 then 0 else 1))"
    proof -
      have "fst (snd (gtk_grid_request_sum measured orientation))
         = (\<Sum>i\<leftarrow>[0..<n]. minimum (mlf ! i))
          + sps * (int (length (filled_lines mlf [0..<n]))
                   - (if filled_lines mlf [0..<n] = [] then 0 else 1))"
        unfolding n_def mlf_def sps_def
        by (rule request_sum_minimum [OF G le1])
      moreover have "int (length (filled_lines mlf [0..<n])) = nf1 + nf2"
        using cnt3 by (simp add: nf1_def nf2_def)
      moreover have "(filled_lines mlf [0..<n] = []) = (length (filled_lines mlf [0..<n]) = 0)"
        by simp
      then have "(filled_lines mlf [0..<n] = []) = (nf1 + nf2 = 0)"
        unfolding cnt3 nf1_def nf2_def by linarith
      ultimately show ?thesis by (simp add: sumn reported_def)
    qed
    have c1: "n1 \<le> nf1" using cnt1 by (simp add: n1_def nf1_def)
    have c2: "n2 \<le> nf2" using cnt2 by (simp add: n2_def nf2_def)
    have "length (filled_lines ml1 [0..<k]) \<le> length [0..<k]"
      unfolding filled_lines_def by (rule length_filter_le)
    then have c3: "n1 \<le> int k" by (simp add: n1_def)
    have "length (filled_lines ml2 [k..<n]) \<le> length [k..<n]"
      unfolding filled_lines_def by (rule length_filter_le)
    then have c4: "n2 \<le> int n - int k" using kn by (simp add: n2_def)
    from room [OF True hom] have rm: "fst (snd (snd reported)) \<le> baseline"
      "fst reported - fst (snd (snd reported)) \<le> total_size - baseline"
      by simp_all
    have n0: "0 \<le> n1" "0 \<le> n2" by (simp_all add: n1_def n2_def)
    have sp0': "0 \<le> sps" using sp0 by (simp add: sps)
    from split_sizes_cover [OF m0 sp0' n0(1) c1 c3 n0(2) c2 c4 mb mnr rm tot]
    show ?thesis
      by (simp add: s1_def s2_def)
  qed
  have rng: "\<forall>i\<in>set ?idx. i < length (lines ?L)"
    using rc(2,3) by (rule spanned_lines_range)
  have cover: "minimum (lines ?L1 ! j) \<le> allocation (lines (request_lines ?rq2 orientation) ! j)
      \<and> lines_min (request_lines ?rq2 orientation) = lines_min ?L"
    if "j \<in> set ?idx" for j
  proof -
    from that obtain i where i: "i < nat (span ?a)" "j = line_index ?L ?a i"
      by (auto simp add: spanned_lines_def)
    from that rng have jn: "j < n" using len by (simp add: n_def fr)
    have li: "line_index ?L1 ?a i = j"
      by (simp add: i(2) line_index_def fr)
    have rch: "\<not> (pos ?a + 1 < b \<and> b < pos ?a + span ?a)"
      using reach [OF True] by (simp add: fr b_def)
    have h1: "child \<in> set (children (grid measured))" using child by (simp add: fr)
    have h2: "lines_min ?L1 \<le> pos ?a" using rc(2) by (simp add: fr)
    have h3: "pos ?a + span ?a \<le> lines_max ?L1" using hi by (simp add: fr)
    have h4: "nat (pos ?a - lines_min ?L1) + nat (span ?a) \<le> length (lines ?L1)"
      using rc(3) by (simp add: fr)
    note scf = split_child_lines_filled [OF h1 vis sp h2 h3 h4 rch i(1)]
    have f2: "\<not> empty (ml2 ! j)"
      using scf(1) by (simp add: li ml2_def ml1_def r1_def)
    have f1: "\<not> empty (ml1 ! j)" if "int j < b - lines_min ?L1"
      using scf(2) that by (simp add: li ml1_def)
    have p1: "n1 \<noteq> 0" if "int j < b - lines_min (request_lines ?r orientation)"
    proof -
      from that have lt: "int j < b - lines_min ?L1" by (simp add: Lr r1_def)
      then have "j < k" by (simp add: k_def)
      with f1 [OF lt] have "j \<in> set (filled_lines ml1 [0..<k])"
        by (simp add: filled_lines_def)
      then show ?thesis by (auto simp add: n1_def)
    qed
    have p2: "n2 \<noteq> 0" if "b - lines_min (request_lines ?r orientation) \<le> int j"
    proof -
      from that blo have "k \<le> j" by (simp add: Lr r1_def k_def)
      with f2 jn have "j \<in> set (filled_lines ml2 [k..<n])"
        by (simp add: filled_lines_def)
      then show ?thesis by (auto simp add: n2_def)
    qed
    have homr: "0 \<le> m \<and> minimum (lines (request_lines ?r orientation) ! j) \<le> m
              \<and> (0 < n1 \<longrightarrow> n1 * m \<le> s1) \<and> (0 < n2 \<longrightarrow> n2 * m \<le> s2)"
      if "homogeneous (linedata (grid ?r) orientation)"
    proof -
      from that have hom: "homogeneous ?ld" by (simp add: r1_def fr)
      from m [OF hom] jn have "0 \<le> m" "minimum (lines ?L1 ! j) = m" by simp_all
      with sizes [OF hom] show ?thesis by (simp add: Lr r1_def min2 [OF jn])
    qed
    have "lines_min (request_lines ?rq2 orientation) = lines_min (request_lines ?r orientation)"
      and "minimum (lines (request_lines ?r orientation) ! j)
         \<le> allocation (lines (request_lines ?rq2 orientation) ! j)"
    proof -
      have a1: "length (lines (request_lines ?r orientation))
          = nat (lines_max (request_lines ?r orientation) - lines_min (request_lines ?r orientation))"
        by (simp add: Lr r1_def lml n_def)
      have a2: "lines_min (request_lines ?r orientation) \<le> b" "b \<le> lines_max (request_lines ?r orientation)"
        using blo bhi by (simp_all add: Lr r1_def)
      have a3: "j < length (lines (request_lines ?r orientation))" using jn by (simp add: Lr r1_def lml)
      have a4: "\<not> empty (lines (request_lines ?r orientation) ! j)" using f2 by (simp add: Lr r1_def)
      have a5: "0 \<le> n1" "0 \<le> n2" by (simp_all add: n1_def n2_def)
      note r = allocate_cover [OF as c a1 a2 a3 a4 a5 p1 p2 homr]
      show "lines_min (request_lines ?rq2 orientation) = lines_min (request_lines ?r orientation)"
        by (rule r(1))
      show "minimum (lines (request_lines ?r orientation) ! j)
         \<le> allocation (lines (request_lines ?rq2 orientation) ! j)"
        by (rule r(2))
    qed
    then show ?thesis by (simp add: Lr r1_def min2 [OF jn] fr)
  qed
  have lm2: "lines_min (request_lines ?rq2 orientation) = lines_min ?L"
  proof -
    from sp have "nat (span ?a) \<noteq> 0" by simp
    then obtain i where i: "i \<in> set ?idx"
      by (cases ?idx) (auto simp add: spanned_lines_def upt_conv_Cons)
    from cover [OF i] show ?thesis by simp
  qed
  have idx1: "spanned_lines ?L1 ?a = ?idx"
    using fr(1) by (rule spanned_lines_cong)
  have "fst (compute_request_for_child request child orientation contextual)
      \<le> span_size minimum ?ld ?a (lines ?L1) ?idx"
    unfolding measured_def using ok child vis sp by (rule request_run_covers)
  also have "\<dots> \<le> span_size allocation ?ld ?a (lines (request_lines ?rq2 orientation)) ?idx"
    by (rule span_size_fields_mono) (simp add: cover)
  also have "\<dots> = compute_allocation_for_child ?rq2 child orientation"
    unfolding compute_allocation_for_child_span_size
    by (simp add: fr spanned_lines_cong [OF lm2])
  finally show ?thesis .
qed

text \<open>
  Witness of C4: the grid with homogeneous rows, a child of height 10 with its baseline
  at 5 in the baseline row 0 and a child of height 20 over rows 0 and 1. It reports a
  minimum height of 20 with the baseline at 5; allocated a height of 27 with the baseline
  at 12, the rows are split at row 0 and the spanning child gets its 20.
\<close>

theorem spanning_child_allocation_covers_minimum_witness:
  "natural_allocation_contract distribute_natural_allocation_model
   \<and> request_ok (full_request baseline_span_grid) GTK_ORIENTATION_VERTICAL
   \<and> spacing (linedata (grid (full_request baseline_span_grid)) GTK_ORIENTATION_VERTICAL) = 0
   \<and> homogeneous (linedata (grid (full_request baseline_span_grid)) GTK_ORIENTATION_VERTICAL)
   \<and> baseline_row (grid (full_request baseline_span_grid)) = 0
   \<and> baseline_split
        (gtk_grid_request_run (full_request baseline_span_grid) GTK_ORIENTATION_VERTICAL False)
        GTK_ORIENTATION_VERTICAL 12
   \<and> snd (gtk_grid_request_sum
          (gtk_grid_request_run (full_request baseline_span_grid) GTK_ORIENTATION_VERTICAL False)
          GTK_ORIENTATION_VERTICAL) = (20, 20, 5, 5)
   \<and> baseline_span_child \<in> set (children (grid (full_request baseline_span_grid)))
   \<and> widget_visible (widget baseline_span_child)
   \<and> attach baseline_span_child GTK_ORIENTATION_VERTICAL = \<lparr> pos = 0, span = 2 \<rparr>
   \<and> fst (compute_request_for_child (full_request baseline_span_grid) baseline_span_child
            GTK_ORIENTATION_VERTICAL False) = 20
   \<and> 20 \<le> compute_allocation_for_child
            (gtk_grid_request_allocate distribute_natural_allocation_model
               (gtk_grid_request_run (full_request baseline_span_grid) GTK_ORIENTATION_VERTICAL False)
               GTK_ORIENTATION_VERTICAL 27 12)
            baseline_span_child GTK_ORIENTATION_VERTICAL"
proof -
  let ?rq = "full_request baseline_span_grid"
  let ?m = "gtk_grid_request_run ?rq GTK_ORIENTATION_VERTICAL False"
  have ok: "request_ok ?rq GTK_ORIENTATION_VERTICAL"
    by code_simp
  have sp0: "spacing (linedata (grid ?rq) GTK_ORIENTATION_VERTICAL) = 0"
    by code_simp
  have hom: "homogeneous (linedata (grid ?rq) GTK_ORIENTATION_VERTICAL)"
    by code_simp
  have row: "baseline_row (grid ?rq) = 0"
    by code_simp
  have split: "baseline_split ?m GTK_ORIENTATION_VERTICAL 12"
    by code_simp
  have rep: "snd (gtk_grid_request_sum ?m GTK_ORIENTATION_VERTICAL) = (20, 20, 5, 5)"
    by code_simp
  have child: "baseline_span_child \<in> set (children (grid ?rq))"
    by (simp add: full_request_def baseline_span_child_def baseline_span_grid_def grid_attach_def
        new_request_def)
  have vis: "widget_visible (widget baseline_span_child)"
    by code_simp
  have at: "attach baseline_span_child GTK_ORIENTATION_VERTICAL = \<lparr> pos = 0, span = 2 \<rparr>"
    by code_simp
  have cm: "fst (compute_request_for_child ?rq baseline_span_child GTK_ORIENTATION_VERTICAL False) = 20"
    by code_simp
  have "fst (compute_request_for_child ?rq baseline_span_child GTK_ORIENTATION_VERTICAL False)
       \<le> compute_allocation_for_child
            (gtk_grid_request_allocate distribute_natural_allocation_model ?m
               GTK_ORIENTATION_VERTICAL 27 12)
            baseline_span_child GTK_ORIENTATION_VERTICAL"
    by (rule spanning_child_allocation_covers_minimum [OF model_contract ok _ _ child vis])
       (simp_all add: sp0 rep at row)
  with model_contract ok sp0 hom row split rep child vis at cm show ?thesis
    by simp
qed

text \<open>
  Counterexample to C4 as stated. The rows are homogeneous and the baseline row is row 0;
  a child of height 10 with its baseline at 5 lies in row 0 and a child of height 20 over
  rows 0 and 1. The grid reports a minimum and natural height of 20 and a baseline of 5.
  Allocated a height of 20 with the baseline at 12, \<^verbatim>\<open>gtk_grid_request_allocate\<close> starts
  the baseline row 7 units down and shares the 13 units left: the rows get 7 and 6, and
  the spanning child 13 of the 20 it asked for.
\<close>

theorem spanning_child_allocation_counterexample:
  "widget_visible (widget baseline_span_child)
   \<and> attach baseline_span_child GTK_ORIENTATION_VERTICAL = \<lparr> pos = 0, span = 2 \<rparr>
   \<and> fst (compute_request_for_child (full_request baseline_span_grid) baseline_span_child
           GTK_ORIENTATION_VERTICAL False) = 20
   \<and> snd (gtk_grid_request_sum
           (gtk_grid_request_run (full_request baseline_span_grid) GTK_ORIENTATION_VERTICAL False)
           GTK_ORIENTATION_VERTICAL) = (20, 20, 5, 5)
   \<and> map allocation (lines (request_lines
          (gtk_grid_request_allocate distribute_natural_allocation_model
             (gtk_grid_request_run (full_request baseline_span_grid) GTK_ORIENTATION_VERTICAL False)
             GTK_ORIENTATION_VERTICAL 20 12)
          GTK_ORIENTATION_VERTICAL)) = [7, 6]
   \<and> compute_allocation_for_child
         (gtk_grid_request_allocate distribute_natural_allocation_model
            (gtk_grid_request_run (full_request baseline_span_grid) GTK_ORIENTATION_VERTICAL False)
            GTK_ORIENTATION_VERTICAL 20 12)
         baseline_span_child GTK_ORIENTATION_VERTICAL = 13
   \<and> \<not> fst (compute_request_for_child (full_request baseline_span_grid) baseline_span_child
             GTK_ORIENTATION_VERTICAL False)
       \<le> compute_allocation_for_child
            (gtk_grid_request_allocate distribute_natural_allocation_model
               (gtk_grid_request_run (full_request baseline_span_grid) GTK_ORIENTATION_VERTICAL False)
               GTK_ORIENTATION_VERTICAL 20 12)
            baseline_span_child GTK_ORIENTATION_VERTICAL"
  by code_simp

text \<open>
  The spanning loops of \<^verbatim>\<open>gtk_grid_request_compute_expand\<close> test \<^verbatim>\<open>attach->pos + 1 < min\<close>.
  In the split at baseline row 2 a child over rows 0 to 3 is skipped for the rows from 2
  on, so row 3, which only that child covers, stays empty and is allocated nothing,
  although the grid is allocated the height of 100 and the baseline of 49 it reported.
\<close>

lemma baseline_window_slip_example:
  "snd (gtk_grid_request_sum
           (gtk_grid_request_run (full_request baseline_row2_grid) GTK_ORIENTATION_VERTICAL False)
           GTK_ORIENTATION_VERTICAL) = (100, 100, 49, 49)
   \<and> map minimum (lines (request_lines
          (gtk_grid_request_run (full_request baseline_row2_grid) GTK_ORIENTATION_VERTICAL False)
          GTK_ORIENTATION_VERTICAL)) = [22, 22, 33, 23]
   \<and> map empty (lines (request_lines
          (gtk_grid_request_allocate distribute_natural_allocation_model
             (gtk_grid_request_run (full_request baseline_row2_grid) GTK_ORIENTATION_VERTICAL False)
             GTK_ORIENTATION_VERTICAL 100 49)
          GTK_ORIENTATION_VERTICAL)) = [False, False, False, True]
   \<and> map allocation (lines (request_lines
          (gtk_grid_request_allocate distribute_natural_allocation_model
             (gtk_grid_request_run (full_request baseline_row2_grid) GTK_ORIENTATION_VERTICAL False)
             GTK_ORIENTATION_VERTICAL 100 49)
          GTK_ORIENTATION_VERTICAL)) = [22, 22, 33, 0]"
  by code_simp


end
